(* ===== verification/Prelude.thy ===== *)
theory Prelude
  imports Complex_Main
begin

section \<open>Prelude: values, errors and shared lemmas\<close>

text \<open>
  The types every component uses. A Go \<open>string\<close> and a Go \<open>[]byte\<close> are both byte
  sequences and are modelled as \<open>string\<close> (an Isabelle \<open>char\<close> is one byte). A call of Go code
  ends in one of three ways: it returns a value, it returns an error, or it panics. A call of a
  client library that only returns \<open>(value, error)\<close> is a sum, with \<open>Inl\<close> for the error.

  An error raised by this program keeps the status code and the format string of the return
  statement that made it, so every early return of the source is a distinct value. The
  arguments that the source interpolates into the message are left out, and so is the text of
  errors of libraries, which is carried as \<open>LibErr\<close>.

  \<open>Unanswered\<close> is not a value of Go: it stands for a call that has not returned, as it waits for an
  answer of Redis that may never come. It goes up through the callers as an error would, so a
  request whose result is \<open>Err Unanswered\<close> has not been answered.
\<close>

type_synonym bytes = string

text \<open>The gRPC status codes the sources use (\<open>google.golang.org/grpc/codes\<close>).\<close>

datatype code =
    InvalidArgument
  | NotFound
  | Unimplemented
  | PermissionDenied
  | Unauthenticated
  | Internal

datatype go_error =
    Status code string
  | Errorf string
  | LibErr string
  | RedisNil
  | Unanswered

datatype 'a result =
    Ok 'a
  | Err go_error
  | Panic string

named_theorems go_defs \<open>definitions of the Go standard library pieces, for unfolding\<close>
named_theorems getters \<open>nil-safe protobuf getters\<close>
named_theorems key_simps \<open>distinctness and injectivity of Redis keys\<close>

fun result_of :: "(go_error + 'a) \<Rightarrow> 'a result" where
  "result_of (Inl e) = Err e"
| "result_of (Inr x) = Ok x"

fun is_Ok :: "'a result \<Rightarrow> bool" where
  "is_Ok (Ok _) = True"
| "is_Ok _ = False"

lemma is_Ok_iff: "is_Ok r \<longleftrightarrow> (\<exists>x. r = Ok x)"
  by (cases r) auto

lemma result_of_Ok_iff [simp]: "result_of x = Ok y \<longleftrightarrow> x = Inr y"
  by (cases x) auto

lemma result_of_Err_iff [simp]: "result_of x = Err e \<longleftrightarrow> x = Inl e"
  by (cases x) auto

lemma result_of_not_Panic [simp]: "result_of x \<noteq> Panic m"
  by (cases x) auto

subsection \<open>Sequencing over the state of an external service\<close>

text \<open>
  A call that talks to Redis takes the state of the connection and the server behind it and
  returns its result with the next state. \<open>seq_list\<close> is a \<open>for\<close> loop over such calls that
  stops at the first error.
\<close>

fun seq_list :: "('x \<Rightarrow> 'r \<Rightarrow> (go_error + unit) \<times> 'r) \<Rightarrow> 'x list \<Rightarrow> 'r \<Rightarrow> (go_error + unit) \<times> 'r" where
  "seq_list f [] s = (Inr (), s)"
| "seq_list f (x # xs) s =
     (case f x s of
        (Inl e, s') \<Rightarrow> (Inl e, s')
      | (Inr _, s') \<Rightarrow> seq_list f xs s')"

text \<open>What every call of the loop body keeps, the loop keeps.\<close>

lemma seq_list_invariant:
  assumes "I s" and "\<And>x s. x \<in> set xs \<Longrightarrow> I s \<Longrightarrow> I (snd (f x s))"
  shows "I (snd (seq_list f xs s))"
  using assms
proof (induction xs arbitrary: s)
  case Nil
  then show ?case by simp
next
  case (Cons x xs)
  have *: "I (snd (f x s))" using Cons.prems by simp
  show ?case
  proof (cases "f x s")
    case (Pair r s')
    with * have "I s'" by simp
    with Cons Pair show ?thesis by (cases r) simp_all
  qed
qed

text \<open>What a call and the rest of the function keep, the two in sequence keep.\<close>

lemma seq_case:
  assumes "I (snd p)" and "\<And>x b. I b \<Longrightarrow> I (snd (f x b))"
  shows "I (snd (case p of (Inl e, b) \<Rightarrow> (Inl e, b) | (Inr x, b) \<Rightarrow> f x b))"
  using assms by (cases p; cases "fst p") auto

lemma seq_list_append:
  "seq_list f (xs @ ys) s =
     (case seq_list f xs s of (Inl e, s') \<Rightarrow> (Inl e, s') | (Inr _, s') \<Rightarrow> seq_list f ys s')"
  by (induction xs arbitrary: s) (auto split: prod.splits sum.splits)

subsection \<open>Lists and maps\<close>

lemma takeWhile_append_stop:
  "(\<forall>x \<in> set xs. P x) \<Longrightarrow> \<not> P y \<Longrightarrow> takeWhile P (xs @ y # ys) = xs"
  by (simp add: takeWhile_tail)

lemma dropWhile_append_stop:
  "(\<forall>x \<in> set xs. P x) \<Longrightarrow> \<not> P y \<Longrightarrow> dropWhile P (xs @ y # ys) = y # ys"
  by (induction xs) auto

text \<open>A byte string with a marked prefix differs from one whose prefix already differs.\<close>

lemma append_neq_of_take:
  "take n a \<noteq> take n b \<Longrightarrow> n \<le> length a \<Longrightarrow> n \<le> length b \<Longrightarrow> a @ x \<noteq> b @ y"
  by (metis append_Nil2 diff_is_0_eq' take0 take_append)

end
