(* ===== verification/Go_Std.thy ===== *)
theory Go_Std
  imports Prelude
begin

section \<open>The pieces of the Go standard library the program uses\<close>

text \<open>
  \<open>strings\<close> (CutPrefix, Cut, Split, Join, EqualFold), \<open>strconv.Atoi\<close>, the \<open>%d\<close> verb of
  \<open>fmt\<close>, 64-bit wrap-around and \<open>time.Duration\<close> (a signed 64-bit count of nanoseconds).
  They are part of the language's library and are defined here as it documents them.
\<close>

subsection \<open>strings\<close>

definition HasPrefix :: "string \<Rightarrow> string \<Rightarrow> bool" where
  "HasPrefix s p \<longleftrightarrow> take (length p) s = p"

text \<open>\<open>strings.CutPrefix\<close>: the rest and whether the prefix was found.\<close>

definition CutPrefix :: "string \<Rightarrow> string \<Rightarrow> string \<times> bool" where
  "CutPrefix s p = (if HasPrefix s p then (drop (length p) s, True) else (s, False))"

text \<open>\<open>strings.Cut\<close> with a separator of one byte: before, after, found.\<close>

definition Cut :: "string \<Rightarrow> char \<Rightarrow> string \<times> string \<times> bool" where
  "Cut s c =
     (if c \<in> set s
      then (takeWhile (\<lambda>x. x \<noteq> c) s, tl (dropWhile (\<lambda>x. x \<noteq> c) s), True)
      else (s, '''', False))"

text \<open>\<open>strings.Split\<close> with a separator of one byte.\<close>

fun Split :: "string \<Rightarrow> char \<Rightarrow> string list" where
  "Split [] c = [[]]"
| "Split (x # xs) c =
     (if x = c then [] # Split xs c
      else (x # hd (Split xs c)) # tl (Split xs c))"

fun Join :: "string list \<Rightarrow> string \<Rightarrow> string" where
  "Join [] sep = ''''"
| "Join [x] sep = x"
| "Join (x # y # zs) sep = x @ sep @ Join (y # zs) sep"

text \<open>
  \<open>strings.EqualFold\<close> on ASCII bytes. The two uses compare with the literal \<open>bearer\<close>, which
  has no letter with a non-ASCII fold, and two base58 strings, which are ASCII.
\<close>

definition fold_char :: "char \<Rightarrow> char" where
  "fold_char c =
     (let n = (of_char c :: nat) in if 65 \<le> n \<and> n \<le> 90 then char_of (n + 32) else c)"

definition EqualFold :: "string \<Rightarrow> string \<Rightarrow> bool" where
  "EqualFold a b \<longleftrightarrow> map fold_char a = map fold_char b"

lemma HasPrefix_append [simp]: "HasPrefix (p @ s) p"
  by (simp add: HasPrefix_def)

lemma HasPrefix_Nil [simp]: "HasPrefix s []"
  by (simp add: HasPrefix_def)

lemma HasPrefix_Cons [simp]: "HasPrefix (x # xs) (y # ys) \<longleftrightarrow> x = y \<and> HasPrefix xs ys"
  by (auto simp: HasPrefix_def)

lemma HasPrefix_iff: "HasPrefix s p \<longleftrightarrow> (\<exists>t. s = p @ t)"
  by (auto simp: HasPrefix_def) (metis append_take_drop_id)

lemma CutPrefix_append [simp]: "CutPrefix (p @ s) p = (s, True)"
  by (simp add: CutPrefix_def)

lemma CutPrefix_found: "CutPrefix s p = (t, True) \<longleftrightarrow> s = p @ t"
  by (auto simp: CutPrefix_def HasPrefix_iff)

lemma CutPrefix_not_found: "snd (CutPrefix s p) \<longleftrightarrow> HasPrefix s p"
  by (simp add: CutPrefix_def)

lemma Split_nonempty [simp]: "Split s c \<noteq> []"
  by (cases s) auto

lemma Split_no_sep: "c \<notin> set s \<Longrightarrow> Split s c = [s]"
  by (induction s) auto

lemma Split_append_sep: "c \<notin> set s \<Longrightarrow> Split (s @ c # t) c = s # Split t c"
  by (induction s) auto

text \<open>\<open>Split\<close> loses nothing: joining its pieces with the separator gives the string back.\<close>

lemma Join_Split: "Join (Split s c) [c] = s"
proof (induction s)
  case Nil
  then show ?case by simp
next
  case (Cons x xs)
  obtain h t where ht: "Split xs c = h # t"
    by (meson Split_nonempty list.exhaust)
  show ?case
    using Cons ht by (cases t) auto
qed

lemma Split_no_sep_in_pieces: "p \<in> set (Split s c) \<Longrightarrow> c \<notin> set p"
proof (induction s arbitrary: p)
  case Nil
  then show ?case by simp
next
  case (Cons x xs)
  obtain h t where ht: "Split xs c = h # t"
    by (meson Split_nonempty list.exhaust)
  then show ?case using Cons by (auto split: if_splits)
qed

lemma EqualFold_refl [simp]: "EqualFold a a"
  by (simp add: EqualFold_def)

lemma EqualFold_sym: "EqualFold a b \<longleftrightarrow> EqualFold b a"
  by (auto simp: EqualFold_def)

lemma EqualFold_length: "EqualFold a b \<Longrightarrow> length a = length b"
  unfolding EqualFold_def by (metis length_map)

subsection \<open>Decimal printing and \<open>strconv.Atoi\<close>\<close>

definition digit_char :: "nat \<Rightarrow> char" where
  "digit_char d = ''0123456789'' ! d"

definition is_digit :: "char \<Rightarrow> bool" where
  "is_digit c \<longleftrightarrow> (let n = (of_char c :: nat) in 48 \<le> n \<and> n \<le> 57)"

definition digit_val :: "char \<Rightarrow> nat" where
  "digit_val c = (of_char c :: nat) - 48"

fun digits :: "nat \<Rightarrow> string" where
  "digits n = (if n < 10 then [digit_char n] else digits (n div 10) @ [digit_char (n mod 10)])"

declare digits.simps [simp del]

text \<open>The \<open>%d\<close> verb, and the decimal form of an integer argument in a Redis command.\<close>

definition itoa :: "int \<Rightarrow> string" where
  "itoa i = (if i < 0 then CHR ''-'' # digits (nat (- i)) else digits (nat i))"

definition undigits :: "string \<Rightarrow> nat" where
  "undigits s = foldl (\<lambda>a c. a * 10 + digit_val c) 0 s"

definition int64_min :: int where "int64_min = - (2 ^ 63)"
definition int64_max :: int where "int64_max = 2 ^ 63 - 1"

definition in_int64 :: "int \<Rightarrow> bool" where
  "in_int64 i \<longleftrightarrow> int64_min \<le> i \<and> i \<le> int64_max"

text \<open>
  \<open>strconv.Atoi\<close> (\<open>int\<close> has 64 bits): an optional sign, at least one digit, and a value in
  range.
\<close>

definition Atoi :: "string \<Rightarrow> go_error + int" where
  "Atoi s =
     (let (neg, ds) = (case s of
            [] \<Rightarrow> (False, [])
          | c # cs \<Rightarrow> if c = CHR ''-'' then (True, cs)
                      else if c = CHR ''+'' then (False, cs) else (False, s));
          v = (if neg then - int (undigits ds) else int (undigits ds))
      in if ds = [] \<or> \<not> list_all is_digit ds then Inl (LibErr ''invalid syntax'')
         else if in_int64 v then Inr v else Inl (LibErr ''value out of range''))"

lemma digit_char_cases: "(d::nat) < 10 \<Longrightarrow> d \<in> {0, 1, 2, 3, 4, 5, 6, 7, 8, 9}"
  by auto

lemma digit_val_digit_char [simp]: "d < 10 \<Longrightarrow> digit_val (digit_char d) = d"
  by (drule digit_char_cases) (auto simp: digit_val_def digit_char_def)

lemma is_digit_digit_char [simp]: "d < 10 \<Longrightarrow> is_digit (digit_char d)"
  by (drule digit_char_cases) (auto simp: is_digit_def digit_char_def)

lemma digits_nonempty [simp]: "digits n \<noteq> []"
  by (subst digits.simps) simp

lemma digits_all_digit: "list_all is_digit (digits n)"
proof (induction n rule: digits.induct)
  case (1 n)
  show ?case
    by (subst digits.simps) (use 1 in auto)
qed

lemma undigits_snoc [simp]: "undigits (s @ [c]) = undigits s * 10 + digit_val c"
  by (simp add: undigits_def)

lemma undigits_digits [simp]: "undigits (digits n) = n"
proof (induction n rule: digits.induct)
  case (1 n)
  show ?case
  proof (cases "n < 10")
    case True
    then show ?thesis by (subst digits.simps) (simp add: undigits_def)
  next
    case False
    with 1 show ?thesis by (subst digits.simps) simp
  qed
qed

lemma sign_not_digit [simp]: "\<not> is_digit (CHR ''-'')" "\<not> is_digit (CHR ''+'')"
  by (simp_all add: is_digit_def)

lemma not_digit_in_digits: "\<not> is_digit c \<Longrightarrow> c \<notin> set (digits n)"
  using digits_all_digit [of n] by (auto simp: list_all_iff)

lemma digits_inject [simp]: "digits a = digits b \<longleftrightarrow> a = b"
  by (metis undigits_digits)

lemma digits_Cons_digit: "digits n = c # cs \<Longrightarrow> is_digit c"
  using digits_all_digit [of n] by simp

text \<open>Printing a 64-bit integer and reading it back is the identity.\<close>

lemma Atoi_itoa: "in_int64 i \<Longrightarrow> Atoi (itoa i) = Inr i"
proof (cases "i < 0")
  case True
  assume "in_int64 i"
  with True show ?thesis
    by (simp add: Atoi_def itoa_def digits_all_digit)
next
  case False
  assume r: "in_int64 i"
  obtain c cs where d: "digits (nat i) = c # cs"
    by (meson digits_nonempty list.exhaust)
  then have "is_digit c" by (rule digits_Cons_digit)
  then have "c \<noteq> CHR ''-''" "c \<noteq> CHR ''+''" by auto
  moreover have "undigits (c # cs) = nat i" "list_all is_digit (c # cs)"
    using d undigits_digits [of "nat i"] digits_all_digit [of "nat i"] by simp_all
  ultimately show ?thesis
    using False r d by (simp add: Atoi_def itoa_def)
qed

lemma Atoi_range: "Atoi s = Inr i \<Longrightarrow> in_int64 i"
  by (auto simp: Atoi_def Let_def split: prod.splits if_splits)

lemma itoa_inject: "in_int64 a \<Longrightarrow> in_int64 b \<Longrightarrow> itoa a = itoa b \<longleftrightarrow> a = b"
  by (metis Atoi_itoa sum.inject(2))

subsection \<open>64-bit integers and durations\<close>

text \<open>Two's-complement wrap-around of an exact result to \<open>int64\<close>.\<close>

definition wrap64 :: "int \<Rightarrow> int" where
  "wrap64 i = (i + 2 ^ 63) mod 2 ^ 64 - 2 ^ 63"

lemma wrap64_range: "in_int64 (wrap64 i)"
proof -
  have "0 \<le> (i + 2 ^ 63) mod 2 ^ 64" "(i + 2 ^ 63) mod 2 ^ 64 < 2 ^ 64"
    by simp_all
  then show ?thesis by (simp add: wrap64_def in_int64_def int64_min_def int64_max_def)
qed

lemma wrap64_id [simp]: "in_int64 i \<Longrightarrow> wrap64 i = i"
  by (simp add: wrap64_def in_int64_def int64_min_def int64_max_def)

lemma wrap64_over: "int64_max < i \<Longrightarrow> i \<le> 2 * int64_max \<Longrightarrow> wrap64 i = i - 2 ^ 64 \<and> wrap64 i < 0"
proof -
  assume a: "int64_max < i" "i \<le> 2 * int64_max"
  define j where "j = i - 2 ^ 64"
  have "in_int64 j" using a by (simp add: j_def in_int64_def int64_min_def int64_max_def)
  moreover have "wrap64 i = wrap64 j"
  proof -
    have "i + 2 ^ 63 = (j + 2 ^ 63) + 2 ^ 64" by (simp add: j_def)
    then have "(i + 2 ^ 63) mod 2 ^ 64 = (j + 2 ^ 63) mod 2 ^ 64" by (metis mod_add_self2)
    then show ?thesis by (simp add: wrap64_def)
  qed
  ultimately show ?thesis
    using a by (simp add: j_def int64_max_def)
qed

definition Nanosecond :: int where "Nanosecond = 1"
definition Millisecond :: int where "Millisecond = 1000000"
definition Second :: int where "Second = 1000000000"

lemmas duration_defs = Nanosecond_def Millisecond_def Second_def

lemmas go_std_defs [go_defs] =
  CutPrefix_def HasPrefix_def Cut_def EqualFold_def fold_char_def
  digit_char_def is_digit_def digit_val_def undigits_def itoa_def Atoi_def
  in_int64_def int64_min_def int64_max_def

subsection \<open>\<open>encoding/base64\<close>, the standard encoding\<close>

definition b64_char :: "nat \<Rightarrow> char" where
  "b64_char n = ''ABCDEFGHIJKLMNOPQRSTUVWXYZabcdefghijklmnopqrstuvwxyz0123456789+/'' ! (n mod 64)"

fun base64_EncodeToString :: "bytes \<Rightarrow> string" where
  "base64_EncodeToString [] = []"
| "base64_EncodeToString [a] =
     (let x = (of_char a :: nat)
      in [b64_char (x div 4), b64_char ((x mod 4) * 16), CHR ''='', CHR ''=''])"
| "base64_EncodeToString [a, b] =
     (let x = (of_char a :: nat); y = (of_char b :: nat)
      in [b64_char (x div 4), b64_char ((x mod 4) * 16 + y div 16), b64_char ((y mod 16) * 4), CHR ''=''])"
| "base64_EncodeToString (a # b # c # rest) =
     (let x = (of_char a :: nat); y = (of_char b :: nat); z = (of_char c :: nat)
      in [b64_char (x div 4), b64_char ((x mod 4) * 16 + y div 16), b64_char ((y mod 16) * 4 + z div 64),
          b64_char (z mod 64)] @ base64_EncodeToString rest)"

text \<open>Decoding skips line breaks and takes groups of four, the last of which may be padded.\<close>

definition b64_val :: "char \<Rightarrow> nat option" where
  "b64_val c = map_option fst (find (\<lambda>p. snd p = c)
     (zip [0 ..< 64] ''ABCDEFGHIJKLMNOPQRSTUVWXYZabcdefghijklmnopqrstuvwxyz0123456789+/''))"

fun b64_groups :: "string \<Rightarrow> bytes option" where
  "b64_groups [] = Some []"
| "b64_groups (a # b # c # d # rest) =
     (case (b64_val a, b64_val b) of
        (Some x, Some y) \<Rightarrow>
          if rest = [] \<and> c = CHR ''='' \<and> d = CHR ''='' then Some [char_of (x * 4 + y div 16)]
          else
            (case b64_val c of
               None \<Rightarrow> None
             | Some z \<Rightarrow>
                 if rest = [] \<and> d = CHR ''='' then Some [char_of (x * 4 + y div 16), char_of ((y mod 16) * 16 + z div 4)]
                 else
                   (case (b64_val d, b64_groups rest) of
                      (Some w, Some bs) \<Rightarrow>
                        Some ([char_of (x * 4 + y div 16), char_of ((y mod 16) * 16 + z div 4), char_of ((z mod 4) * 64 + w)] @ bs)
                    | _ \<Rightarrow> None))
      | _ \<Rightarrow> None)"
| "b64_groups _ = None"

definition base64_DecodeString :: "string \<Rightarrow> go_error + bytes" where
  "base64_DecodeString s =
     (case b64_groups (filter (\<lambda>c. c \<noteq> CHR 0x0A \<and> c \<noteq> CHR 0x0D) s) of
        None \<Rightarrow> Inl (LibErr ''illegal base64 data'')
      | Some bs \<Rightarrow> Inr bs)"

lemma b64_char_facts: "\<forall>n \<in> set [0 ..< 64]. b64_val (b64_char n) = Some n \<and> b64_char n \<noteq> CHR ''='' \<and>
    b64_char n \<noteq> CHR 0x0A \<and> b64_char n \<noteq> CHR 0x0D"
  by code_simp

lemma b64_val_char [simp]: "n < 64 \<Longrightarrow> b64_val (b64_char n) = Some n"
  using b64_char_facts by simp

lemma b64_char_not_special [simp]:
  "n < 64 \<Longrightarrow> b64_char n \<noteq> CHR ''=''" "n < 64 \<Longrightarrow> b64_char n \<noteq> CHR 0x0A" "n < 64 \<Longrightarrow> b64_char n \<noteq> CHR 0x0D"
  using b64_char_facts by simp_all

lemma byte_pieces:
  fixes x :: nat
  assumes "x < 256"
  shows "x div 4 < 64" and "x div 16 < 16" and "x div 64 < 4"
    and "x div 4 * 4 + x mod 4 = x" and "x div 16 * 16 + x mod 16 = x" and "x div 64 * 64 + x mod 64 = x"
  using assms by (simp_all add: less_mult_imp_div_less)

lemma sextets:
  fixes x y :: nat
  shows "y < 16 \<Longrightarrow> (x mod 4) * 16 + y < 64" and "y < 16 \<Longrightarrow> ((x mod 4) * 16 + y) div 16 = x mod 4"
    and "y < 16 \<Longrightarrow> ((x mod 4) * 16 + y) mod 16 = y" and "y < 4 \<Longrightarrow> (x mod 16) * 4 + y < 64"
    and "y < 4 \<Longrightarrow> ((x mod 16) * 4 + y) div 4 = x mod 16" and "y < 4 \<Longrightarrow> ((x mod 16) * 4 + y) mod 4 = y"
proof -
  have "x mod 4 \<le> 3" "x mod 16 \<le> 15" by linarith+
  then show "y < 16 \<Longrightarrow> (x mod 4) * 16 + y < 64" "y < 4 \<Longrightarrow> (x mod 16) * 4 + y < 64" by linarith+
qed auto

lemma base64_roundtrip_groups:
  "b64_groups (base64_EncodeToString bs) = Some bs \<and>
     filter (\<lambda>c. c \<noteq> CHR 0x0A \<and> c \<noteq> CHR 0x0D) (base64_EncodeToString bs) = base64_EncodeToString bs"
proof (induction bs rule: base64_EncodeToString.induct)
  case 1
  then show ?case by simp
next
  case (2 a)
  define x where "x = (of_char a :: nat)"
  have x: "x < 256" "char_of x = a" by (simp_all add: x_def)
  note p = byte_pieces [OF x(1)]
  have q: "(x mod 4) * 16 < 64" "(x mod 4) * 16 div 16 = x mod 4" by auto
  from p q x(2) show ?case by (simp add: Let_def x_def [symmetric])
next
  case (3 a b)
  define x y where "x = (of_char a :: nat)" and "y = (of_char b :: nat)"
  have x: "x < 256" "char_of x = a" "y < 256" "char_of y = b" by (simp_all add: x_def y_def)
  note p = byte_pieces [OF x(1)] byte_pieces [OF x(3)]
  note q = sextets(1-3) [OF p(8), of x] sextets(4,5) [of 0 y]
  have m: "y div 16 mod 16 = y div 16" using p by simp
  show ?case by (simp add: p(1) q m x(2,4) Let_def x_def [symmetric] y_def [symmetric])
next
  case (4 a b c rest)
  define x y z where "x = (of_char a :: nat)" and "y = (of_char b :: nat)" and "z = (of_char c :: nat)"
  have x: "x < 256" "char_of x = a" "y < 256" "char_of y = b" "z < 256" "char_of z = c" by (simp_all add: x_def y_def z_def)
  note p = byte_pieces [OF x(1)] byte_pieces [OF x(3)] byte_pieces [OF x(5)]
  note q = sextets(1-3) [OF p(8), of x] sextets(4-6) [OF p(15), of y]
  have m: "y div 16 mod 16 = y div 16" "z div 64 mod 4 = z div 64" using p by simp_all
  show ?case by (simp add: p(1) q m x(2,4,6) 4 Let_def x_def [symmetric] y_def [symmetric] z_def [symmetric])
qed

lemma base64_roundtrip: "base64_DecodeString (base64_EncodeToString bs) = Inr bs"
  using base64_roundtrip_groups [of bs] by (simp add: base64_DecodeString_def)

end
