(* ===== verification/Redis_Client.thy ===== *)
theory Redis_Client
  imports Go_Std "HOL-Library.Product_Lexorder" "HOL-Library.List_Lexorder" "HOL-Library.Char_ord"
begin

section \<open>The Redis client and what the program relies on\<close>

text \<open>
  Redis and the \<open>go-redis\<close> client are not part of the repository, so they are a parameter: a
  record with one field per client method the sources call, over an arbitrary state type \<open>'r\<close>
  (the connection and the server behind it). Every definition that talks to Redis takes this
  record as an argument.

  What the program relies on is the locale \<open>redis_contract\<close>, which states the documented
  behaviour of each command over a view of the keyspace: \<open>view s\<close> is the map of the live keys,
  \<open>clock s\<close> is the server's time in milliseconds, and \<open>up s\<close> says that the connection works.
  The laws speak of healthy states only; nothing is assumed of a call on an unhealthy one.
  Durations are nanoseconds, as in Go. The last argument of \<open>rXRead\<close> is the field \<open>Block\<close> of its
  arguments: the client sends \<open>BLOCK\<close> unless it is negative, and with zero Redis waits for a later
  entry without a limit, which is the answer \<open>Unanswered\<close> on a state that has none.
\<close>

subsection \<open>The client's methods\<close>

datatype redis_any = AnyString bytes | AnyOther

record XMessage =
  ID :: string
  Values :: "string \<rightharpoonup> redis_any"

record XStream =
  Stream :: string
  Messages :: "XMessage list"

record Z =
  Score :: real
  Member :: redis_any

record 'r redis_client =
  rSet :: "string \<Rightarrow> bytes \<Rightarrow> int \<Rightarrow> 'r \<Rightarrow> (go_error + unit) \<times> 'r"
  rGet :: "string \<Rightarrow> 'r \<Rightarrow> (go_error + bytes) \<times> 'r"
  rGetDel :: "string \<Rightarrow> 'r \<Rightarrow> (go_error + bytes) \<times> 'r"
  rMemoryUsage :: "string \<Rightarrow> 'r \<Rightarrow> (go_error + int) \<times> 'r"
  rTTL :: "string \<Rightarrow> 'r \<Rightarrow> (go_error + int) \<times> 'r"
  rExpire :: "string \<Rightarrow> int \<Rightarrow> 'r \<Rightarrow> (go_error + bool) \<times> 'r"
  rSetNXGet :: "string \<Rightarrow> bytes \<Rightarrow> 'r \<Rightarrow> (go_error + redis_any) \<times> 'r"
  rDecrBy :: "string \<Rightarrow> int \<Rightarrow> 'r \<Rightarrow> (go_error + int) \<times> 'r"
  rXAdd :: "string \<Rightarrow> string \<Rightarrow> bool \<Rightarrow> (string \<times> bytes) list \<Rightarrow> 'r \<Rightarrow> (go_error + string) \<times> 'r"
  rXRangeN :: "string \<Rightarrow> string \<Rightarrow> string \<Rightarrow> int \<Rightarrow> 'r \<Rightarrow> (go_error + XMessage list) \<times> 'r"
  rXRead :: "string list \<Rightarrow> string \<Rightarrow> int \<Rightarrow> int \<Rightarrow> 'r \<Rightarrow> (go_error + XStream list) \<times> 'r"
  rHSet :: "string \<Rightarrow> (string \<times> bytes) list \<Rightarrow> 'r \<Rightarrow> (go_error + int) \<times> 'r"
  rHExpire :: "string \<Rightarrow> int \<Rightarrow> string \<Rightarrow> 'r \<Rightarrow> (go_error + unit) \<times> 'r"
  rHScan :: "string \<Rightarrow> int \<Rightarrow> 'r \<Rightarrow> (string list \<times> go_error option) \<times> 'r"
  rZAddGT :: "string \<Rightarrow> real \<Rightarrow> string \<Rightarrow> 'r \<Rightarrow> (go_error + int) \<times> 'r"
  rZRangeWithScores :: "string \<Rightarrow> int \<Rightarrow> int \<Rightarrow> 'r \<Rightarrow> (go_error + Z list) \<times> 'r"

subsection \<open>The keyspace\<close>

text \<open>
  A live key has a typed value and an optional time of expiry in milliseconds. A hash lists its
  fields with their values and their own expiry, a sorted set lists its members by score and then
  by member, a stream lists its entries by identifier.
\<close>

type_synonym sid = "nat \<times> nat"
type_synonym stream_entry = "sid \<times> (string \<times> bytes) list"
type_synonym hash_field = "string \<times> bytes \<times> int option"

datatype rval =
    RStr bytes
  | RHash "hash_field list"
  | RZSet "(real \<times> string) list"
  | RStream "stream_entry list"

type_synonym rkey = "rval \<times> int option"
type_synonym keyspace = "string \<rightharpoonup> rkey"

definition sid_str :: "sid \<Rightarrow> string" where
  "sid_str i = digits (fst i) @ ''-'' @ digits (snd i)"

definition xmsg :: "stream_entry \<Rightarrow> XMessage" where
  "xmsg e = \<lparr>ID = sid_str (fst e), Values = map_of (map (\<lambda>(f, v). (f, AnyString v)) (snd e))\<rparr>"

text \<open>
  \<open>Set\<close> with a positive duration sends it as whole seconds or as milliseconds, at least one;
  with zero the key has no expiry.
\<close>

definition set_expiry :: "int \<Rightarrow> int \<Rightarrow> int option" where
  "set_expiry t d = (if d > 0 then Some (t + max 1 (d div Millisecond)) else None)"

text \<open>\<open>Expire\<close> sends whole seconds, rounding a positive part of a second up to one.\<close>

definition expire_secs :: "int \<Rightarrow> int" where
  "expire_secs d = (if 0 < d \<and> d < Second then 1 else (sgn d) * (\<bar>d\<bar> div Second))"

definition hset_field :: "string \<Rightarrow> bytes \<Rightarrow> hash_field list \<Rightarrow> hash_field list" where
  "hset_field f v m = (f, v, None) # filter (\<lambda>h. fst h \<noteq> f) m"

fun hset_fields :: "(string \<times> bytes) list \<Rightarrow> hash_field list \<Rightarrow> hash_field list" where
  "hset_fields [] m = m"
| "hset_fields ((f, v) # fvs) m = hset_fields fvs (hset_field f v m)"

definition hexpire_field :: "int \<Rightarrow> string \<Rightarrow> hash_field list \<Rightarrow> hash_field list" where
  "hexpire_field e f m = map (\<lambda>(g, v, x). (g, v, if g = f then Some e else x)) m"

definition zscore :: "string \<Rightarrow> (real \<times> string) list \<Rightarrow> real option" where
  "zscore x zs = map_option fst (find (\<lambda>z. snd z = x) zs)"

definition zadd_gt :: "real \<Rightarrow> string \<Rightarrow> (real \<times> string) list \<Rightarrow> (real \<times> string) list" where
  "zadd_gt sc x zs =
     (case zscore x zs of
        None \<Rightarrow> insort (sc, x) zs
      | Some old \<Rightarrow> if old < sc then insort (sc, x) (filter (\<lambda>z. snd z \<noteq> x) zs) else zs)"

text \<open>The fields and values \<open>HScan\<close> yields, one after the other.\<close>

fun scan_items :: "(string \<times> bytes) list \<Rightarrow> string list" where
  "scan_items [] = []"
| "scan_items ((f, v) # fvs) = f # v # scan_items fvs"

text \<open>What passing time leaves of the keyspace.\<close>

definition unexpired :: "int \<Rightarrow> int option \<Rightarrow> bool" where
  "unexpired t e = (case e of None \<Rightarrow> True | Some x \<Rightarrow> t < x)"

fun live_val :: "int \<Rightarrow> rval \<Rightarrow> rval option" where
  "live_val t (RHash m) =
     (let m' = filter (\<lambda>(f, v, e). unexpired t e) m in if m' = [] then None else Some (RHash m'))"
| "live_val t v = Some v"

definition purge :: "int \<Rightarrow> keyspace \<Rightarrow> keyspace" where
  "purge t ks k =
     (case ks k of
        None \<Rightarrow> None
      | Some (v, e) \<Rightarrow> if unexpired t e then map_option (\<lambda>v'. (v', e)) (live_val t v) else None)"

subsection \<open>The contract\<close>

locale redis_contract =
  fixes R :: "'r redis_client"
    and view :: "'r \<Rightarrow> keyspace"
    and clock :: "'r \<Rightarrow> int"
    and up :: "'r \<Rightarrow> bool"
  assumes set_healthy: "up s \<Longrightarrow> up (snd (rSet R k v d s)) \<and> clock (snd (rSet R k v d s)) = clock s"
    and set_ok: "up s \<Longrightarrow> 0 \<le> d \<Longrightarrow>
      fst (rSet R k v d s) = Inr () \<and>
      view (snd (rSet R k v d s)) = (view s)(k \<mapsto> (RStr v, set_expiry (clock s) d))"
    and set_frame: "up s \<Longrightarrow> k' \<noteq> k \<Longrightarrow> view (snd (rSet R k v d s)) k' = view s k'"
    and set_key: "up s \<Longrightarrow> view (snd (rSet R k v d s)) k = view s k
      \<or> (\<exists>e. view (snd (rSet R k v d s)) k = Some (RStr v, e))"
    and get_healthy: "up s \<Longrightarrow> up (snd (rGet R k s)) \<and> clock (snd (rGet R k s)) = clock s
      \<and> view (snd (rGet R k s)) = view s"
    and get_none: "up s \<Longrightarrow> view s k = None \<Longrightarrow> fst (rGet R k s) = Inl RedisNil"
    and get_str: "up s \<Longrightarrow> view s k = Some (RStr v, e) \<Longrightarrow> fst (rGet R k s) = Inr v"
    and get_wrongtype: "up s \<Longrightarrow> view s k = Some (val, e) \<Longrightarrow> (\<nexists>v. val = RStr v) \<Longrightarrow>
      \<exists>m. fst (rGet R k s) = Inl (LibErr m)"
    and getdel_healthy: "up s \<Longrightarrow> up (snd (rGetDel R k s)) \<and> clock (snd (rGetDel R k s)) = clock s"
    and getdel_none: "up s \<Longrightarrow> view s k = None \<Longrightarrow>
      fst (rGetDel R k s) = Inl RedisNil \<and> view (snd (rGetDel R k s)) = view s"
    and getdel_str: "up s \<Longrightarrow> view s k = Some (RStr v, e) \<Longrightarrow>
      fst (rGetDel R k s) = Inr v \<and> view (snd (rGetDel R k s)) = (view s)(k := None)"
    and mem_healthy: "up s \<Longrightarrow> up (snd (rMemoryUsage R k s))
      \<and> clock (snd (rMemoryUsage R k s)) = clock s \<and> view (snd (rMemoryUsage R k s)) = view s"
    and mem_none: "up s \<Longrightarrow> view s k = None \<Longrightarrow> fst (rMemoryUsage R k s) = Inl RedisNil"
    and mem_some: "up s \<Longrightarrow> view s k \<noteq> None \<Longrightarrow> \<exists>n > 0. fst (rMemoryUsage R k s) = Inr n"
    and ttl_healthy: "up s \<Longrightarrow> up (snd (rTTL R k s)) \<and> clock (snd (rTTL R k s)) = clock s
      \<and> view (snd (rTTL R k s)) = view s"
    and ttl_none: "up s \<Longrightarrow> view s k = None \<Longrightarrow> fst (rTTL R k s) = Inr (- 2)"
    and ttl_forever: "up s \<Longrightarrow> view s k = Some (val, None) \<Longrightarrow> fst (rTTL R k s) = Inr (- 1)"
    and ttl_some: "up s \<Longrightarrow> view s k = Some (val, Some till) \<Longrightarrow>
      \<exists>n. fst (rTTL R k s) = Inr (n * Second) \<and> 0 \<le> n \<and> \<bar>n * 1000 - (till - clock s)\<bar> < 1000"
    and expire_healthy: "up s \<Longrightarrow> up (snd (rExpire R k d s)) \<and> clock (snd (rExpire R k d s)) = clock s"
    and expire_none: "up s \<Longrightarrow> view s k = None \<Longrightarrow>
      fst (rExpire R k d s) = Inr False \<and> view (snd (rExpire R k d s)) = view s"
    and expire_some: "up s \<Longrightarrow> view s k = Some (val, e) \<Longrightarrow> 0 < expire_secs d \<Longrightarrow>
      fst (rExpire R k d s) = Inr True \<and>
      view (snd (rExpire R k d s)) = (view s)(k \<mapsto> (val, Some (clock s + expire_secs d * 1000)))"
    and expire_past: "up s \<Longrightarrow> view s k = Some (val, e) \<Longrightarrow> expire_secs d \<le> 0 \<Longrightarrow>
      fst (rExpire R k d s) = Inr True \<and> view (snd (rExpire R k d s)) = (view s)(k := None)"
    and setnx_healthy: "up s \<Longrightarrow> up (snd (rSetNXGet R k v s)) \<and> clock (snd (rSetNXGet R k v s)) = clock s"
    and setnx_none: "up s \<Longrightarrow> view s k = None \<Longrightarrow>
      fst (rSetNXGet R k v s) = Inl RedisNil \<and> view (snd (rSetNXGet R k v s)) = (view s)(k \<mapsto> (RStr v, None))"
    and setnx_str: "up s \<Longrightarrow> view s k = Some (RStr w, e) \<Longrightarrow>
      fst (rSetNXGet R k v s) = Inr (AnyString w) \<and> view (snd (rSetNXGet R k v s)) = view s"
    and setnx_wrongtype: "up s \<Longrightarrow> view s k = Some (val, e) \<Longrightarrow> (\<nexists>w. val = RStr w) \<Longrightarrow>
      (\<exists>m. fst (rSetNXGet R k v s) = Inl (LibErr m)) \<and> view (snd (rSetNXGet R k v s)) = view s"
    and decr_healthy: "up s \<Longrightarrow> up (snd (rDecrBy R k a s)) \<and> clock (snd (rDecrBy R k a s)) = clock s"
    and decr_none: "up s \<Longrightarrow> view s k = None \<Longrightarrow> in_int64 (- a) \<Longrightarrow>
      fst (rDecrBy R k a s) = Inr (- a) \<and>
      view (snd (rDecrBy R k a s)) = (view s)(k \<mapsto> (RStr (itoa (- a)), None))"
    and decr_int: "up s \<Longrightarrow> view s k = Some (RStr (itoa b), e) \<Longrightarrow> in_int64 b \<Longrightarrow> in_int64 (b - a) \<Longrightarrow>
      fst (rDecrBy R k a s) = Inr (b - a) \<and>
      view (snd (rDecrBy R k a s)) = (view s)(k \<mapsto> (RStr (itoa (b - a)), e))"
    and decr_overflow: "up s \<Longrightarrow> view s k = Some (RStr (itoa b), e) \<Longrightarrow> in_int64 b \<Longrightarrow> \<not> in_int64 (b - a) \<Longrightarrow>
      (\<exists>m. fst (rDecrBy R k a s) = Inl (LibErr m)) \<and> view (snd (rDecrBy R k a s)) = view s"
    and decr_other: "up s \<Longrightarrow> view s k = Some (val, e) \<Longrightarrow> (\<nexists>b. in_int64 b \<and> val = RStr (itoa b)) \<Longrightarrow>
      (\<exists>m. fst (rDecrBy R k a s) = Inl (LibErr m)) \<and> view (snd (rDecrBy R k a s)) = view s"
    and xadd_healthy: "up s \<Longrightarrow> up (snd (rXAdd R k mid ap fs s)) \<and> clock (snd (rXAdd R k mid ap fs s)) = clock s"
    and xadd_stream: "up s \<Longrightarrow> (view s k = None \<and> es = [] \<and> e = None) \<or> view s k = Some (RStream es, e) \<Longrightarrow>
      \<exists>i n. fst (rXAdd R k (sid_str lo) ap fs s) = Inr (sid_str i) \<and> 0 < snd i + fst i \<and>
        (\<forall>x \<in> set es. fst x < i) \<and> (\<forall>x \<in> set (take n es). fst x < lo) \<and>
        view (snd (rXAdd R k (sid_str lo) ap fs s)) = (view s)(k \<mapsto> (RStream (drop n es @ [(i, fs)]), e))"
    and xadd_wrongtype: "up s \<Longrightarrow> view s k = Some (val, e) \<Longrightarrow> (\<nexists>es. val = RStream es) \<Longrightarrow>
      (\<exists>m'. fst (rXAdd R k mid ap fs s) = Inl (LibErr m')) \<and> view (snd (rXAdd R k mid ap fs s)) = view s"
    and xadd_frame: "up s \<Longrightarrow> k' \<noteq> k \<Longrightarrow> view (snd (rXAdd R k mid ap fs s)) k' = view s k'"
    and xadd_key: "up s \<Longrightarrow> view (snd (rXAdd R k mid ap fs s)) k = view s k
      \<or> (\<exists>es e. view (snd (rXAdd R k mid ap fs s)) k = Some (RStream es, e))"
    and xrange_healthy: "up s \<Longrightarrow> up (snd (rXRangeN R k st en n s)) \<and>
      clock (snd (rXRangeN R k st en n s)) = clock s \<and> view (snd (rXRangeN R k st en n s)) = view s"
    and xrange_none: "up s \<Longrightarrow> view s k = None \<Longrightarrow> 0 < n \<Longrightarrow>
      fst (rXRangeN R k (sid_str i0) ''+'' n s) = Inr []"
    and xrange_stream: "up s \<Longrightarrow> view s k = Some (RStream es, e) \<Longrightarrow> 0 < n \<Longrightarrow>
      fst (rXRangeN R k (sid_str i0) ''+'' n s) =
        Inr (map xmsg (take (nat n) (filter (\<lambda>x. i0 \<le> fst x) es)))"
    and xread_healthy: "up s \<Longrightarrow> up (snd (rXRead R ks st n b s)) \<and>
      clock (snd (rXRead R ks st n b s)) = clock s \<and> view (snd (rXRead R ks st n b s)) = view s"
    and xread_stream: "up s \<Longrightarrow> view s k = Some (RStream es, e) \<Longrightarrow> 0 < n \<Longrightarrow> \<exists>x \<in> set es. i0 < fst x \<Longrightarrow>
      fst (rXRead R [k] (sid_str i0) n b s) =
        Inr [\<lparr>Stream = k, Messages = map xmsg (take (nat n) (filter (\<lambda>x. i0 < fst x) es))\<rparr>]"
    and xread_waits: "up s \<Longrightarrow> view s k = None \<and> es = [] \<or> view s k = Some (RStream es, e) \<Longrightarrow> \<forall>x \<in> set es. fst x \<le> i0 \<Longrightarrow>
      fst (rXRead R [k] (sid_str i0) n 0 s) = Inl Unanswered"
    and xread_nil: "up s \<Longrightarrow> view s k = None \<and> es = [] \<or> view s k = Some (RStream es, e) \<Longrightarrow> \<forall>x \<in> set es. fst x \<le> i0 \<Longrightarrow>
      b < 0 \<Longrightarrow> fst (rXRead R [k] (sid_str i0) n b s) = Inl RedisNil"
    and xread_wrongtype: "up s \<Longrightarrow> view s k = Some (val, e) \<Longrightarrow> (\<nexists>es. val = RStream es) \<Longrightarrow>
      \<exists>m'. fst (rXRead R [k] st n b s) = Inl (LibErr m')"
    and xread_after: "up s \<Longrightarrow> fst (rXRead R ks (sid_str i0) n b s) = Inr xs \<Longrightarrow>
      xst \<in> set xs \<Longrightarrow> msg \<in> set (Messages xst) \<Longrightarrow> \<exists>i. ID msg = sid_str i \<and> i0 < i"
    and hset_healthy: "up s \<Longrightarrow> up (snd (rHSet R k fvs s)) \<and> clock (snd (rHSet R k fvs s)) = clock s"
    and hset_hash: "up s \<Longrightarrow> fvs \<noteq> [] \<Longrightarrow> distinct (map fst fvs) \<Longrightarrow>
      (view s k = None \<and> hm = [] \<and> e = None) \<or> view s k = Some (RHash hm, e) \<Longrightarrow>
      (\<exists>n. fst (rHSet R k fvs s) = Inr n) \<and>
      view (snd (rHSet R k fvs s)) = (view s)(k \<mapsto> (RHash (hset_fields fvs hm), e))"
    and hset_frame: "up s \<Longrightarrow> k' \<noteq> k \<Longrightarrow> view (snd (rHSet R k fvs s)) k' = view s k'"
    and hset_key: "up s \<Longrightarrow> view (snd (rHSet R k fvs s)) k = view s k
      \<or> (\<exists>m e. view (snd (rHSet R k fvs s)) k = Some (RHash m, e))"
    and hexpire_healthy: "up s \<Longrightarrow> up (snd (rHExpire R k d f s)) \<and> clock (snd (rHExpire R k d f s)) = clock s"
    and hexpire_hash: "up s \<Longrightarrow> view s k = Some (RHash hm, e) \<Longrightarrow> 0 < expire_secs d \<Longrightarrow>
      fst (rHExpire R k d f s) = Inr () \<and>
      view (snd (rHExpire R k d f s)) =
        (view s)(k \<mapsto> (RHash (hexpire_field (clock s + expire_secs d * 1000) f hm), e))"
    and hexpire_frame: "up s \<Longrightarrow> k' \<noteq> k \<Longrightarrow> view (snd (rHExpire R k d f s)) k' = view s k'"
    and hexpire_key: "up s \<Longrightarrow> view (snd (rHExpire R k d f s)) k = view s k
      \<or> view (snd (rHExpire R k d f s)) k = None \<or> (\<exists>m e. view (snd (rHExpire R k d f s)) k = Some (RHash m, e))"
    and hscan_healthy: "up s \<Longrightarrow> up (snd (rHScan R k n s)) \<and> clock (snd (rHScan R k n s)) = clock s
      \<and> view (snd (rHScan R k n s)) = view s"
    and hscan_none: "up s \<Longrightarrow> view s k = None \<Longrightarrow> fst (rHScan R k n s) = ([], None)"
    and hscan_hash: "up s \<Longrightarrow> view s k = Some (RHash hm, e) \<Longrightarrow>
      \<exists>fvs. fst (rHScan R k n s) = (scan_items fvs, None) \<and> set fvs = (\<lambda>(f, v, x). (f, v)) ` set hm"
    and zadd_healthy: "up s \<Longrightarrow> up (snd (rZAddGT R k sc mem s)) \<and> clock (snd (rZAddGT R k sc mem s)) = clock s"
    and zadd_zset: "up s \<Longrightarrow> (view s k = None \<and> zs = [] \<and> e = None) \<or> view s k = Some (RZSet zs, e) \<Longrightarrow>
      (\<exists>n. fst (rZAddGT R k sc mem s) = Inr n) \<and>
      view (snd (rZAddGT R k sc mem s)) = (view s)(k \<mapsto> (RZSet (zadd_gt sc mem zs), e))"
    and zadd_frame: "up s \<Longrightarrow> k' \<noteq> k \<Longrightarrow> view (snd (rZAddGT R k sc mem s)) k' = view s k'"
    and zadd_key: "up s \<Longrightarrow> view (snd (rZAddGT R k sc mem s)) k = view s k
      \<or> (\<exists>zs e. view (snd (rZAddGT R k sc mem s)) k = Some (RZSet zs, e))"
    and zrange_healthy: "up s \<Longrightarrow> up (snd (rZRangeWithScores R k i j s)) \<and>
      clock (snd (rZRangeWithScores R k i j s)) = clock s \<and> view (snd (rZRangeWithScores R k i j s)) = view s"
    and zrange_none: "up s \<Longrightarrow> view s k = None \<Longrightarrow> fst (rZRangeWithScores R k i j s) = Inr []"
    and zrange_zset: "up s \<Longrightarrow> view s k = Some (RZSet zs, e) \<Longrightarrow> 0 \<le> i \<Longrightarrow> i \<le> j \<Longrightarrow>
      fst (rZRangeWithScores R k i j s) =
        Inr (map (\<lambda>(sc, x). \<lparr>Score = sc, Member = AnyString x\<rparr>) (take (nat (j - i + 1)) (drop (nat i) zs)))"
    and zrange_bound: "up s \<Longrightarrow> 0 \<le> i \<Longrightarrow> i \<le> j \<Longrightarrow> fst (rZRangeWithScores R k i j s) = Inr zs' \<Longrightarrow>
      int (length zs') \<le> j - i + 1"
    and zrange_string: "up s \<Longrightarrow> fst (rZRangeWithScores R k i j s) = Inr zs' \<Longrightarrow> z \<in> set zs' \<Longrightarrow>
      \<exists>x. Member z = AnyString x"
begin

text \<open>A command on a healthy connection leaves it healthy and serves at one instant.\<close>

lemmas healthy [simp] =
  set_healthy get_healthy getdel_healthy mem_healthy ttl_healthy expire_healthy setnx_healthy
  decr_healthy xadd_healthy xrange_healthy xread_healthy hset_healthy hexpire_healthy
  hscan_healthy zadd_healthy zrange_healthy

lemmas frames = set_frame xadd_frame hset_frame hexpire_frame zadd_frame

lemma expire_frame: "up s \<Longrightarrow> k' \<noteq> k \<Longrightarrow> view (snd (rExpire R k d s)) k' = view s k'"
  using expire_none [of s k d] expire_some [of s k _ _ d] expire_past [of s k _ _ d]
  by (cases "view s k"; cases "0 < expire_secs d") auto

text \<open>\<open>Expire\<close> changes no value: the key keeps it or is gone.\<close>

lemma expire_value: "up s \<Longrightarrow> view (snd (rExpire R k d s)) k = Some (v, e') \<Longrightarrow> \<exists>e. view s k = Some (v, e)"
  using expire_none [of s k d] expire_some [of s k _ _ d] expire_past [of s k _ _ d]
  by (cases "view s k"; cases "0 < expire_secs d") auto

lemma expire_not_err: "up s \<Longrightarrow> \<exists>b. fst (rExpire R k d s) = Inr b"
  using expire_none [of s k d] expire_some [of s k _ _ d] expire_past [of s k _ _ d]
  by (cases "view s k"; cases "0 < expire_secs d") auto

lemma setnx_frame: "up s \<Longrightarrow> k' \<noteq> k \<Longrightarrow> view (snd (rSetNXGet R k v s)) k' = view s k'"
  using setnx_none [of s k v] setnx_str [of s k _ _ v] setnx_wrongtype [of s k _ _ v]
  by (cases "view s k") (metis fun_upd_apply, metis option.inject surj_pair)

lemma decr_frame: "up s \<Longrightarrow> k' \<noteq> k \<Longrightarrow> in_int64 (- a) \<Longrightarrow> view (snd (rDecrBy R k a s)) k' = view s k'"
proof (cases "view s k")
  case None
  assume "up s" "k' \<noteq> k" "in_int64 (- a)"
  with None decr_none [of s k a] show ?thesis by simp
next
  case (Some p)
  assume u: "up s" "k' \<noteq> k"
  obtain x e where p: "p = (x, e)" by (cases p)
  show ?thesis
  proof (cases "\<exists>b. in_int64 b \<and> x = RStr (itoa b)")
    case True
    then obtain b where "in_int64 b" "x = RStr (itoa b)" by blast
    with Some p u decr_int [of s k b e a] decr_overflow [of s k b e a] show ?thesis
      by (cases "in_int64 (b - a)") auto
  next
    case False
    with Some p u decr_other [of s k x e a] show ?thesis by simp
  qed
qed

end

text \<open>
  Passing time: the server's clock moves on and what has expired is gone. Stated over the same
  view, so that properties can speak of a later request.
\<close>

definition elapse :: "('r \<Rightarrow> keyspace) \<Rightarrow> ('r \<Rightarrow> int) \<Rightarrow> ('r \<Rightarrow> bool) \<Rightarrow> 'r \<Rightarrow> 'r \<Rightarrow> bool" where
  "elapse view clock up s s' \<longleftrightarrow>
     up s' \<and> clock s \<le> clock s' \<and> view s' = purge (clock s') (view s)"

lemma purge_str:
  "purge t ks k = Some (RStr v, e) \<longleftrightarrow> ks k = Some (RStr v, e) \<and> unexpired t e"
proof (cases "ks k")
  case None
  then show ?thesis by (simp add: purge_def)
next
  case (Some p)
  then show ?thesis
    by (cases p; cases "fst p") (auto simp: purge_def Let_def)
qed

lemma purge_None: "ks k = None \<Longrightarrow> purge t ks k = None"
  by (simp add: purge_def)

lemma purge_gone: "ks k = Some (v, Some e) \<Longrightarrow> e \<le> t \<Longrightarrow> purge t ks k = None"
  by (simp add: purge_def unexpired_def)

end
