(* ===== verification/Redis_Memory.thy ===== *)
theory Redis_Memory
  imports Redis_Client
begin

section \<open>An in-memory Redis\<close>

text \<open>
  A reference server that meets the contract: the keyspace and a clock. It is the concrete
  instance at which the properties that rest on Redis are witnessed, and its interpretation
  shows that the laws of the contract are consistent. It models no code of the repository.
\<close>

record mem =
  mclock :: int
  mkeys :: keyspace

definition mup :: "mem \<Rightarrow> bool" where
  "mup s \<longleftrightarrow> (\<forall>k v e. mkeys s k = Some (v, Some e) \<longrightarrow> mclock s < e)"

definition put :: "string \<Rightarrow> rkey \<Rightarrow> mem \<Rightarrow> mem" where
  "put k x s = s\<lparr>mkeys := (mkeys s)(k \<mapsto> x)\<rparr>"

definition del :: "string \<Rightarrow> mem \<Rightarrow> mem" where
  "del k s = s\<lparr>mkeys := (mkeys s)(k := None)\<rparr>"

definition wrongtype :: go_error where
  "wrongtype = LibErr ''WRONGTYPE''"

definition mem_Set :: "string \<Rightarrow> bytes \<Rightarrow> int \<Rightarrow> mem \<Rightarrow> (go_error + unit) \<times> mem" where
  "mem_Set k v d s = (Inr (), put k (RStr v, set_expiry (mclock s) d) s)"

definition mem_Get :: "string \<Rightarrow> mem \<Rightarrow> (go_error + bytes) \<times> mem" where
  "mem_Get k s =
     ((case mkeys s k of None \<Rightarrow> Inl RedisNil | Some (RStr v, _) \<Rightarrow> Inr v | _ \<Rightarrow> Inl wrongtype), s)"

definition mem_GetDel :: "string \<Rightarrow> mem \<Rightarrow> (go_error + bytes) \<times> mem" where
  "mem_GetDel k s =
     (case mkeys s k of
        None \<Rightarrow> (Inl RedisNil, s)
      | Some (RStr v, _) \<Rightarrow> (Inr v, del k s)
      | _ \<Rightarrow> (Inl wrongtype, s))"

fun mem_size :: "rval \<Rightarrow> int" where
  "mem_size (RStr v) = 56 + int (length v)"
| "mem_size (RHash m) = 56 + 64 * int (length m)"
| "mem_size (RZSet zs) = 56 + 64 * int (length zs)"
| "mem_size (RStream es) = 56 + 64 * int (length es)"

definition mem_MemoryUsage :: "string \<Rightarrow> mem \<Rightarrow> (go_error + int) \<times> mem" where
  "mem_MemoryUsage k s =
     ((case mkeys s k of None \<Rightarrow> Inl RedisNil | Some (v, _) \<Rightarrow> Inr (mem_size v)), s)"

definition mem_TTL :: "string \<Rightarrow> mem \<Rightarrow> (go_error + int) \<times> mem" where
  "mem_TTL k s =
     ((case mkeys s k of
         None \<Rightarrow> Inr (- 2)
       | Some (_, None) \<Rightarrow> Inr (- 1)
       | Some (_, Some e) \<Rightarrow> Inr ((e - mclock s + 500) div 1000 * Second)), s)"

definition mem_Expire :: "string \<Rightarrow> int \<Rightarrow> mem \<Rightarrow> (go_error + bool) \<times> mem" where
  "mem_Expire k d s =
     (case mkeys s k of
        None \<Rightarrow> (Inr False, s)
      | Some (v, _) \<Rightarrow>
          (Inr True,
           if 0 < expire_secs d then put k (v, Some (mclock s + expire_secs d * 1000)) s else del k s))"

definition mem_SetNXGet :: "string \<Rightarrow> bytes \<Rightarrow> mem \<Rightarrow> (go_error + redis_any) \<times> mem" where
  "mem_SetNXGet k v s =
     (case mkeys s k of
        None \<Rightarrow> (Inl RedisNil, put k (RStr v, None) s)
      | Some (RStr w, _) \<Rightarrow> (Inr (AnyString w), s)
      | _ \<Rightarrow> (Inl wrongtype, s))"

definition mem_DecrBy :: "string \<Rightarrow> int \<Rightarrow> mem \<Rightarrow> (go_error + int) \<times> mem" where
  "mem_DecrBy k a s =
     (case mkeys s k of
        None \<Rightarrow> if in_int64 (- a) then (Inr (- a), put k (RStr (itoa (- a)), None) s)
                else (Inl (LibErr ''overflow''), s)
      | Some (RStr w, e) \<Rightarrow>
          (case Atoi w of
             Inl _ \<Rightarrow> (Inl (LibErr ''not an integer''), s)
           | Inr b \<Rightarrow>
               if itoa b \<noteq> w then (Inl (LibErr ''not an integer''), s)
               else if in_int64 (b - a) then (Inr (b - a), put k (RStr (itoa (b - a)), e) s)
               else (Inl (LibErr ''overflow''), s))
      | _ \<Rightarrow> (Inl wrongtype, s))"

definition parse_sid :: "string \<Rightarrow> sid" where
  "parse_sid x =
     (undigits (takeWhile (\<lambda>c. c \<noteq> CHR ''-'') x), undigits (tl (dropWhile (\<lambda>c. c \<noteq> CHR ''-'') x)))"

definition next_sid :: "int \<Rightarrow> stream_entry list \<Rightarrow> sid" where
  "next_sid t es =
     (let top = foldr (\<lambda>e m. max (fst e) m) es (0, 0)
      in if top < (nat t, 0) then (nat t, 0) else (fst top, Suc (snd top)))"

definition mem_XAdd :: "string \<Rightarrow> string \<Rightarrow> bool \<Rightarrow> (string \<times> bytes) list \<Rightarrow> mem \<Rightarrow> (go_error + string) \<times> mem" where
  "mem_XAdd k lo ap fs s =
     (case mkeys s k of
        None \<Rightarrow> (let i = next_sid (mclock s) [] in (Inr (sid_str i), put k (RStream [(i, fs)], None) s))
      | Some (RStream es, e) \<Rightarrow>
          (let i = next_sid (mclock s) es in (Inr (sid_str i), put k (RStream (es @ [(i, fs)]), e) s))
      | _ \<Rightarrow> (Inl wrongtype, s))"

definition mem_XRangeN :: "string \<Rightarrow> string \<Rightarrow> string \<Rightarrow> int \<Rightarrow> mem \<Rightarrow> (go_error + XMessage list) \<times> mem" where
  "mem_XRangeN k a b n s =
     ((case mkeys s k of
         None \<Rightarrow> Inr []
       | Some (RStream es, _) \<Rightarrow> Inr (map xmsg (take (nat n) (filter (\<lambda>x. parse_sid a \<le> fst x) es)))
       | _ \<Rightarrow> Inl wrongtype), s)"

definition stream_after :: "sid \<Rightarrow> int \<Rightarrow> mem \<Rightarrow> string \<Rightarrow> XStream list" where
  "stream_after a n s k =
     (case mkeys s k of
        Some (RStream es, _) \<Rightarrow>
          (let ms = map xmsg (take (nat n) (filter (\<lambda>x. a < fst x) es))
           in if ms = [] then [] else [\<lparr>Stream = k, Messages = ms\<rparr>])
      | _ \<Rightarrow> [])"

definition no_stream :: "mem \<Rightarrow> string \<Rightarrow> bool" where
  "no_stream s k = (case mkeys s k of None \<Rightarrow> False | Some (RStream es, _) \<Rightarrow> False | _ \<Rightarrow> True)"

definition mem_XRead :: "string list \<Rightarrow> string \<Rightarrow> int \<Rightarrow> int \<Rightarrow> mem \<Rightarrow> (go_error + XStream list) \<times> mem" where
  "mem_XRead ks a n b s =
     (let xs = concat (map (stream_after (parse_sid a) n s) ks)
      in (if list_ex (no_stream s) ks then Inl wrongtype
          else if xs = [] then Inl (if b = 0 then Unanswered else RedisNil) else Inr xs, s))"

definition mem_HSet :: "string \<Rightarrow> (string \<times> bytes) list \<Rightarrow> mem \<Rightarrow> (go_error + int) \<times> mem" where
  "mem_HSet k fvs s =
     (if fvs = [] then (Inl (LibErr ''wrong number of arguments''), s)
      else case mkeys s k of
        None \<Rightarrow> (Inr (int (length fvs)), put k (RHash (hset_fields fvs []), None) s)
      | Some (RHash m, e) \<Rightarrow> (Inr (int (length fvs)), put k (RHash (hset_fields fvs m), e) s)
      | _ \<Rightarrow> (Inl wrongtype, s))"

definition mem_HExpire :: "string \<Rightarrow> int \<Rightarrow> string \<Rightarrow> mem \<Rightarrow> (go_error + unit) \<times> mem" where
  "mem_HExpire k d f s =
     (case mkeys s k of
        Some (RHash m, e) \<Rightarrow>
          if 0 < expire_secs d
          then (Inr (), put k (RHash (hexpire_field (mclock s + expire_secs d * 1000) f m), e) s)
          else (Inl (LibErr ''invalid expire time''), s)
      | None \<Rightarrow> (Inr (), s)
      | _ \<Rightarrow> (Inl wrongtype, s))"

definition mem_HScan :: "string \<Rightarrow> int \<Rightarrow> mem \<Rightarrow> (string list \<times> go_error option) \<times> mem" where
  "mem_HScan k n s =
     ((case mkeys s k of
         None \<Rightarrow> ([], None)
       | Some (RHash m, _) \<Rightarrow> (scan_items (map (\<lambda>(f, v, x). (f, v)) m), None)
       | _ \<Rightarrow> ([], Some wrongtype)), s)"

definition mem_ZAddGT :: "string \<Rightarrow> real \<Rightarrow> string \<Rightarrow> mem \<Rightarrow> (go_error + int) \<times> mem" where
  "mem_ZAddGT k sc x s =
     (case mkeys s k of
        None \<Rightarrow> (Inr 1, put k (RZSet (zadd_gt sc x []), None) s)
      | Some (RZSet zs, e) \<Rightarrow> (Inr (if zscore x zs = None then 1 else 0), put k (RZSet (zadd_gt sc x zs), e) s)
      | _ \<Rightarrow> (Inl wrongtype, s))"

definition mem_ZRangeWithScores :: "string \<Rightarrow> int \<Rightarrow> int \<Rightarrow> mem \<Rightarrow> (go_error + Z list) \<times> mem" where
  "mem_ZRangeWithScores k i j s =
     ((case mkeys s k of
         None \<Rightarrow> Inr []
       | Some (RZSet zs, _) \<Rightarrow>
           Inr (map (\<lambda>(sc, x). \<lparr>Score = sc, Member = AnyString x\<rparr>) (take (nat (j - i + 1)) (drop (nat i) zs)))
       | _ \<Rightarrow> Inl wrongtype), s)"

definition mem_redis :: "mem redis_client" where
  "mem_redis = \<lparr>rSet = mem_Set, rGet = mem_Get, rGetDel = mem_GetDel, rMemoryUsage = mem_MemoryUsage,
     rTTL = mem_TTL, rExpire = mem_Expire, rSetNXGet = mem_SetNXGet, rDecrBy = mem_DecrBy,
     rXAdd = mem_XAdd, rXRangeN = mem_XRangeN, rXRead = mem_XRead, rHSet = mem_HSet,
     rHExpire = mem_HExpire, rHScan = mem_HScan, rZAddGT = mem_ZAddGT,
     rZRangeWithScores = mem_ZRangeWithScores\<rparr>"

lemma mem_redis_simps [simp]:
  "rSet mem_redis = mem_Set" "rGet mem_redis = mem_Get" "rGetDel mem_redis = mem_GetDel"
  "rMemoryUsage mem_redis = mem_MemoryUsage" "rTTL mem_redis = mem_TTL" "rExpire mem_redis = mem_Expire"
  "rSetNXGet mem_redis = mem_SetNXGet" "rDecrBy mem_redis = mem_DecrBy" "rXAdd mem_redis = mem_XAdd"
  "rXRangeN mem_redis = mem_XRangeN" "rXRead mem_redis = mem_XRead" "rHSet mem_redis = mem_HSet"
  "rHExpire mem_redis = mem_HExpire" "rHScan mem_redis = mem_HScan" "rZAddGT mem_redis = mem_ZAddGT"
  "rZRangeWithScores mem_redis = mem_ZRangeWithScores"
  by (simp_all add: mem_redis_def)

lemmas mem_defs =
  mem_Set_def mem_Get_def mem_GetDel_def mem_MemoryUsage_def mem_TTL_def mem_Expire_def
  mem_SetNXGet_def mem_DecrBy_def mem_XAdd_def mem_XRangeN_def mem_XRead_def mem_HSet_def
  mem_HExpire_def mem_HScan_def mem_ZAddGT_def mem_ZRangeWithScores_def

lemma put_simps [simp]: "mkeys (put k x s) = (mkeys s)(k \<mapsto> x)" "mclock (put k x s) = mclock s"
  by (simp_all add: put_def)

lemma del_simps [simp]: "mkeys (del k s) = (mkeys s)(k := None)" "mclock (del k s) = mclock s"
  by (simp_all add: del_def)

lemma mup_put: "mup s \<Longrightarrow> (\<forall>e. snd x = Some e \<longrightarrow> mclock s < e) \<Longrightarrow> mup (put k x s)"
  by (cases x) (auto simp: mup_def)

lemma mup_del: "mup s \<Longrightarrow> mup (del k s)"
  by (auto simp: mup_def)

lemma mup_expiry: "mup s \<Longrightarrow> mkeys s k = Some (v, Some e) \<Longrightarrow> mclock s < e"
  by (auto simp: mup_def)

lemma set_expiry_after: "set_expiry t d = Some e \<Longrightarrow> t < e"
  by (auto simp: set_expiry_def split: if_splits)

lemma parse_sid_str [simp]: "parse_sid (sid_str i) = i"
proof -
  have nd: "CHR ''-'' \<notin> set (digits n)" for n by (rule not_digit_in_digits) simp
  have "takeWhile (\<lambda>c. c \<noteq> CHR ''-'') (digits (fst i) @ CHR ''-'' # digits (snd i)) = digits (fst i)"
    by (rule takeWhile_append_stop) (use nd in auto)
  moreover have "dropWhile (\<lambda>c. c \<noteq> CHR ''-'') (digits (fst i) @ CHR ''-'' # digits (snd i))
      = CHR ''-'' # digits (snd i)"
    by (rule dropWhile_append_stop) (use nd in auto)
  ultimately show ?thesis by (simp add: parse_sid_def sid_str_def)
qed

lemma next_sid_above: "x \<in> set es \<Longrightarrow> fst x < next_sid t es"
proof -
  let ?top = "foldr (\<lambda>e m. max (fst e) m) es (0, 0)"
  assume x: "x \<in> set es"
  have le: "fst x \<le> ?top" using x by (induction es) (auto simp: le_max_iff_disj)
  have "?top < next_sid t es"
    by (cases ?top) (auto simp: next_sid_def Let_def)
  with le show ?thesis by (rule le_less_trans)
qed

lemma next_sid_pos: "0 < snd (next_sid t es) + fst (next_sid t es)"
  by (cases "foldr (\<lambda>e m. max (fst e) m) es (0, 0)") (auto simp: next_sid_def Let_def)

lemma mem_ttl_bound:
  "0 < (r :: int) \<Longrightarrow> 0 \<le> (r + 500) div 1000 \<and> \<bar>(r + 500) div 1000 * 1000 - r\<bar> < 1000"
proof -
  assume r: "0 < r"
  have "(r + 500) div 1000 * 1000 = r + 500 - (r + 500) mod 1000"
    by (simp add: minus_mod_eq_div_mult [symmetric])
  moreover have "0 \<le> (r + 500) mod 1000" "(r + 500) mod 1000 < 1000" by simp_all
  ultimately have "\<bar>(r + 500) div 1000 * 1000 - r\<bar> < 1000" by linarith
  moreover have "0 \<le> (r + 500) div 1000" using r by simp
  ultimately show ?thesis by blast
qed

lemma Atoi_itoa_iff: "(\<exists>b. in_int64 b \<and> w = itoa b) \<longleftrightarrow> (\<exists>b. Atoi w = Inr b \<and> itoa b = w)"
  using Atoi_itoa Atoi_range by metis

lemma stream_after_ids:
  "x \<in> set (stream_after a n s k) \<Longrightarrow> m \<in> set (Messages x) \<Longrightarrow> \<exists>i. ID m = sid_str i \<and> a < i"
  by (fastforce simp: stream_after_def Let_def xmsg_def
        split: option.splits prod.splits rval.splits if_splits dest: in_set_takeD)

lemmas mem_splits = option.splits prod.splits rval.splits sum.splits

text \<open>The reference server meets every law of the contract.\<close>

lemmas mem_mup = mup_put mup_del set_expiry_after mup_expiry

lemma mem_decr_int:
  "mkeys s k = Some (RStr (itoa b), e) \<Longrightarrow> in_int64 b \<Longrightarrow>
     mem_DecrBy k a s = (if in_int64 (b - a) then (Inr (b - a), put k (RStr (itoa (b - a)), e) s)
                         else (Inl (LibErr ''overflow''), s))"
  by (simp add: mem_DecrBy_def Atoi_itoa)

lemma mem_decr_other:
  "mkeys s k = Some (x, e) \<Longrightarrow> (\<nexists>b. in_int64 b \<and> x = RStr (itoa b)) \<Longrightarrow>
     \<exists>m. mem_DecrBy k a s = (Inl (LibErr m), s)"
  using Atoi_range by (auto simp: mem_DecrBy_def wrongtype_def split: rval.splits sum.splits)

lemma mem_xadd:
  assumes "(mkeys s k = None \<and> es = [] \<and> e = None) \<or> mkeys s k = Some (RStream es, e)"
  shows "mem_XAdd k lo ap fs s =
     (Inr (sid_str (next_sid (mclock s) es)), put k (RStream (es @ [(next_sid (mclock s) es, fs)]), e) s)"
  using assms by (auto simp: mem_XAdd_def Let_def)

lemma mem_xread:
  "mkeys s k = Some (RStream es, e) \<Longrightarrow> 0 < n \<Longrightarrow> \<exists>x \<in> set es. a < fst x \<Longrightarrow>
     stream_after a n s k = [\<lparr>Stream = k, Messages = map xmsg (take (nat n) (filter (\<lambda>x. a < fst x) es))\<rparr>]"
  by (auto simp: stream_after_def Let_def filter_empty_conv)

lemma mem_size_pos: "0 < mem_size v"
  by (cases v) simp_all

lemma mem_ttl_some:
  "mup s \<Longrightarrow> mkeys s k = Some (v, Some e) \<Longrightarrow>
     \<exists>n. fst (mem_TTL k s) = Inr (n * Second) \<and> 0 \<le> n \<and> \<bar>n * 1000 - (e - mclock s)\<bar> < 1000"
  using mem_ttl_bound [of "e - mclock s"] mup_expiry [of s k v e]
  by (auto simp: mem_TTL_def)

lemma mem_xadd_stream:
  assumes "(mkeys s k = None \<and> es = [] \<and> e = None) \<or> mkeys s k = Some (RStream es, e)"
  shows "\<exists>i n. fst (mem_XAdd k (sid_str lo) ap fs s) = Inr (sid_str i) \<and> 0 < snd i + fst i \<and>
      (\<forall>x \<in> set es. fst x < i) \<and> (\<forall>x \<in> set (take n es). fst x < lo) \<and>
      mkeys (snd (mem_XAdd k (sid_str lo) ap fs s)) = (mkeys s)(k \<mapsto> (RStream (drop n es @ [(i, fs)]), e))"
  unfolding mem_xadd [OF assms]
  using next_sid_pos [of "mclock s" es]
  by (intro exI [of _ "next_sid (mclock s) es"] exI [of _ 0]) (auto simp: next_sid_above)

lemma mem_xread_after:
  "fst (mem_XRead ks (sid_str a) n b s) = Inr xs \<Longrightarrow> x \<in> set xs \<Longrightarrow> m \<in> set (Messages x) \<Longrightarrow>
     \<exists>i. ID m = sid_str i \<and> a < i"
  using stream_after_ids [of x a n s _ m] by (fastforce simp: mem_XRead_def Let_def split: if_splits)

lemma mem_hscan_hash:
  "mkeys s k = Some (RHash m, e) \<Longrightarrow>
     \<exists>fvs. fst (mem_HScan k n s) = (scan_items fvs, None) \<and> set fvs = (\<lambda>(f, v, x). (f, v)) ` set m"
  by (intro exI [of _ "map (\<lambda>(f, v, x). (f, v)) m"]) (simp add: mem_HScan_def)

lemma mem_decr_other_cases:
  "mkeys s k = Some (x, e) \<Longrightarrow> (\<nexists>b. in_int64 b \<and> x = RStr (itoa b)) \<Longrightarrow>
     (\<exists>m. fst (mem_DecrBy k a s) = Inl (LibErr m)) \<and> mkeys (snd (mem_DecrBy k a s)) = mkeys s"
  using mem_decr_other [of s k x e a] by auto

lemma mem_XRead_singleton:
  "mem_XRead [k] (sid_str a) n b s =
     (if no_stream s k then Inl wrongtype
      else if stream_after a n s k = [] then Inl (if b = 0 then Unanswered else RedisNil) else Inr (stream_after a n s k), s)"
  by (simp add: mem_XRead_def)

lemma mem_nothing_after:
  assumes "mkeys s k = None \<and> es = [] \<or> mkeys s k = Some (RStream es, e)" and "\<forall>x \<in> set es. fst x \<le> a"
  shows "\<not> no_stream s k" and "stream_after a n s k = []"
proof -
  have "filter (\<lambda>x. a < fst x) es = []" using assms(2) by (simp add: filter_empty_conv not_less)
  with assms(1) show "\<not> no_stream s k" "stream_after a n s k = []" by (auto simp: no_stream_def stream_after_def)
qed

lemma mem_xread_waits:
  assumes "mkeys s k = None \<and> es = [] \<or> mkeys s k = Some (RStream es, e)" and "\<forall>x \<in> set es. fst x \<le> a"
  shows "fst (mem_XRead [k] (sid_str a) n 0 s) = Inl Unanswered" and "b < 0 \<Longrightarrow> fst (mem_XRead [k] (sid_str a) n b s) = Inl RedisNil"
  using mem_nothing_after [OF assms] by (simp_all add: mem_XRead_singleton)

lemma mem_xread_stream:
  "mkeys s k = Some (RStream es, e) \<Longrightarrow> 0 < n \<Longrightarrow> \<exists>x \<in> set es. a < fst x \<Longrightarrow> fst (mem_XRead [k] (sid_str a) n b s) =
     Inr [\<lparr>Stream = k, Messages = map xmsg (take (nat n) (filter (\<lambda>x. a < fst x) es))\<rparr>]"
  by (simp add: mem_XRead_singleton no_stream_def mem_xread)

lemma mem_xread_wrongtype:
  "mkeys s k = Some (x, e) \<Longrightarrow> \<nexists>es. x = RStream es \<Longrightarrow> \<exists>m. fst (mem_XRead [k] st n b s) = Inl (LibErr m)"
  by (cases x) (simp_all add: mem_XRead_def no_stream_def wrongtype_def Let_def)

lemmas mem_cases = mem_ttl_some mem_xadd_stream mem_hscan_hash mem_decr_other_cases mem_xread_after mem_xread_waits mem_xread_stream
  mem_xread_wrongtype

interpretation mem: redis_contract mem_redis mkeys mclock mup
  by (unfold_locales;
      ((auto simp: mem_defs wrongtype_def Let_def intro!: mup_put mup_del
          dest: mup_expiry set_expiry_after split: mem_splits if_splits; fail)
       | (simp add: mem_decr_int; fail)
       | (unfold mem_redis_simps, rule mem_cases; assumption)
       | (use mem_size_pos in \<open>auto simp: mem_defs split: prod.splits\<close>)))

end
