(* ===== verification/Messages.thy ===== *)
theory Messages
  imports Go_Std
begin

section \<open>Protocol messages (\<open>kvstore.pb.go\<close>, \<open>kvstore.connect.go\<close>)\<close>

text \<open>
  The messages of the service as records, without the bookkeeping fields of the protobuf runtime.
  A pointer to a message is an \<open>option\<close>, \<open>None\<close> for \<open>nil\<close>; the generated getters are safe on
  \<open>nil\<close> and return the zero value, and so are the getters here. Enumerations are open in proto3
  (any \<open>int32\<close> can arrive), so they are integers with named constants.
\<close>

subsection \<open>Enumerations\<close>

definition JWT_USAGE_UNSPECIFIED :: int where "JWT_USAGE_UNSPECIFIED = 0"
definition JWT_USAGE_CREATE_SESSION :: int where "JWT_USAGE_CREATE_SESSION = 1"
definition JWT_USAGE_MANAGE_SESSION :: int where "JWT_USAGE_MANAGE_SESSION = 2"

definition CODEC_UNSPECIFIED :: int where "CODEC_UNSPECIFIED = 0"
definition CODEC_RAW :: int where "CODEC_RAW = 1"
definition CODEC_DAG_PB :: int where "CODEC_DAG_PB = 2"

lemmas usage_defs = JWT_USAGE_UNSPECIFIED_def JWT_USAGE_CREATE_SESSION_def JWT_USAGE_MANAGE_SESSION_def
lemmas codec_defs = CODEC_UNSPECIFIED_def CODEC_RAW_def CODEC_DAG_PB_def

subsection \<open>Messages\<close>

text \<open>The well-known types \<open>google.protobuf.Duration\<close> and \<open>Timestamp\<close>.\<close>

record Duration =
  d_Seconds :: int
  d_Nanos :: int

record Timestamp =
  t_Seconds :: int
  t_Nanos :: int

record GlobalLink =
  gl_Name :: string
  gl_Maintainer :: string
  gl_Version :: string
  gl_DisplayName :: string
  gl_Description :: string
  gl_Signature :: string

record VirtualService =
  vs_BehaviorLink :: "GlobalLink option"
  vs_VariantLink :: "GlobalLink option"

record Instance =
  in_Did :: string
  in_PeerId :: string
  in_Multiaddrs :: "string list"

record ProviderAdvertise =
  pa_ProviderInstance :: "Instance option"
  pa_VirtualService :: "VirtualService option"
  pa_Cids :: "string list"
  pa_Price :: int
  pa_CoinType :: int
  pa_CoinEnvironment :: int
  pa_Exchanges :: "Instance option list"
  pa_ExpireTime :: "Timestamp option"
  pa_UpdateTime :: "Timestamp option"
  pa_Signature :: string
  pa_PricingDetails :: string

record CreateValueRequest =
  cv_Codec :: int
  cv_Value :: bytes
  cv_Ttl :: "Duration option"

record CreateValueResponse =
  cvr_Name :: string
  cvr_Ttl :: "Duration option"

record GetValueRequest =
  gv_Name :: string

record GetValueResponse =
  gvr_Value :: bytes

record ProlongValueRequest =
  pv_Name :: string
  pv_Ttl :: "Duration option"
  pv_MaxSize :: int

record ProlongValueResponse =
  pvr_Name :: string
  pvr_Ttl :: "Duration option"

record CreateStreamValueRequest =
  csv_Parent :: string
  csv_Value :: bytes

record CreateStreamValueResponse =
  csvr_Name :: string
  csvr_Ttl :: "Duration option"

record StreamValueInfo =
  sv_Value :: bytes
  sv_StreamEntryId :: string

record GetStreamValueRequest =
  gs_Name :: string
  gs_AuthToken :: string

record GetStreamValueResponse =
  gsr_StreamValueInfo :: "StreamValueInfo option"

record ListStreamValuesRequest =
  ls_Parent :: string
  ls_AuthToken :: string
  ls_PageSize :: int
  ls_PageToken :: string

record ListStreamValuesResponse =
  lsr_StreamValueInfo :: "StreamValueInfo list"
  lsr_PageToken :: string

record Session =
  se_SessionId :: string
  se_Balance :: int

record CreateSessionRequest =
  cs_Jwt :: string

record CreateSessionResponse =
  csr_Session :: "Session option"
  csr_Jwt :: string

record RegisterInstanceRequest =
  ri_Advertisement :: "ProviderAdvertise option"

record SearchCidRequest =
  sc_Cid :: string

record SearchCidResponse =
  scr_VirtualServices :: "VirtualService list"
  scr_StorageInstances :: "ProviderAdvertise list"

record SearchInstanceRequest =
  si_VirtualService :: "VirtualService option"

record SearchInstanceResponse =
  sir_VirtualService :: "VirtualService option"
  sir_InstancePriceInfo :: "ProviderAdvertise list"

record DelegatedRoutingRequest =
  dr_Cid :: string

record DelegatedRoutingResponse =
  drr_Providers :: "Instance option list"

record PingRequest =
  pi_Dummy :: int

record PingResponse =
  pir_Pong :: string

subsection \<open>Getters on pointers\<close>

definition GetName :: "GlobalLink option \<Rightarrow> string" where
  "GetName x = (case x of Some l \<Rightarrow> gl_Name l | None \<Rightarrow> '''')"

definition GetBehaviorLink :: "VirtualService option \<Rightarrow> GlobalLink option" where
  "GetBehaviorLink x = (case x of Some v \<Rightarrow> vs_BehaviorLink v | None \<Rightarrow> None)"

definition GetVariantLink :: "VirtualService option \<Rightarrow> GlobalLink option" where
  "GetVariantLink x = (case x of Some v \<Rightarrow> vs_VariantLink v | None \<Rightarrow> None)"

definition GetProviderInstance :: "ProviderAdvertise option \<Rightarrow> Instance option" where
  "GetProviderInstance x = (case x of Some a \<Rightarrow> pa_ProviderInstance a | None \<Rightarrow> None)"

definition GetVirtualService :: "ProviderAdvertise option \<Rightarrow> VirtualService option" where
  "GetVirtualService x = (case x of Some a \<Rightarrow> pa_VirtualService a | None \<Rightarrow> None)"

definition GetCids :: "ProviderAdvertise option \<Rightarrow> string list" where
  "GetCids x = (case x of Some a \<Rightarrow> pa_Cids a | None \<Rightarrow> [])"

definition GetDid :: "Instance option \<Rightarrow> string" where
  "GetDid x = (case x of Some i \<Rightarrow> in_Did i | None \<Rightarrow> '''')"

lemma getters_Some [simp, getters]:
  "GetName (Some l) = gl_Name l"
  "GetBehaviorLink (Some v) = vs_BehaviorLink v"
  "GetVariantLink (Some v) = vs_VariantLink v"
  "GetProviderInstance (Some a) = pa_ProviderInstance a"
  "GetVirtualService (Some a) = pa_VirtualService a"
  "GetCids (Some a) = pa_Cids a"
  "GetDid (Some i) = in_Did i"
  by (simp_all add: GetName_def GetBehaviorLink_def GetVariantLink_def GetProviderInstance_def
      GetVirtualService_def GetCids_def GetDid_def)

lemma getters_None [simp, getters]:
  "GetName None = ''''" "GetBehaviorLink None = None" "GetVariantLink None = None"
  "GetProviderInstance None = None" "GetVirtualService None = None" "GetCids None = []" "GetDid None = ''''"
  by (simp_all add: GetName_def GetBehaviorLink_def GetVariantLink_def GetProviderInstance_def
      GetVirtualService_def GetCids_def GetDid_def)

subsection \<open>Procedures, requests and responses\<close>

text \<open>The names of the RPCs, and a request as an interceptor sees it (\<open>connect.AnyRequest\<close>).\<close>

definition CreateValueProcedure :: string where
  "CreateValueProcedure = ''/kvstore.v1.KvStoreService/CreateValue''"
definition CreateStreamValueProcedure :: string where
  "CreateStreamValueProcedure = ''/kvstore.v1.KvStoreService/CreateStreamValue''"
definition GetValueProcedure :: string where
  "GetValueProcedure = ''/kvstore.v1.KvStoreService/GetValue''"
definition GetStreamValueProcedure :: string where
  "GetStreamValueProcedure = ''/kvstore.v1.KvStoreService/GetStreamValue''"
definition ListStreamValuesProcedure :: string where
  "ListStreamValuesProcedure = ''/kvstore.v1.KvStoreService/ListStreamValues''"
definition ProlongValueProcedure :: string where
  "ProlongValueProcedure = ''/kvstore.v1.KvStoreService/ProlongValue''"
definition SearchCidProcedure :: string where
  "SearchCidProcedure = ''/kvstore.v1.KvStoreService/SearchCid''"
definition SearchInstanceProcedure :: string where
  "SearchInstanceProcedure = ''/kvstore.v1.KvStoreService/SearchInstance''"
definition CreateSessionProcedure :: string where
  "CreateSessionProcedure = ''/kvstore.v1.KvStoreService/CreateSession''"
definition RegisterInstanceProcedure :: string where
  "RegisterInstanceProcedure = ''/kvstore.v1.KvStoreService/RegisterInstance''"
definition PingProcedure :: string where
  "PingProcedure = ''/kvstore.v1.KvStoreService/Ping''"
definition DelegatedRoutingProcedure :: string where
  "DelegatedRoutingProcedure = ''/kvstore.v1.KvStoreService/DelegatedRouting''"

lemmas procedure_defs =
  CreateValueProcedure_def CreateStreamValueProcedure_def GetValueProcedure_def
  GetStreamValueProcedure_def ListStreamValuesProcedure_def ProlongValueProcedure_def
  SearchCidProcedure_def SearchInstanceProcedure_def CreateSessionProcedure_def
  RegisterInstanceProcedure_def PingProcedure_def DelegatedRoutingProcedure_def

datatype message =
    MCreateValue CreateValueRequest
  | MCreateStreamValue CreateStreamValueRequest
  | MGetValue GetValueRequest
  | MGetStreamValue GetStreamValueRequest
  | MListStreamValues ListStreamValuesRequest
  | MProlongValue ProlongValueRequest
  | MSearchCid SearchCidRequest
  | MSearchInstance SearchInstanceRequest
  | MCreateSession CreateSessionRequest
  | MRegisterInstance RegisterInstanceRequest
  | MPing PingRequest
  | MDelegatedRouting DelegatedRoutingRequest

datatype response =
    RCreateValue CreateValueResponse
  | RCreateStreamValue CreateStreamValueResponse
  | RGetValue GetValueResponse
  | RGetStreamValue GetStreamValueResponse
  | RListStreamValues ListStreamValuesResponse
  | RProlongValue ProlongValueResponse
  | RSearchCid SearchCidResponse
  | RSearchInstance SearchInstanceResponse
  | RCreateSession CreateSessionResponse
  | RRegisterInstance
  | RPing PingResponse
  | RDelegatedRouting DelegatedRoutingResponse

text \<open>
  \<open>Spec().Procedure\<close>, the values of the \<open>Authorization\<close> header and \<open>Any()\<close>. HTTP header names
  are case-insensitive (\<open>http.Header.Get\<close> canonicalises its argument), and \<open>Get\<close> returns the
  first value or the empty string.
\<close>

record AnyRequest =
  Procedure :: string
  AuthorizationHeader :: "string list"
  AnyMsg :: message

definition HeaderGet :: "string list \<Rightarrow> string" where
  "HeaderGet vs = (case vs of [] \<Rightarrow> '''' | v # _ \<Rightarrow> v)"

end
