(* ===== verification/Libs.thy ===== *)
theory Libs
  imports Messages Sha256
begin

section \<open>Third-party pure functions\<close>

text \<open>
  The functions of packages outside the repository that compute without state, as one record the
  definitions take as an argument: base58, multihash, CIDs, the dag-pb decoder, the Merkle tree,
  the protobuf codec and its duration type. What a property needs of them is a named predicate
  below; each states behaviour the package documents.
\<close>

text \<open>A content identifier is its version, its codec and its multihash.\<close>

record cid =
  cid_Version :: int
  cid_Codec :: int
  cid_Hash :: bytes

definition cid_Raw :: int where "cid_Raw = 0x55"
definition cid_DagProtobuf :: int where "cid_DagProtobuf = 0x70"

definition NewCidV1 :: "int \<Rightarrow> bytes \<Rightarrow> cid" where
  "NewCidV1 codec mh = \<lparr>cid_Version = 1, cid_Codec = codec, cid_Hash = mh\<rparr>"

datatype multihash_code = SHA2_256 | KECCAK_256

record libs =
  base58_Encode :: "bytes \<Rightarrow> string"
  base58_Decode :: "string \<Rightarrow> go_error + bytes"
  multihash_Encode :: "bytes \<Rightarrow> multihash_code \<Rightarrow> go_error + bytes"
  multihash_B58String :: "bytes \<Rightarrow> string"
  cid_Decode :: "string \<Rightarrow> go_error + cid"
  cid_String :: "cid \<Rightarrow> string"
  cid_Bytes :: "cid \<Rightarrow> bytes"
  merkledag_DecodeProtobuf :: "bytes \<Rightarrow> go_error + cid"
  merkletree_Root :: "bytes list \<Rightarrow> go_error + bytes"
  AsDuration :: "Duration option \<Rightarrow> int"
  durationpb_New :: "int \<Rightarrow> Duration"
  Marshal_GlobalLink :: "GlobalLink option \<Rightarrow> go_error + bytes"
  Marshal_VirtualService :: "VirtualService option \<Rightarrow> go_error + bytes"
  Marshal_ProviderAdvertise :: "ProviderAdvertise option \<Rightarrow> go_error + bytes"
  Unmarshal_VirtualService :: "bytes \<Rightarrow> go_error + VirtualService"
  Unmarshal_ProviderAdvertise :: "bytes \<Rightarrow> go_error + ProviderAdvertise"

text \<open>Printing a version 1 CID of the two codecs and decoding the text gives the CID back.\<close>

definition cid_roundtrip :: "libs \<Rightarrow> bool" where
  "cid_roundtrip L \<longleftrightarrow>
     (\<forall>codec mh. codec \<in> {cid_Raw, cid_DagProtobuf} \<longrightarrow>
        cid_Decode L (cid_String L (NewCidV1 codec mh)) = Inr (NewCidV1 codec mh))"

text \<open>Decoding gives CIDs of version 0 or 1 only; a version 0 CID is a dag-pb one.\<close>

definition cid_versions :: "libs \<Rightarrow> bool" where
  "cid_versions L \<longleftrightarrow>
     (\<forall>x c. cid_Decode L x = Inr c \<longrightarrow>
        cid_Version c = 1 \<or> cid_Version c = 0 \<and> cid_Codec c = cid_DagProtobuf)"

text \<open>The text of a CID is multibase base32 or base58 and has no slash.\<close>

definition cid_plain :: "libs \<Rightarrow> bool" where
  "cid_plain L \<longleftrightarrow> (\<forall>c. CHR ''/'' \<notin> set (cid_String L c))"

text \<open>
  What is marshalled unmarshals to the same message. A \<open>nil\<close> in a repeated field is written as an
  empty message, so there must be none.
\<close>

definition proto_roundtrip :: "libs \<Rightarrow> bool" where
  "proto_roundtrip L \<longleftrightarrow>
     (\<forall>v b. Marshal_VirtualService L (Some v) = Inr b \<longrightarrow> Unmarshal_VirtualService L b = Inr v) \<and>
     (\<forall>a b. None \<notin> set (pa_Exchanges a) \<longrightarrow> Marshal_ProviderAdvertise L (Some a) = Inr b \<longrightarrow> Unmarshal_ProviderAdvertise L b = Inr a)"

text \<open>\<open>AsDuration\<close> of a duration that fits is its number of nanoseconds; of \<open>nil\<close> it is zero.\<close>

definition duration_exact :: "libs \<Rightarrow> bool" where
  "duration_exact L \<longleftrightarrow>
     AsDuration L None = 0 \<and>
     (\<forall>d. in_int64 (d_Seconds d * Second + d_Nanos d) \<longrightarrow>
        AsDuration L (Some d) = d_Seconds d * Second + d_Nanos d)"

end
