(* ===== verification/Demo_Libs.thy ===== *)
theory Demo_Libs
  imports Libs
begin

section \<open>A concrete instance of the third-party functions\<close>

text \<open>
  Functions that meet the named hypotheses on the third-party packages, for the witnesses: base58
  is printed in hexadecimal letters, multihash encodes as the identity, a CID is printed as a letter
  for its codec followed by the letters of its multihash, and the protobuf codec knows four messages. None of it models code of the repository.
\<close>

definition demo_link :: "string \<Rightarrow> GlobalLink" where
  "demo_link n = \<lparr>gl_Name = n, gl_Maintainer = ''did:example:foo'', gl_Version = ''v0.1.0'',
     gl_DisplayName = '''', gl_Description = '''', gl_Signature = ''''\<rparr>"

definition demo_vsvc :: "string \<Rightarrow> VirtualService" where
  "demo_vsvc rt = \<lparr>vs_BehaviorLink = Some (demo_link ''serve_all''), vs_VariantLink = Some (demo_link rt)\<rparr>"

definition demo_ad :: "string \<Rightarrow> string list \<Rightarrow> ProviderAdvertise" where
  "demo_ad rt cids = \<lparr>pa_ProviderInstance = Some \<lparr>in_Did = ''did:example:p'', in_PeerId = '''', in_Multiaddrs = []\<rparr>,
     pa_VirtualService = Some (demo_vsvc rt), pa_Cids = cids, pa_Price = 1, pa_CoinType = 1,
     pa_CoinEnvironment = 4, pa_Exchanges = [], pa_ExpireTime = None, pa_UpdateTime = None,
     pa_Signature = '''', pa_PricingDetails = ''''\<rparr>"

definition nibble :: "nat \<Rightarrow> char" where
  "nibble n = char_of (97 + n)"

fun hex :: "bytes \<Rightarrow> string" where
  "hex [] = []"
| "hex (c # cs) = nibble (of_char c div 16) # nibble (of_char c mod 16) # hex cs"

fun unhex :: "string \<Rightarrow> bytes" where
  "unhex (a # b # cs) = char_of (((of_char a :: nat) - 97) * 16 + ((of_char b :: nat) - 97)) # unhex cs"
| "unhex _ = []"

lemma of_char_nibble [simp]: "n < 16 \<Longrightarrow> (of_char (nibble n) :: nat) = 97 + n"
  by (simp add: nibble_def)

lemma unhex_hex [simp]: "unhex (hex s) = s"
proof (induction s)
  case Nil
  then show ?case by simp
next
  case (Cons c cs)
  have "(of_char c :: nat) < 256" by (rule nat_of_char_less_256)
  then have "(of_char c :: nat) div 16 < 16" by (intro less_mult_imp_div_less) simp
  with Cons show ?case by simp
qed

lemma hex_letters: "x \<in> set (hex s) \<Longrightarrow> 97 \<le> (of_char x :: nat)"
proof (induction s)
  case Nil
  then show ?case by simp
next
  case (Cons c cs)
  have "(of_char c :: nat) < 256" by (rule nat_of_char_less_256)
  then have "(of_char c :: nat) div 16 < 16" by (intro less_mult_imp_div_less) simp
  with Cons show ?case by auto
qed

definition demo_cid_Decode :: "string \<Rightarrow> go_error + cid" where
  "demo_cid_Decode x =
     (case x of
        [] \<Rightarrow> Inl (LibErr ''cid too short'')
      | c # h \<Rightarrow> if c = CHR ''r'' then Inr (NewCidV1 cid_Raw (unhex h))
                 else if c = CHR ''p'' then Inr (NewCidV1 cid_DagProtobuf (unhex h))
                 else Inl (LibErr ''unknown codec''))"

definition demo_cid_String :: "cid \<Rightarrow> string" where
  "demo_cid_String c = (if cid_Codec c = cid_Raw then CHR ''r'' else CHR ''p'') # hex (cid_Hash c)"

definition demo_Root :: "bytes list \<Rightarrow> go_error + bytes" where
  "demo_Root ds = (if ds = [] then Inl (LibErr ''tree must have at least 1 piece of data'') else Inr (concat ds))"

definition demo_A :: ProviderAdvertise where "demo_A = demo_ad ''raa'' [''raa'']"
definition demo_B :: ProviderAdvertise where "demo_B = demo_ad ''rab'' [''rab'']"

definition demo_Marshal_GL :: "GlobalLink option \<Rightarrow> go_error + bytes" where
  "demo_Marshal_GL x =
     Inr (case x of None \<Rightarrow> '''' | Some l \<Rightarrow> gl_Name l @ '' '' @ gl_Maintainer l @ '' '' @ gl_Version l)"

definition demo_Marshal_VS :: "VirtualService option \<Rightarrow> go_error + bytes" where
  "demo_Marshal_VS x =
     (if x = Some (demo_vsvc ''raa'') then Inr ''va''
      else if x = Some (demo_vsvc ''rab'') then Inr ''vb'' else Inl (LibErr ''marshal''))"

definition demo_Unmarshal_VS :: "bytes \<Rightarrow> go_error + VirtualService" where
  "demo_Unmarshal_VS b =
     (if b = ''va'' then Inr (demo_vsvc ''raa'')
      else if b = ''vb'' then Inr (demo_vsvc ''rab'') else Inl (LibErr ''unmarshal''))"

definition demo_Marshal_PA :: "ProviderAdvertise option \<Rightarrow> go_error + bytes" where
  "demo_Marshal_PA x =
     (if x = Some demo_A then Inr ''aa'' else if x = Some demo_B then Inr ''ab'' else Inl (LibErr ''marshal''))"

definition demo_Unmarshal_PA :: "bytes \<Rightarrow> go_error + ProviderAdvertise" where
  "demo_Unmarshal_PA b =
     (if b = ''aa'' then Inr demo_A else if b = ''ab'' then Inr demo_B else Inl (LibErr ''unmarshal''))"

definition demo_libs :: libs where
  "demo_libs = \<lparr>base58_Encode = hex, base58_Decode = (\<lambda>x. Inr (unhex x)), multihash_Encode = (\<lambda>b c. Inr b),
     multihash_B58String = hex, cid_Decode = demo_cid_Decode, cid_String = demo_cid_String,
     cid_Bytes = cid_Hash, merkledag_DecodeProtobuf = (\<lambda>b. Inr (NewCidV1 cid_DagProtobuf (sha256 b))),
     merkletree_Root = demo_Root,
     AsDuration = (\<lambda>d. case d of None \<Rightarrow> 0 | Some x \<Rightarrow> d_Seconds x * Second + d_Nanos x),
     durationpb_New = (\<lambda>n. \<lparr>d_Seconds = n div Second, d_Nanos = n mod Second\<rparr>),
     Marshal_GlobalLink = demo_Marshal_GL, Marshal_VirtualService = demo_Marshal_VS,
     Marshal_ProviderAdvertise = demo_Marshal_PA, Unmarshal_VirtualService = demo_Unmarshal_VS,
     Unmarshal_ProviderAdvertise = demo_Unmarshal_PA\<rparr>"

lemma demo_cid_roundtrip: "cid_roundtrip demo_libs"
  by (auto simp: cid_roundtrip_def demo_libs_def demo_cid_String_def demo_cid_Decode_def NewCidV1_def
      cid_Raw_def cid_DagProtobuf_def)

lemma demo_ads_neq: "demo_A \<noteq> demo_B" "demo_B \<noteq> demo_A"
  by (simp_all add: demo_A_def demo_B_def demo_ad_def)

lemma demo_vsvc_inj [simp]: "demo_vsvc a = demo_vsvc b \<longleftrightarrow> a = b"
  by (simp add: demo_vsvc_def demo_link_def)

lemma demo_proto_roundtrip: "proto_roundtrip demo_libs"
  by (auto simp: proto_roundtrip_def demo_libs_def demo_Marshal_VS_def demo_Unmarshal_VS_def
      demo_Marshal_PA_def demo_Unmarshal_PA_def split: if_splits)

lemma demo_duration_exact: "duration_exact demo_libs"
  by (simp add: duration_exact_def demo_libs_def)

lemma demo_cid_plain: "cid_plain demo_libs"
  using hex_letters [of "CHR ''/''"] by (auto simp: cid_plain_def demo_libs_def demo_cid_String_def)

end
