(* ===== verification/Resource_Name.thy ===== *)
theory Resource_Name
  imports Go_Std
begin

section \<open>Resource names (\<open>pkg/middleware/utils.go\<close>)\<close>

text \<open>
  \<open>parseResourceName\<close> compiles the regular expression
  \<open>p1/(C+)/p2/(C+)/.../pn/(C+)\<close> with \<open>C = [0-9a-zA-Z\-@\.]\<close> and searches the name for it. The
  model keeps the expression as a list of tokens and matches it as Go's \<open>regexp\<close> documents:
  the leftmost match, not anchored, and of the matches there the one a backtracking search with
  greedy repetition finds first. The field names the callers pass are letters only, so they are
  literals of the expression.
\<close>

subsection \<open>The regular expression\<close>

datatype re_tok = Lit string | Cap

definition id_char :: "char \<Rightarrow> bool" where
  "id_char c \<longleftrightarrow>
     (let n = (of_char c :: nat) in
        (48 \<le> n \<and> n \<le> 57) \<or> (97 \<le> n \<and> n \<le> 122) \<or> (65 \<le> n \<and> n \<le> 90)
        \<or> c = CHR ''-'' \<or> c = CHR ''@'' \<or> c = CHR ''.'')"

fun first_some :: "'a option list \<Rightarrow> 'a option" where
  "first_some [] = None"
| "first_some (Some x # _) = Some x"
| "first_some (None # xs) = first_some xs"

text \<open>Match at the start of the string; the result is the list of captured groups.\<close>

primrec re_match :: "re_tok list \<Rightarrow> string \<Rightarrow> string list option" where
  "re_match [] s = Some []"
| "re_match (t # ts) s =
     (case t of
        Lit l \<Rightarrow> if HasPrefix s l then re_match ts (drop (length l) s) else None
      | Cap \<Rightarrow>
          first_some (map (\<lambda>n. map_option ((#) (take n s)) (re_match ts (drop n s)))
                          (rev [1 ..< Suc (length (takeWhile id_char s))])))"

fun re_search :: "re_tok list \<Rightarrow> string \<Rightarrow> string list option" where
  "re_search ts s =
     (case re_match ts s of
        Some caps \<Rightarrow> Some caps
      | None \<Rightarrow> (case s of [] \<Rightarrow> None | _ # s' \<Rightarrow> re_search ts s'))"

declare re_search.simps [simp del]

text \<open>\<open>strings.Join(prefixes, "/(C+)/") + "/(C+)"\<close>\<close>

fun join_pattern :: "string list \<Rightarrow> re_tok list" where
  "join_pattern [] = []"
| "join_pattern [p] = [Lit p]"
| "join_pattern (p # q # ps) = Lit p # Lit ''/'' # Cap # Lit ''/'' # join_pattern (q # ps)"

definition resource_pattern :: "string list \<Rightarrow> re_tok list" where
  "resource_pattern prefixes = join_pattern prefixes @ [Lit ''/'', Cap]"

definition parseResourceName :: "string \<Rightarrow> string list \<Rightarrow> go_error + string list" where
  "parseResourceName name prefixes =
     (case re_search (resource_pattern prefixes) name of
        Some caps \<Rightarrow>
          if Suc (length caps) = length prefixes + 1 then Inr caps
          else Inl (Errorf ''resource name %s not matching pattern %s'')
      | None \<Rightarrow> Inl (Errorf ''resource name %s not matching pattern %s''))"

definition ParseResourceName :: "string \<Rightarrow> string list \<Rightarrow> go_error + string list" where
  "ParseResourceName name fields =
     (case parseResourceName name fields of
        Inl e \<Rightarrow> Inl (Errorf ''cannot parse resource name: %v'')
      | Inr idSegments \<Rightarrow>
          if length idSegments \<noteq> length fields then Inl (Errorf ''cannot parse resource name: %v'')
          else if [] \<in> set idSegments then Inl (Errorf ''field %s is empty'')
          else Inr idSegments)"

subsection \<open>\<open>TokenFromMD\<close>\<close>

text \<open>The metadata values of the header field are what \<open>metadata.ValueFromIncomingContext\<close> gives.\<close>

definition TokenFromMD :: "string list \<Rightarrow> go_error + string" where
  "TokenFromMD vals =
     (case vals of
        [] \<Rightarrow> Inl (Status Unauthenticated ''Request unauthenticated with bearer'')
      | v # _ \<Rightarrow>
          (case Cut v CHR '' '' of
             (scheme, token, found) \<Rightarrow>
               if \<not> found then Inl (Status Unauthenticated ''Bad authorization string'')
               else if \<not> EqualFold scheme ''bearer''
                 then Inl (Status Unauthenticated ''Request unauthenticated with bearer'')
               else Inr token))"

subsection \<open>The shape of a resource name\<close>

text \<open>The canonical name with the given fields and identifiers.\<close>

fun format_name :: "string list \<Rightarrow> string list \<Rightarrow> string" where
  "format_name [p] [i] = p @ ''/'' @ i"
| "format_name (p # ps) (i # is) = p @ ''/'' @ i @ ''/'' @ format_name ps is"
| "format_name _ _ = ''''"

definition valid_id :: "string \<Rightarrow> bool" where
  "valid_id i \<longleftrightarrow> i \<noteq> [] \<and> list_all id_char i"

lemma not_id_char_slash [simp]: "\<not> id_char (CHR ''/'')"
  by (simp add: id_char_def)

lemma not_id_char_colon [simp]: "\<not> id_char (CHR '':'')"
  by (simp add: id_char_def)

lemma valid_id_no_slash: "valid_id i \<Longrightarrow> CHR ''/'' \<notin> set i"
  by (auto simp: valid_id_def list_all_iff)

lemma first_some_map_Some:
  "first_some (map f xs) = Some y \<Longrightarrow> \<exists>x \<in> set xs. f x = Some y"
proof (induction xs)
  case Nil
  then show ?case by simp
next
  case (Cons x xs)
  then show ?case by (cases "f x") auto
qed

lemma re_match_Lit:
  "re_match (Lit l # ts) s = (if HasPrefix s l then re_match ts (drop (length l) s) else None)"
  by simp

lemma re_match_Cap:
  "re_match (Cap # ts) s =
     first_some (map (\<lambda>n. map_option ((#) (take n s)) (re_match ts (drop n s)))
                     (rev [1 ..< Suc (length (takeWhile id_char s))]))"
  by simp

declare re_match.simps(2) [simp del]
declare re_match_Lit [simp]

lemma re_match_Cap_cases:
  assumes "re_match (Cap # ts) s = Some caps"
  obtains c cs where "caps = c # cs" and "valid_id c" and "\<exists>rest. s = c @ rest \<and> re_match ts rest = Some cs"
proof -
  let ?w = "takeWhile id_char s"
  obtain n where n: "n \<in> set (rev [1 ..< Suc (length ?w)])"
    and m: "map_option ((#) (take n s)) (re_match ts (drop n s)) = Some caps"
    using first_some_map_Some [OF assms [unfolded re_match_Cap]] by blast
  have n1: "1 \<le> n" "n \<le> length ?w" using n by auto
  have tk: "take n s = take n ?w"
    by (metis append_Nil2 diff_is_0_eq' n1(2) take0 take_append takeWhile_dropWhile_id)
  have "\<forall>x \<in> set ?w. id_char x" by (auto dest: set_takeWhileD)
  then have all: "list_all id_char (take n s)"
    unfolding tk list_all_iff using in_set_takeD by fast
  have "take n s \<noteq> []" using n1 tk by (cases ?w) auto
  with all have v: "valid_id (take n s)" by (simp add: valid_id_def)
  from m obtain cs where cs: "caps = take n s # cs" "re_match ts (drop n s) = Some cs"
    by auto
  show ?thesis
    by (rule that [OF cs(1) v]) (metis append_take_drop_id cs(2))
qed

text \<open>A greedy capture followed by a byte outside its class takes the whole identifier.\<close>

lemma re_match_Cap_greedy:
  assumes "valid_id i" and "rest = [] \<or> \<not> id_char (hd rest)" and "re_match ts rest = Some cs"
  shows "re_match (Cap # ts) (i @ rest) = Some (i # cs)"
proof -
  have w: "takeWhile id_char (i @ rest) = i"
    using assms(1,2) by (cases rest) (auto simp: valid_id_def list_all_iff takeWhile_tail)
  obtain k where k: "length i = Suc k"
    using assms(1) by (cases i) (auto simp: valid_id_def)
  have "rev [1 ..< Suc (length i)] = length i # rev [1 ..< length i]" using k by simp
  then show ?thesis using assms(3) by (simp add: re_match_Cap w)
qed

text \<open>Whatever the expression matches is a canonical name.\<close>

lemma re_match_pattern_sound:
  assumes "re_match (join_pattern ps @ [Lit ''/'', Cap]) s = Some caps" and "ps \<noteq> []"
  shows "\<exists>post. s = format_name ps caps @ post \<and> length caps = length ps \<and> list_all valid_id caps"
  using assms
proof (induction ps arbitrary: s caps rule: join_pattern.induct)
  case 1
  then show ?case by simp
next
  case (2 p)
  from "2.prems" have p: "HasPrefix s p" and s1: "HasPrefix (drop (length p) s) ''/''"
    and m: "re_match [Cap] (drop (Suc (length p)) s) = Some caps"
    by (auto split: if_splits simp: drop_drop)
  from m obtain c where c: "caps = [c]" "valid_id c" "\<exists>rest. drop (Suc (length p)) s = c @ rest"
    by (rule re_match_Cap_cases) auto
  then obtain rest where r: "drop (Suc (length p)) s = c @ rest" by blast
  from p s1 obtain t where t: "s = p @ ''/'' @ t"
    by (auto simp: HasPrefix_iff)
  with r c show ?case by auto
next
  case (3 p q ps)
  from "3.prems" have p: "HasPrefix s p" and s1: "HasPrefix (drop (length p) s) ''/''"
    and m: "re_match (Cap # Lit ''/'' # join_pattern (q # ps) @ [Lit ''/'', Cap])
              (drop (Suc (length p)) s) = Some caps"
    by (auto split: if_splits simp: drop_drop)
  from p s1 obtain t where t: "s = p @ ''/'' @ t"
    by (auto simp: HasPrefix_iff)
  from m obtain c cs rest where c: "caps = c # cs" "valid_id c" "drop (Suc (length p)) s = c @ rest"
    and m2: "re_match (Lit ''/'' # join_pattern (q # ps) @ [Lit ''/'', Cap]) rest = Some cs"
    by (rule re_match_Cap_cases) auto
  from m2 have "HasPrefix rest ''/''"
    and m3: "re_match (join_pattern (q # ps) @ [Lit ''/'', Cap]) (drop 1 rest) = Some cs"
    by (auto split: if_splits)
  then obtain rest' where rest': "rest = ''/'' @ rest'" by (auto simp: HasPrefix_iff)
  with "3.IH" [of "drop 1 rest" cs] m3 obtain post where
    post: "rest' = format_name (q # ps) cs @ post" "length cs = length (q # ps)" "list_all valid_id cs"
    by auto
  moreover from post(2) obtain c2 cs2 where "cs = c2 # cs2" by (cases cs) auto
  ultimately show ?case using c t rest' by auto
qed

text \<open>And it matches every canonical name, with the identifiers as the captured groups.\<close>

lemma re_match_pattern_complete:
  assumes "length is = length ps" and "list_all valid_id is" and "ps \<noteq> []"
  shows "re_match (join_pattern ps @ [Lit ''/'', Cap]) (format_name ps is) = Some is"
  using assms
proof (induction ps arbitrary: "is" rule: join_pattern.induct)
  case 1
  then show ?case by simp
next
  case (2 p)
  then obtain i where i: "is = [i]" "valid_id i" by (cases "is") auto
  have "re_match [Cap] (i @ []) = Some [i]"
    using i by (intro re_match_Cap_greedy) auto
  with i show ?case by simp
next
  case (3 p q ps)
  then obtain i is' where i: "is = i # is'" "valid_id i" "length is' = length (q # ps)" "list_all valid_id is'"
    by (cases "is") auto
  then obtain i2 is2 where i2: "is' = i2 # is2" by (cases is') auto
  have "re_match (Lit ''/'' # join_pattern (q # ps) @ [Lit ''/'', Cap]) (''/'' @ format_name (q # ps) is') = Some is'"
    using "3.IH" [of is'] i by simp
  then have "re_match (Cap # Lit ''/'' # join_pattern (q # ps) @ [Lit ''/'', Cap])
        (i @ ''/'' @ format_name (q # ps) is') = Some (i # is')"
    using i by (intro re_match_Cap_greedy) auto
  with i i2 show ?case by simp
qed

lemma re_search_sound: "re_search ts s = Some caps \<Longrightarrow> \<exists>pre t. s = pre @ t \<and> re_match ts t = Some caps"
proof (induction s)
  case Nil
  then show ?case by (subst (asm) re_search.simps) (auto split: option.splits)
next
  case (Cons x xs)
  show ?case
  proof (cases "re_match ts (x # xs)")
    case None
    with Cons.prems have "re_search ts xs = Some caps" by (subst (asm) re_search.simps) simp
    with Cons.IH obtain pre t where "xs = pre @ t" "re_match ts t = Some caps" by blast
    then have "x # xs = (x # pre) @ t" "re_match ts t = Some caps" by simp_all
    then show ?thesis by blast
  next
    case (Some c)
    with Cons.prems have "c = caps" by (subst (asm) re_search.simps) simp
    with Some show ?thesis by (intro exI [of _ "[]"] exI [of _ "x # xs"]) simp
  qed
qed

lemma re_search_here: "re_match ts s = Some caps \<Longrightarrow> re_search ts s = Some caps"
  by (subst re_search.simps) simp

subsection \<open>What \<open>ParseResourceName\<close> promises\<close>

lemma ParseResourceName_canonical:
  "length is = length fields \<Longrightarrow> list_all valid_id is \<Longrightarrow> fields \<noteq> [] \<Longrightarrow>
     ParseResourceName (format_name fields is) fields = Inr is"
  using re_search_here [OF re_match_pattern_complete]
  by (auto simp: ParseResourceName_def parseResourceName_def resource_pattern_def list_all_iff valid_id_def)

lemma ParseResourceName_InrD:
  assumes "ParseResourceName name fields = Inr is" and "fields \<noteq> []"
  shows "\<exists>pre post. name = pre @ format_name fields is @ post \<and> length is = length fields
           \<and> list_all valid_id is"
proof -
  from assms(1) have "re_search (resource_pattern fields) name = Some is"
    by (auto simp: ParseResourceName_def parseResourceName_def split: option.splits sum.splits if_splits)
  then obtain pre t where "name = pre @ t" "re_match (join_pattern fields @ [Lit ''/'', Cap]) t = Some is"
    unfolding resource_pattern_def by (blast dest: re_search_sound)
  with re_match_pattern_sound [OF this(2) assms(2)] show ?thesis by auto
qed

end
