(* ===== verification/Auth.thy ===== *)
theory Auth
  imports Libs Resource_Name
begin

section \<open>Tokens (\<open>pkg/middleware/auth.go\<close>, the claims of \<open>session.go\<close>, \<open>ParseHeaderJwt\<close>)\<close>

text \<open>
  The JWT library \<open>golang-jwt\<close> is a parameter: \<open>ParseWithClaims\<close> takes the token's text, a value
  of the claims type to fill, the key function, whether claims are validated, and the time; it
  returns the token, an error, or panics when the key function does. \<open>SignedString\<close> signs,
  \<open>NewNumericDate\<close> makes the date of a claim from a time.

  The claims types embed each other by pointer, so an embedded part can be \<open>nil\<close>: a method that
  \<open>RegisteredClaims\<close> provides, called on claims whose embedded pointer is \<open>nil\<close>, is a nil
  dereference. Times are nanoseconds since the epoch.
\<close>

subsection \<open>Claims and tokens\<close>

record RegisteredClaims =
  rc_Issuer :: string
  rc_Subject :: string
  rc_Audience :: "string list"
  rc_ExpiresAt :: "int option"
  rc_NotBefore :: "int option"
  rc_IssuedAt :: "int option"
  rc_ID :: string

record SessionJwtClaims =
  sj_RegisteredClaims :: "RegisteredClaims option"
  sj_Usage :: int

record CreateSessionJwtClaims =
  cj_SessionJwtClaims :: "SessionJwtClaims option"
  cj_Quantity :: int

datatype jwt_claims =
    Registered RegisteredClaims
  | SessionClaims SessionJwtClaims
  | CreateSessionClaims CreateSessionJwtClaims

definition empty_registered :: RegisteredClaims where
  "empty_registered = \<lparr>rc_Issuer = '''', rc_Subject = '''', rc_Audience = [], rc_ExpiresAt = None,
     rc_NotBefore = None, rc_IssuedAt = None, rc_ID = ''''\<rparr>"

definition empty_session_claims :: SessionJwtClaims where
  "empty_session_claims = \<lparr>sj_RegisteredClaims = None, sj_Usage = 0\<rparr>"

definition empty_create_claims :: CreateSessionJwtClaims where
  "empty_create_claims = \<lparr>cj_SessionJwtClaims = None, cj_Quantity = 0\<rparr>"

datatype jwt_method = SigningMethodHMAC string | SigningMethodEd25519 | OtherMethod string

datatype jwt_key = Secret bytes | PublicKey bytes | PrivateKey bytes

record jwt_token =
  tk_Method :: jwt_method
  tk_Kid :: "string option"
  tk_Claims :: jwt_claims

text \<open>The registered claims a claims value reaches through its embedded pointers.\<close>

fun registered_of :: "jwt_claims \<Rightarrow> RegisteredClaims option" where
  "registered_of (Registered r) = Some r"
| "registered_of (SessionClaims c) = sj_RegisteredClaims c"
| "registered_of (CreateSessionClaims c) =
     (case cj_SessionJwtClaims c of None \<Rightarrow> None | Some sc \<Rightarrow> sj_RegisteredClaims sc)"

definition nil_deref :: string where
  "nil_deref = ''invalid memory address or nil pointer dereference''"

definition GetIssuer :: "jwt_claims \<Rightarrow> string result" where
  "GetIssuer c = (case registered_of c of None \<Rightarrow> Panic nil_deref | Some r \<Rightarrow> Ok (rc_Issuer r))"

definition GetSubject :: "jwt_claims \<Rightarrow> string result" where
  "GetSubject c = (case registered_of c of None \<Rightarrow> Panic nil_deref | Some r \<Rightarrow> Ok (rc_Subject r))"

definition GetExpirationTime :: "jwt_claims \<Rightarrow> int option result" where
  "GetExpirationTime c = (case registered_of c of None \<Rightarrow> Panic nil_deref | Some r \<Rightarrow> Ok (rc_ExpiresAt r))"

record jwt_lib =
  ParseWithClaims :: "string \<Rightarrow> jwt_claims \<Rightarrow> (jwt_token \<Rightarrow> jwt_key result) \<Rightarrow> bool \<Rightarrow> int \<Rightarrow> jwt_token result"
  SignedString :: "jwt_token \<Rightarrow> jwt_key \<Rightarrow> go_error + string"
  NewNumericDate :: "int \<Rightarrow> int"

subsection \<open>\<open>StaticAuthManager\<close>\<close>

record StaticAuthManager =
  am_jwtSecret :: bytes
  am_trustedIssuers :: "string \<rightharpoonup> bytes"
  am_selfIdentifier :: string

definition NewStaticAuthManager :: "bytes \<Rightarrow> (string \<rightharpoonup> bytes) \<Rightarrow> string \<Rightarrow> StaticAuthManager" where
  "NewStaticAuthManager jwtSecret trustedIssuers selfIdentifier =
     \<lparr>am_jwtSecret = jwtSecret, am_trustedIssuers = trustedIssuers, am_selfIdentifier = selfIdentifier\<rparr>"

definition selfKeyFunc :: "StaticAuthManager \<Rightarrow> jwt_token \<Rightarrow> jwt_key result" where
  "selfKeyFunc a token =
     (case tk_Method token of
        SigningMethodHMAC name \<Rightarrow>
          if name \<noteq> ''HS256'' then Err (Status Unauthenticated ''invalid signing method %s'')
          else Ok (Secret (am_jwtSecret a))
      | _ \<Rightarrow> Err (Status Unauthenticated ''invalid signing method %s''))"

definition exchangeKeyFunc :: "StaticAuthManager \<Rightarrow> jwt_token \<Rightarrow> jwt_key result" where
  "exchangeKeyFunc a token =
     (case tk_Method token of
        SigningMethodEd25519 \<Rightarrow>
          (case GetIssuer (tk_Claims token) of
             Panic m \<Rightarrow> Panic m
           | Err e \<Rightarrow> Err (Status Unauthenticated ''failed to get issuer %s'')
           | Ok issuer \<Rightarrow>
               (case am_trustedIssuers a issuer of
                  None \<Rightarrow> Err (Status PermissionDenied ''unexpected issuer %s'')
                | Some publicKey \<Rightarrow> Ok (PublicKey publicKey)))
      | _ \<Rightarrow> Err (Status Unauthenticated ''invalid signing method %s''))"

definition VerifyAndParseJwt ::
    "jwt_lib \<Rightarrow> StaticAuthManager \<Rightarrow> string \<Rightarrow> jwt_claims \<Rightarrow> bool \<Rightarrow> int \<Rightarrow> jwt_claims result" where
  "VerifyAndParseJwt J a jwtString claims isSelf now =
     (let keyFunc = (if isSelf then selfKeyFunc a else exchangeKeyFunc a)
      in case ParseWithClaims J jwtString claims keyFunc True now of
           Panic m \<Rightarrow> Panic m
         | Err e \<Rightarrow> Err (Status PermissionDenied ''jwt validation failed: %s'')
         | Ok token \<Rightarrow> Ok (tk_Claims token))"

subsection \<open>\<open>ParseHeaderJwt\<close> (\<open>utils.go\<close>)\<close>

definition headerKeyFunc :: "jwt_key \<Rightarrow> jwt_token \<Rightarrow> jwt_key result" where
  "headerKeyFunc witness token =
     (case tk_Method token of
        SigningMethodEd25519 \<Rightarrow> Ok witness
      | SigningMethodHMAC _ \<Rightarrow> Ok witness
      | _ \<Rightarrow> Err (Status Unauthenticated ''invalid signing method %s''))"

definition ParseHeaderJwt ::
    "jwt_lib \<Rightarrow> string list \<Rightarrow> jwt_claims \<Rightarrow> jwt_key \<Rightarrow> bool \<Rightarrow> int \<Rightarrow> jwt_claims result" where
  "ParseHeaderJwt J vals claims witness withValidation now =
     (case TokenFromMD vals of
        Inl e \<Rightarrow> Err (Status Unauthenticated ''invalid bearer token: %v'')
      | Inr tokenString \<Rightarrow>
          (case ParseWithClaims J tokenString claims (headerKeyFunc witness) withValidation now of
             Panic m \<Rightarrow> Panic m
           | Err e \<Rightarrow> Err (Status Unauthenticated ''invalid token of %s: %v'')
           | Ok token \<Rightarrow> Ok (tk_Claims token)))"

subsection \<open>What is relied on of the JWT library\<close>

fun same_kind :: "jwt_claims \<Rightarrow> jwt_claims \<Rightarrow> bool" where
  "same_kind (Registered _) (Registered _) = True"
| "same_kind (SessionClaims _) (SessionClaims _) = True"
| "same_kind (CreateSessionClaims _) (CreateSessionClaims _) = True"
| "same_kind _ _ = False"

text \<open>The dates of the registered claims that are present hold at \<open>now\<close>.\<close>

definition dates_valid :: "RegisteredClaims \<Rightarrow> int \<Rightarrow> bool" where
  "dates_valid r now \<longleftrightarrow>
     (\<forall>e. rc_ExpiresAt r = Some e \<longrightarrow> now < e) \<and> (\<forall>n. rc_NotBefore r = Some n \<longrightarrow> n \<le> now)"

text \<open>
  \<open>decode s c\<close> is what the text says, read into claims of the type of \<open>c\<close>; \<open>verifies m k s\<close> says
  that the signature of \<open>s\<close> verifies under method \<open>m\<close> and key \<open>k\<close>. The library returns a token
  only if the key function gave a key for it, the signature verifies with that key and the dates
  hold; it returns it whenever that is so; and a panic of the key function is not caught.
\<close>

type_synonym jwt_decoder = "string \<Rightarrow> jwt_claims \<Rightarrow> jwt_token option"
type_synonym jwt_verifier = "jwt_method \<Rightarrow> jwt_key \<Rightarrow> string \<Rightarrow> bool"

definition jwt_sound :: "jwt_lib \<Rightarrow> jwt_decoder \<Rightarrow> jwt_verifier \<Rightarrow> bool" where
  "jwt_sound J decode verifies \<longleftrightarrow>
     (\<forall>s c kf v now t. ParseWithClaims J s c kf v now = Ok t \<longrightarrow>
        decode s c = Some t \<and> (\<exists>k. kf t = Ok k \<and> verifies (tk_Method t) k s) \<and>
        (v \<longrightarrow> (\<exists>r. registered_of (tk_Claims t) = Some r \<and> dates_valid r now)))"

definition jwt_complete :: "jwt_lib \<Rightarrow> jwt_decoder \<Rightarrow> jwt_verifier \<Rightarrow> bool" where
  "jwt_complete J decode verifies \<longleftrightarrow>
     (\<forall>s c kf v now t k r. decode s c = Some t \<longrightarrow> kf t = Ok k \<longrightarrow> verifies (tk_Method t) k s \<longrightarrow>
        registered_of (tk_Claims t) = Some r \<longrightarrow> dates_valid r now \<longrightarrow>
        ParseWithClaims J s c kf v now = Ok t)"

definition jwt_panics :: "jwt_lib \<Rightarrow> jwt_decoder \<Rightarrow> bool" where
  "jwt_panics J decode \<longleftrightarrow>
     (\<forall>s c kf v now t m. decode s c = Some t \<longrightarrow> kf t = Panic m \<longrightarrow> ParseWithClaims J s c kf v now = Panic m)"

definition jwt_kinds :: "jwt_decoder \<Rightarrow> bool" where
  "jwt_kinds decode \<longleftrightarrow> (\<forall>s c t. decode s c = Some t \<longrightarrow> same_kind c (tk_Claims t))"

definition jwt_contract :: "jwt_lib \<Rightarrow> jwt_decoder \<Rightarrow> jwt_verifier \<Rightarrow> bool" where
  "jwt_contract J decode verifies \<longleftrightarrow>
     jwt_sound J decode verifies \<and> jwt_complete J decode verifies \<and> jwt_panics J decode \<and> jwt_kinds decode"

text \<open>A token signed with HS256 reads back as it was and verifies under the same secret.\<close>

definition jwt_signs :: "jwt_lib \<Rightarrow> jwt_decoder \<Rightarrow> jwt_verifier \<Rightarrow> bool" where
  "jwt_signs J decode verifies \<longleftrightarrow>
     (\<forall>t k s c. SignedString J t k = Inr s \<longrightarrow> tk_Method t = SigningMethodHMAC ''HS256'' \<longrightarrow> same_kind c (tk_Claims t) \<longrightarrow>
        decode s c = Some t \<and> verifies (SigningMethodHMAC ''HS256'') k s)"

text \<open>A quantity is read into a 64-bit field.\<close>

definition jwt_int64 :: "jwt_decoder \<Rightarrow> bool" where
  "jwt_int64 decode \<longleftrightarrow>
     (\<forall>s c t q. decode s c = Some t \<longrightarrow> tk_Claims t = CreateSessionClaims q \<longrightarrow> in_int64 (cj_Quantity q))"

lemma jwt_soundD:
  assumes "jwt_sound J decode verifies" and "ParseWithClaims J s c kf v now = Ok t"
  shows "decode s c = Some t" and "\<exists>k. kf t = Ok k \<and> verifies (tk_Method t) k s"
    and "v \<Longrightarrow> \<exists>r. registered_of (tk_Claims t) = Some r \<and> dates_valid r now"
  using assms(1) [unfolded jwt_sound_def, rule_format, OF assms(2)] by simp_all

lemma jwt_contract_Ok:
  assumes "jwt_contract J decode verifies" and "ParseWithClaims J s c kf v now = Ok t"
  shows "decode s c = Some t \<and> (\<exists>k. kf t = Ok k \<and> verifies (tk_Method t) k s) \<and> same_kind c (tk_Claims t)
    \<and> (v \<longrightarrow> (\<exists>r. registered_of (tk_Claims t) = Some r \<and> dates_valid r now))"
proof -
  from assms(1) have s: "jwt_sound J decode verifies" and k: "jwt_kinds decode"
    by (simp_all add: jwt_contract_def)
  note d = jwt_soundD [OF s assms(2)]
  from k d(1) have "same_kind c (tk_Claims t)" by (simp add: jwt_kinds_def)
  with d show ?thesis by simp
qed

lemma jwt_contract_accept:
  assumes "jwt_contract J decode verifies" and "decode s c = Some t" and "kf t = Ok k"
    and "verifies (tk_Method t) k s" and "registered_of (tk_Claims t) = Some r" and "dates_valid r now"
  shows "ParseWithClaims J s c kf v now = Ok t"
proof -
  from assms(1) have "jwt_complete J decode verifies" by (simp add: jwt_contract_def)
  from this [unfolded jwt_complete_def, rule_format, where kf = kf, OF assms(2-)] show ?thesis .
qed

lemma jwt_contract_panic:
  assumes "jwt_contract J decode verifies" and "decode s c = Some t" and "kf t = Panic m"
  shows "ParseWithClaims J s c kf v now = Panic m"
proof -
  from assms(1) have "jwt_panics J decode" by (simp add: jwt_contract_def)
  from this [unfolded jwt_panics_def, rule_format, where kf = kf, OF assms(2-)] show ?thesis .
qed

subsection \<open>Which tokens are accepted\<close>

lemma selfKeyFunc_Ok:
  "selfKeyFunc a t = Ok k \<longleftrightarrow> tk_Method t = SigningMethodHMAC ''HS256'' \<and> k = Secret (am_jwtSecret a)"
  by (auto simp: selfKeyFunc_def split: jwt_method.splits if_splits)

lemma selfKeyFunc_no_panic: "selfKeyFunc a t \<noteq> Panic m"
  by (simp add: selfKeyFunc_def split: jwt_method.splits)

lemma exchangeKeyFunc_Ok:
  "exchangeKeyFunc a t = Ok k \<longleftrightarrow>
     tk_Method t = SigningMethodEd25519 \<and>
     (\<exists>r pk. registered_of (tk_Claims t) = Some r \<and> am_trustedIssuers a (rc_Issuer r) = Some pk \<and> k = PublicKey pk)"
  by (auto simp: exchangeKeyFunc_def GetIssuer_def split: jwt_method.splits option.splits)

lemma exchangeKeyFunc_panic:
  "tk_Method t = SigningMethodEd25519 \<Longrightarrow> registered_of (tk_Claims t) = None \<Longrightarrow>
     exchangeKeyFunc a t = Panic nil_deref"
  by (simp add: exchangeKeyFunc_def GetIssuer_def)

lemma VerifyAndParseJwt_Ok:
  "VerifyAndParseJwt J a s c isSelf now = Ok cl \<longleftrightarrow>
     (\<exists>t. ParseWithClaims J s c (if isSelf then selfKeyFunc a else exchangeKeyFunc a) True now = Ok t
        \<and> tk_Claims t = cl)"
  by (auto simp: VerifyAndParseJwt_def Let_def split: result.splits)

lemma VerifyAndParseJwt_Err:
  "VerifyAndParseJwt J a s c isSelf now = Err e \<Longrightarrow> e = Status PermissionDenied ''jwt validation failed: %s''"
  by (auto simp: VerifyAndParseJwt_def Let_def split: result.splits)

text \<open>A token accepted as the service's own carries an HS256 signature under its secret.\<close>

lemma verify_self_sound:
  assumes "jwt_contract J decode verifies" and "VerifyAndParseJwt J a s c True now = Ok cl"
  shows "\<exists>t r. decode s c = Some t \<and> tk_Claims t = cl \<and> tk_Method t = SigningMethodHMAC ''HS256''
    \<and> verifies (SigningMethodHMAC ''HS256'') (Secret (am_jwtSecret a)) s
    \<and> registered_of cl = Some r \<and> dates_valid r now \<and> same_kind c cl"
proof -
  from assms(2) obtain t where p: "ParseWithClaims J s c (selfKeyFunc a) True now = Ok t" "tk_Claims t = cl"
    by (auto simp: VerifyAndParseJwt_Ok)
  from jwt_contract_Ok [OF assms(1) p(1)] p(2) show ?thesis
    by (auto simp: selfKeyFunc_Ok)
qed

text \<open>A token accepted from an exchange is EdDSA-signed under the key of a trusted issuer it names.\<close>

lemma verify_exchange_sound:
  assumes "jwt_contract J decode verifies" and "VerifyAndParseJwt J a s c False now = Ok cl"
  shows "\<exists>t r pk. decode s c = Some t \<and> tk_Claims t = cl \<and> tk_Method t = SigningMethodEd25519
    \<and> registered_of cl = Some r \<and> am_trustedIssuers a (rc_Issuer r) = Some pk
    \<and> verifies SigningMethodEd25519 (PublicKey pk) s \<and> dates_valid r now \<and> same_kind c cl"
proof -
  from assms(2) obtain t where p: "ParseWithClaims J s c (exchangeKeyFunc a) True now = Ok t" "tk_Claims t = cl"
    by (auto simp: VerifyAndParseJwt_Ok)
  from jwt_contract_Ok [OF assms(1) p(1)] p(2) show ?thesis
    by (auto simp: exchangeKeyFunc_Ok)
qed

text \<open>Accepting a well-signed own token.\<close>

lemma verify_self_accept:
  "jwt_contract J decode verifies \<Longrightarrow> decode s c = Some t \<Longrightarrow> tk_Method t = SigningMethodHMAC ''HS256'' \<Longrightarrow>
     verifies (SigningMethodHMAC ''HS256'') (Secret (am_jwtSecret a)) s \<Longrightarrow>
     registered_of (tk_Claims t) = Some r \<Longrightarrow> dates_valid r now \<Longrightarrow>
     VerifyAndParseJwt J a s c True now = Ok (tk_Claims t)"
  by (auto simp: VerifyAndParseJwt_Ok selfKeyFunc_Ok intro!: jwt_contract_accept)

text \<open>The name the service gives itself plays no part in the verdict.\<close>

lemma verify_ignores_selfIdentifier:
  "VerifyAndParseJwt J (a\<lparr>am_selfIdentifier := x\<rparr>) = VerifyAndParseJwt J a"
proof -
  have "selfKeyFunc (a\<lparr>am_selfIdentifier := x\<rparr>) = selfKeyFunc a"
    "exchangeKeyFunc (a\<lparr>am_selfIdentifier := x\<rparr>) = exchangeKeyFunc a"
    by (auto simp: selfKeyFunc_def exchangeKeyFunc_def fun_eq_iff
        split: jwt_method.splits result.splits option.splits)
  then show ?thesis by (intro ext) (simp add: VerifyAndParseJwt_def)
qed

end
