(* ===== verification/Session.thy ===== *)
theory Session
  imports Redis_Memory Demo_Libs Auth
begin

section \<open>Paid sessions (\<open>pkg/middleware/session.go\<close>)\<close>

text \<open>
  A session is a decimal balance under the key \<open>session:<id>\<close>, created with \<open>SET NX GET\<close> and
  charged with \<open>DECRBY\<close>. Its identifier is the base58 form of the hash of a per-process salt and
  the quota token's \<open>jti\<close>.
\<close>

subsection \<open>The code\<close>

record RedisSessionManager =
  sm_sessionSalt :: bytes

text \<open>The salt comes from \<open>crypto/rand\<close>, whose result is the argument; \<open>log.Fatal\<close> ends the process.\<close>

definition NewRedisSessionManager :: "(go_error + bytes) \<Rightarrow> RedisSessionManager result" where
  "NewRedisSessionManager randRead =
     (case randRead of
        Inl e \<Rightarrow> Panic ''failed to generate random sessionSalt''
      | Inr sessionSalt \<Rightarrow> Ok \<lparr>sm_sessionSalt = sessionSalt\<rparr>)"

definition session_key :: "string \<Rightarrow> string" where
  "session_key sessionId = ''session:'' @ sessionId"

definition hashToSessionId :: "libs \<Rightarrow> RedisSessionManager \<Rightarrow> string \<Rightarrow> string" where
  "hashToSessionId L m jti = base58_Encode L (sha256 (sm_sessionSalt m @ jti))"

text \<open>The parameter \<open>ttl\<close> is not used by the source either.\<close>

definition sm_CreateSession ::
    "libs \<Rightarrow> 'r redis_client \<Rightarrow> RedisSessionManager \<Rightarrow> string \<Rightarrow> int \<Rightarrow> int \<Rightarrow> 'r \<Rightarrow> Session result \<times> 'r" where
  "sm_CreateSession L R m jti balance ttl s =
     (let sessionId = hashToSessionId L m jti;
          session = \<lparr>se_SessionId = sessionId, se_Balance = balance\<rparr>;
          redisKey = session_key sessionId
      in case rSetNXGet R redisKey (itoa (se_Balance session)) s of
           (Inl e, s1) \<Rightarrow> if e = RedisNil then (Ok session, s1) else (Err e, s1)
         | (Inr res, s1) \<Rightarrow>
             (case res of
                AnyOther \<Rightarrow> (Panic ''interface conversion'', s1)
              | AnyString x \<Rightarrow>
                  (case Atoi x of
                     Inl _ \<Rightarrow> (Err (Errorf ''failed to parse balance: %s''), s1)
                   | Inr latestBalance \<Rightarrow>
                       (Ok \<lparr>se_SessionId = se_SessionId session, se_Balance = latestBalance\<rparr>, s1))))"

definition sm_DeductSessionBalance ::
    "'r redis_client \<Rightarrow> string \<Rightarrow> int \<Rightarrow> 'r \<Rightarrow> Session result \<times> 'r" where
  "sm_DeductSessionBalance R sessionId amount s =
     (if amount \<le> 0 then (Err (Errorf ''amount must be positive but got %d''), s)
      else case rDecrBy R (session_key sessionId) amount s of
             (Inl e, s1) \<Rightarrow>
               if e = RedisNil then (Err (Errorf ''session not found or expired''), s1) else (Err e, s1)
           | (Inr newBalance, s1) \<Rightarrow>
               if newBalance < 0 then (Err (Errorf ''insufficient balance: %d''), s1)
               else (Ok \<lparr>se_SessionId = sessionId, se_Balance = newBalance\<rparr>, s1))"

subsection \<open>The ledger: what the session store promises\<close>

text \<open>
  The abstract store is a map from session identifiers to balances. Creating a session that
  exists returns its balance and changes nothing. A charge is applied whether or not it leaves
  the balance negative, and is admitted only when it does not; a charge to an unknown session
  starts from zero. A charge that would leave the 64-bit range is refused and not applied.
\<close>

type_synonym ledger = "string \<rightharpoonup> int"

definition ledger_create :: "string \<Rightarrow> int \<Rightarrow> ledger \<Rightarrow> int \<times> ledger" where
  "ledger_create i q l = (case l i of None \<Rightarrow> (q, l(i \<mapsto> q)) | Some b \<Rightarrow> (b, l))"

definition ledger_left :: "string \<Rightarrow> int \<Rightarrow> ledger \<Rightarrow> int" where
  "ledger_left i a l = (case l i of None \<Rightarrow> - a | Some b \<Rightarrow> b - a)"

definition ledger_charge :: "string \<Rightarrow> int \<Rightarrow> ledger \<Rightarrow> bool \<times> ledger" where
  "ledger_charge i a l =
     (if a \<le> 0 \<or> \<not> in_int64 (ledger_left i a l) then (False, l)
      else (0 \<le> ledger_left i a l, l(i \<mapsto> ledger_left i a l)))"

datatype ledger_event = Create string int | Charge string int

fun ledger_step :: "ledger_event \<Rightarrow> ledger \<Rightarrow> ledger" where
  "ledger_step (Create i q) l = snd (ledger_create i q l)"
| "ledger_step (Charge i a) l = snd (ledger_charge i a l)"

text \<open>What a run admits for one session, and what it grants it.\<close>

fun admitted :: "string \<Rightarrow> ledger_event list \<Rightarrow> ledger \<Rightarrow> int" where
  "admitted i [] l = 0"
| "admitted i (Create j q # es) l = admitted i es (ledger_step (Create j q) l)"
| "admitted i (Charge j a # es) l =
     (if j = i \<and> fst (ledger_charge j a l) then a else 0) + admitted i es (ledger_step (Charge j a) l)"

fun granted :: "string \<Rightarrow> ledger_event list \<Rightarrow> ledger \<Rightarrow> int" where
  "granted i [] l = 0"
| "granted i (Create j q # es) l =
     (if j = i \<and> l j = None then q else 0) + granted i es (ledger_step (Create j q) l)"
| "granted i (Charge j a # es) l = granted i es (ledger_step (Charge j a) l)"

definition bal :: "ledger \<Rightarrow> string \<Rightarrow> int" where
  "bal l i = (case l i of None \<Rightarrow> 0 | Some b \<Rightarrow> b)"

lemma ledger_left_bal: "ledger_left i a l = bal l i - a"
  by (simp add: ledger_left_def bal_def split: option.splits)

lemma ledger_charge_admit:
  "fst (ledger_charge i a l) \<Longrightarrow> 0 < a \<and> a \<le> bal l i \<and> snd (ledger_charge i a l) = l(i \<mapsto> bal l i - a)"
  by (auto simp: ledger_charge_def ledger_left_bal split: if_splits)

lemma ledger_charge_bal: "bal (snd (ledger_charge j a l)) i \<le> bal l i"
  by (auto simp: ledger_charge_def ledger_left_bal) (auto simp: bal_def)

lemma ledger_create_bal:
  "bal (snd (ledger_create j q l)) i = bal l i + (if j = i \<and> l j = None then q else 0)"
  by (auto simp: ledger_create_def bal_def split: option.splits)

lemma admitted_append:
  "admitted i (es @ fs) l = admitted i es l + admitted i fs (foldl (\<lambda>l e. ledger_step e l) l es)"
  by (induction i es l rule: admitted.induct) simp_all

lemma admitted_nonneg: "0 \<le> admitted i es l"
proof (induction i es l rule: admitted.induct)
  case (3 i j a es l)
  have "fst (ledger_charge j a l) \<Longrightarrow> 0 < a" using ledger_charge_admit by blast
  with 3 have "0 \<le> (if j = i \<and> fst (ledger_charge j a l) then a else 0)" "0 \<le> admitted i es (ledger_step (Charge j a) l)"
    by auto
  then show ?case by simp
qed simp_all

text \<open>A run admits at most what the session held at the start, if positive, and what it is granted.\<close>

lemma admitted_le_granted:
  assumes "\<forall>j q. Create j q \<in> set es \<longrightarrow> 0 \<le> q"
  shows "admitted i es l \<le> max 0 (bal l i) + granted i es l"
  using assms
proof (induction es arbitrary: l)
  case Nil
  then show ?case by simp
next
  case (Cons e es)
  have IH: "admitted i es (ledger_step e l) \<le> max 0 (bal (ledger_step e l) i) + granted i es (ledger_step e l)"
    using Cons.IH Cons.prems by (meson list.set_intros(2))
  show ?case
  proof (cases e)
    case (Create j q)
    then have "0 \<le> q" using Cons.prems by auto
    with Create IH show ?thesis by (auto simp: ledger_create_bal split: if_splits)
  next
    case (Charge j a)
    show ?thesis
    proof (cases "j = i \<and> fst (ledger_charge j a l)")
      case True
      then have "0 < a" "a \<le> bal l i" "bal (ledger_step e l) i = bal l i - a"
        using ledger_charge_admit [of i a l] Charge by (auto simp: bal_def)
      with IH True Charge show ?thesis by simp
    next
      case False
      have "bal (ledger_step e l) i \<le> bal l i" using Charge ledger_charge_bal by simp
      with IH False Charge show ?thesis by auto
    qed
  qed
qed

lemma granted_nonneg: "\<forall>j q. Create j q \<in> set es \<longrightarrow> 0 \<le> q \<Longrightarrow> 0 \<le> granted i es l"
proof (induction es arbitrary: l)
  case Nil
  then show ?case by simp
next
  case (Cons e es)
  then have "0 \<le> granted i es (ledger_step e l)" by simp
  with Cons.prems show ?case by (cases e) auto
qed

text \<open>A session that exists is never granted again, whatever the run.\<close>

lemma granted_existing: "l i \<noteq> None \<Longrightarrow> granted i es l = 0"
proof (induction es arbitrary: l)
  case Nil
  then show ?case by simp
next
  case (Cons e es)
  have "ledger_step e l i \<noteq> None"
    using Cons.prems by (cases e) (auto simp: ledger_create_def ledger_charge_def split: option.splits)
  then have "granted i es (ledger_step e l) = 0" by (rule Cons.IH)
  with Cons.prems show ?case by (cases e) auto
qed

subsection \<open>The interface of a session manager\<close>

text \<open>
  \<open>ISessionManager\<close> as its clients see it: two operations over a store that shows a ledger, whose
  results are the ledger's. What a client can conclude is proved once here.
\<close>

datatype session_call = CCreate string int int | CDeduct string int

fun run_calls ::
    "(string \<Rightarrow> int \<Rightarrow> int \<Rightarrow> 'r \<Rightarrow> Session result \<times> 'r) \<Rightarrow> (string \<Rightarrow> int \<Rightarrow> 'r \<Rightarrow> Session result \<times> 'r)
     \<Rightarrow> session_call list \<Rightarrow> 'r \<Rightarrow> 'r" where
  "run_calls create deduct [] s = s"
| "run_calls create deduct (CCreate jti q ttl # cs) s = run_calls create deduct cs (snd (create jti q ttl s))"
| "run_calls create deduct (CDeduct i a # cs) s = run_calls create deduct cs (snd (deduct i a s))"

text \<open>What the calls of a run charged to one session and were admitted for.\<close>

fun paid ::
    "(string \<Rightarrow> int \<Rightarrow> int \<Rightarrow> 'r \<Rightarrow> Session result \<times> 'r) \<Rightarrow> (string \<Rightarrow> int \<Rightarrow> 'r \<Rightarrow> Session result \<times> 'r)
     \<Rightarrow> string \<Rightarrow> session_call list \<Rightarrow> 'r \<Rightarrow> int" where
  "paid create deduct i [] s = 0"
| "paid create deduct i (CCreate jti q ttl # cs) s = paid create deduct i cs (snd (create jti q ttl s))"
| "paid create deduct i (CDeduct j a # cs) s =
     (if j = i \<and> is_Ok (fst (deduct j a s)) then a else 0) + paid create deduct i cs (snd (deduct j a s))"

fun call_event :: "(string \<Rightarrow> string) \<Rightarrow> session_call \<Rightarrow> ledger_event" where
  "call_event sid_of (CCreate jti q ttl) = Create (sid_of jti) q"
| "call_event sid_of (CDeduct i a) = Charge i a"

text \<open>Amounts are 64-bit and quantities are not negative, as the handlers ensure.\<close>

fun call_ok :: "session_call \<Rightarrow> bool" where
  "call_ok (CCreate jti q ttl) = (0 \<le> q \<and> in_int64 q)"
| "call_ok (CDeduct i a) = in_int64 a"

text \<open>The quantity of the first creation of a session in a run.\<close>

fun first_quantity :: "(string \<Rightarrow> string) \<Rightarrow> string \<Rightarrow> session_call list \<Rightarrow> int" where
  "first_quantity sid_of i [] = 0"
| "first_quantity sid_of i (CCreate jti q ttl # cs) =
     (if sid_of jti = i then q else first_quantity sid_of i cs)"
| "first_quantity sid_of i (CDeduct j a # cs) = first_quantity sid_of i cs"

lemma first_quantity_nonneg: "list_all call_ok cs \<Longrightarrow> 0 \<le> first_quantity sid_of i cs"
  by (induction sid_of i cs rule: first_quantity.induct) auto

lemma granted_le_first:
  "list_all call_ok cs \<Longrightarrow> granted i (map (call_event sid_of) cs) l \<le> first_quantity sid_of i cs"
proof (induction cs arbitrary: l)
  case Nil
  then show ?case by simp
next
  case (Cons c cs)
  show ?case
  proof (cases c)
    case (CCreate jti q ttl)
    let ?l = "ledger_step (Create (sid_of jti) q) l"
    have ok: "list_all call_ok cs" "0 \<le> q" using Cons.prems CCreate by simp_all
    have IH: "granted i (map (call_event sid_of) cs) ?l \<le> first_quantity sid_of i cs"
      using Cons.IH [OF ok(1)] .
    have "sid_of jti = i \<Longrightarrow> granted i (map (call_event sid_of) cs) ?l = 0"
      by (rule granted_existing) (auto simp: ledger_create_def split: option.splits)
    with IH ok(2) CCreate show ?thesis by auto
  next
    case (CDeduct j a)
    with Cons show ?thesis by simp
  qed
qed

text \<open>So what a run admits for a new session is within its first grant.\<close>

lemma admitted_le_first:
  assumes "list_all call_ok cs" and "l i = None"
  shows "admitted i (map (call_event sid_of) cs) l \<le> first_quantity sid_of i cs"
proof -
  have q: "\<forall>j q. Create j q \<in> set (map (call_event sid_of) cs) \<longrightarrow> 0 \<le> q"
  proof (intro allI impI)
    fix j q assume "Create j q \<in> set (map (call_event sid_of) cs)"
    then obtain c where c: "c \<in> set cs" "call_event sid_of c = Create j q" by auto
    then have "call_ok c" using assms(1) by (simp add: list_all_iff)
    with c(2) show "0 \<le> q" by (cases c) auto
  qed
  from admitted_le_granted [OF q, of i l] granted_le_first [OF assms(1), of i sid_of l] assms(2)
  show ?thesis by (simp add: bal_def)
qed

locale session_manager =
  fixes create :: "string \<Rightarrow> int \<Rightarrow> int \<Rightarrow> 'r \<Rightarrow> Session result \<times> 'r"
    and deduct :: "string \<Rightarrow> int \<Rightarrow> 'r \<Rightarrow> Session result \<times> 'r"
    and sid_of :: "string \<Rightarrow> string"
    and led :: "'r \<Rightarrow> ledger"
    and wf :: "'r \<Rightarrow> bool"
  assumes create_refines: "wf s \<Longrightarrow> in_int64 q \<Longrightarrow>
      fst (create jti q ttl s) =
        Ok \<lparr>se_SessionId = sid_of jti, se_Balance = fst (ledger_create (sid_of jti) q (led s))\<rparr> \<and>
      led (snd (create jti q ttl s)) = snd (ledger_create (sid_of jti) q (led s)) \<and>
      wf (snd (create jti q ttl s))"
    and deduct_refines: "wf s \<Longrightarrow> in_int64 a \<Longrightarrow>
      is_Ok (fst (deduct i a s)) = fst (ledger_charge i a (led s)) \<and>
      led (snd (deduct i a s)) = snd (ledger_charge i a (led s)) \<and>
      wf (snd (deduct i a s))"
    and deduct_session: "wf s \<Longrightarrow> in_int64 a \<Longrightarrow> fst (deduct i a s) = Ok x \<Longrightarrow>
      se_SessionId x = i \<and> se_Balance x = bal (led s) i - a"
    and led_int64: "wf s \<Longrightarrow> led s i = Some b \<Longrightarrow> in_int64 b"
begin

text \<open>The store after a run shows the ledger after the same events, and admits the same charges.\<close>

lemma run_refines:
  "list_all call_ok cs \<Longrightarrow> wf s \<Longrightarrow>
     wf (run_calls create deduct cs s) \<and>
     led (run_calls create deduct cs s) = foldl (\<lambda>l e. ledger_step e l) (led s) (map (call_event sid_of) cs)"
proof (induction cs arbitrary: s)
  case Nil
  then show ?case by simp
next
  case (Cons c cs)
  then show ?case
    using create_refines deduct_refines by (cases c) simp_all
qed

lemma paid_admitted:
  "list_all call_ok cs \<Longrightarrow> wf s \<Longrightarrow>
     paid create deduct i cs s = admitted i (map (call_event sid_of) cs) (led s)"
proof (induction cs arbitrary: s)
  case Nil
  then show ?case by simp
next
  case (Cons c cs)
  then show ?case
    using create_refines deduct_refines by (cases c) simp_all
qed

lemma never_overspent:
  assumes "list_all call_ok cs" and "wf s" and "led s i = None"
  shows "paid create deduct i cs s \<le> first_quantity sid_of i cs"
proof -
  have "paid create deduct i cs s = admitted i (map (call_event sid_of) cs) (led s)"
    by (rule paid_admitted [OF assms(1,2)])
  with admitted_le_first [of cs "led s" i sid_of] assms(1,3) show ?thesis by simp
qed

text \<open>A session is created once: the second creation keeps the balance and returns it.\<close>

lemma create_twice:
  "wf s \<Longrightarrow> in_int64 q \<Longrightarrow> in_int64 q' \<Longrightarrow>
     fst (create jti q' ttl' (snd (create jti q ttl s))) = fst (create jti q ttl s)
     \<and> led (snd (create jti q' ttl' (snd (create jti q ttl s)))) = led (snd (create jti q ttl s))"
  using create_refines [of s q jti ttl] create_refines [of "snd (create jti q ttl s)" q' jti ttl']
  by (auto simp: ledger_create_def split: option.splits)

lemma deduct_admitted:
  assumes "wf s" and "in_int64 a" and "fst (deduct i a s) = Ok x"
  shows "0 < a \<and> a \<le> bal (led s) i \<and> se_Balance x = bal (led s) i - a \<and> se_SessionId x = i
    \<and> led (snd (deduct i a s)) = (led s)(i \<mapsto> bal (led s) i - a) \<and> wf (snd (deduct i a s))"
  using assms deduct_refines [of s a i] deduct_session [of s a i x] ledger_charge_admit [of i a "led s"]
  by auto

text \<open>A charge the balance covers is admitted.\<close>

lemma deduct_affordable:
  assumes "wf s" and "0 < a" and "a \<le> bal (led s) i"
  shows "\<exists>x s'. deduct i a s = (Ok x, s')"
proof -
  have "led s i \<noteq> None" using assms by (auto simp: bal_def split: option.splits)
  then obtain b where b: "led s i = Some b" by blast
  then have "in_int64 b" by (rule led_int64 [OF assms(1)])
  with b assms have "in_int64 a" "in_int64 (b - a)" "0 \<le> b - a"
    by (simp_all add: bal_def in_int64_def int64_min_def)
  with b assms have "is_Ok (fst (deduct i a s))"
    using deduct_refines [of s a i] by (simp add: ledger_charge_def ledger_left_def)
  then show ?thesis by (cases "deduct i a s") (auto simp: is_Ok_iff)
qed

text \<open>A charge that the balance does not cover is refused.\<close>

lemma deduct_refused:
  "wf s \<Longrightarrow> in_int64 a \<Longrightarrow> bal (led s) i < a \<Longrightarrow> \<not> is_Ok (fst (deduct i a s))"
  using deduct_refines [of s a i] ledger_charge_admit [of i a "led s"] by auto

end

subsection \<open>The Redis store refines the ledger\<close>

definition session_led :: "('r \<Rightarrow> keyspace) \<Rightarrow> 'r \<Rightarrow> ledger" where
  "session_led view s i =
     (case view s (session_key i) of
        Some (RStr w, _) \<Rightarrow> (case Atoi w of Inr b \<Rightarrow> Some b | Inl _ \<Rightarrow> None)
      | _ \<Rightarrow> None)"

text \<open>Every session key holds the decimal form of a 64-bit balance.\<close>

definition sessions_wf :: "('r \<Rightarrow> keyspace) \<Rightarrow> ('r \<Rightarrow> bool) \<Rightarrow> 'r \<Rightarrow> bool" where
  "sessions_wf view up s \<longleftrightarrow>
     up s \<and> (\<forall>i x e. view s (session_key i) = Some (x, e) \<longrightarrow> (\<exists>b. in_int64 b \<and> x = RStr (itoa b)))"

lemma session_key_inj [simp, key_simps]: "session_key i = session_key j \<longleftrightarrow> i = j"
  by (simp add: session_key_def)

lemma session_led_Some:
  "sessions_wf view up s \<Longrightarrow> view s (session_key i) = Some (x, e) \<Longrightarrow>
     \<exists>b. in_int64 b \<and> x = RStr (itoa b) \<and> session_led view s i = Some b"
  unfolding sessions_wf_def session_led_def by (fastforce simp: Atoi_itoa)

lemma session_led_int64:
  "sessions_wf view up s \<Longrightarrow> session_led view s i = Some b \<Longrightarrow> in_int64 b"
  using session_led_Some [of view up s i] by (cases "view s (session_key i)") (auto simp: session_led_def)

lemma session_led_None: "view s (session_key i) = None \<Longrightarrow> session_led view s i = None"
  by (simp add: session_led_def)

lemma session_led_update:
  "view s' = (view s)(session_key i \<mapsto> (RStr (itoa b), e)) \<Longrightarrow> in_int64 b \<Longrightarrow>
     session_led view s' = (session_led view s)(i \<mapsto> b)"
  by (rule ext) (auto simp: session_led_def Atoi_itoa)

lemma session_led_same: "view s' = view s \<Longrightarrow> session_led view s' = session_led view s"
  by (rule ext) (simp add: session_led_def)

lemma sessions_wf_update:
  "sessions_wf view up s \<Longrightarrow> up s' \<Longrightarrow> view s' = (view s)(session_key i \<mapsto> (RStr (itoa b), e)) \<Longrightarrow>
     in_int64 b \<Longrightarrow> sessions_wf view up s'"
  by (auto simp: sessions_wf_def)

lemma sessions_wf_same: "sessions_wf view up s \<Longrightarrow> up s' \<Longrightarrow> view s' = view s \<Longrightarrow> sessions_wf view up s'"
  by (auto simp: sessions_wf_def)

context redis_contract
begin

lemma create_session_refines:
  fixes L :: libs and m :: RedisSessionManager and jti :: string
  assumes wf: "sessions_wf view up s" and q: "in_int64 q"
  defines "i \<equiv> hashToSessionId L m jti"
  shows "fst (sm_CreateSession L R m jti q ttl s) =
        Ok \<lparr>se_SessionId = i, se_Balance = fst (ledger_create i q (session_led view s))\<rparr> \<and>
      session_led view (snd (sm_CreateSession L R m jti q ttl s)) = snd (ledger_create i q (session_led view s)) \<and>
      sessions_wf view up (snd (sm_CreateSession L R m jti q ttl s))"
proof (cases "view s (session_key i)")
  case None
  have u: "up s" using wf by (simp add: sessions_wf_def)
  let ?r = "rSetNXGet R (session_key i) (itoa q) s"
  have v: "view (snd ?r) = (view s)(session_key i \<mapsto> (RStr (itoa q), None))" "fst ?r = Inl RedisNil"
    using setnx_none [OF u None] by auto
  have "sm_CreateSession L R m jti q ttl s = (Ok \<lparr>se_SessionId = i, se_Balance = q\<rparr>, snd ?r)"
    using v(2) by (simp add: sm_CreateSession_def i_def case_prod_beta Let_def)
  moreover have "ledger_create i q (session_led view s) = (q, (session_led view s)(i \<mapsto> q))"
    by (simp add: ledger_create_def session_led_None None)
  ultimately show ?thesis
    using session_led_update [OF v(1) q] sessions_wf_update [OF wf _ v(1) q] setnx_healthy [OF u] by simp
next
  case (Some p)
  have u: "up s" using wf by (simp add: sessions_wf_def)
  obtain x e where p: "p = (x, e)" by (cases p)
  obtain b where b: "in_int64 b" "x = RStr (itoa b)" "session_led view s i = Some b"
    using session_led_Some [OF wf, of i x e] Some p by auto
  let ?r = "rSetNXGet R (session_key i) (itoa q) s"
  have v: "fst ?r = Inr (AnyString (itoa b))" "view (snd ?r) = view s"
    using setnx_str [OF u, of "session_key i"] Some p b by auto
  have "sm_CreateSession L R m jti q ttl s = (Ok \<lparr>se_SessionId = i, se_Balance = b\<rparr>, snd ?r)"
    using v(1) b(1) by (simp add: sm_CreateSession_def i_def case_prod_beta Atoi_itoa Let_def)
  moreover have "ledger_create i q (session_led view s) = (b, session_led view s)"
    by (simp add: ledger_create_def b(3))
  ultimately show ?thesis
    using session_led_same [OF v(2)] sessions_wf_same [OF wf _ v(2)] setnx_healthy [OF u] by simp
qed

lemma stored_balance:
  assumes "sessions_wf view up s" and "view s (session_key i) = Some p"
  obtains b where "in_int64 b" and "session_led view s i = Some b" and "view s (session_key i) = Some (RStr (itoa b), snd p)"
  using session_led_Some [OF assms(1), of i "fst p" "snd p"] assms(2) that by (cases p) auto

text \<open>The three outcomes of \<open>DECRBY\<close> on a session key, seen in the ledger.\<close>

lemma decr_session:
  fixes i :: string and a :: int and s :: 'r
  assumes wf: "sessions_wf view up s" and a: "0 < a" "in_int64 a"
  defines "r \<equiv> rDecrBy R (session_key i) a s"
  shows "sessions_wf view up (snd r)"
    and "in_int64 (ledger_left i a (session_led view s)) \<Longrightarrow>
      fst r = Inr (ledger_left i a (session_led view s)) \<and>
      session_led view (snd r) = (session_led view s)(i \<mapsto> ledger_left i a (session_led view s))"
    and "\<not> in_int64 (ledger_left i a (session_led view s)) \<Longrightarrow>
      (\<exists>m. fst r = Inl (LibErr m)) \<and> session_led view (snd r) = session_led view s"
proof -
  have u: "up s" using wf by (simp add: sessions_wf_def)
  have u': "up (snd r)" using decr_healthy [OF u] by (simp add: r_def)
  let ?l = "session_led view s" and ?n = "ledger_left i a (session_led view s)"
  have ma: "in_int64 (- a)" using a by (simp add: in_int64_def int64_min_def int64_max_def)
  have left: "fst r = Inr ?n \<and> (\<exists>e. view (snd r) = (view s)(session_key i \<mapsto> (RStr (itoa ?n), e)))" if n: "in_int64 ?n"
  proof (cases "view s (session_key i)")
    case None
    then show ?thesis using decr_none [OF u None ma] by (auto simp: ledger_left_def session_led_None r_def)
  next
    case (Some p)
    from stored_balance [OF wf Some] obtain b where "in_int64 b" "?l i = Some b" "view s (session_key i) = Some (RStr (itoa b), snd p)" .
    then show ?thesis using decr_int [OF u, of _ b "snd p" a] n by (auto simp: ledger_left_def r_def)
  qed
  have over: "(\<exists>m. fst r = Inl (LibErr m)) \<and> view (snd r) = view s" if n: "\<not> in_int64 ?n"
  proof (cases "view s (session_key i)")
    case None
    with n ma show ?thesis by (simp add: ledger_left_def session_led_None)
  next
    case (Some p)
    from stored_balance [OF wf Some] obtain b where "in_int64 b" "?l i = Some b" "view s (session_key i) = Some (RStr (itoa b), snd p)" .
    then show ?thesis using decr_overflow [OF u, of _ b "snd p" a] n by (auto simp: ledger_left_def r_def)
  qed
  show "in_int64 ?n \<Longrightarrow> fst r = Inr ?n \<and> session_led view (snd r) = ?l(i \<mapsto> ?n)"
    using left session_led_update by metis
  show "\<not> in_int64 ?n \<Longrightarrow> (\<exists>m. fst r = Inl (LibErr m)) \<and> session_led view (snd r) = ?l"
    using over session_led_same by metis
  show "sessions_wf view up (snd r)"
    using left over sessions_wf_update [OF wf u'] sessions_wf_same [OF wf u'] by metis
qed

lemma deduct_session_refines:
  assumes wf: "sessions_wf view up s" and a: "in_int64 a"
  shows "is_Ok (fst (sm_DeductSessionBalance R i a s)) = fst (ledger_charge i a (session_led view s)) \<and>
    session_led view (snd (sm_DeductSessionBalance R i a s)) = snd (ledger_charge i a (session_led view s)) \<and>
    sessions_wf view up (snd (sm_DeductSessionBalance R i a s))"
proof (cases "a \<le> 0")
  case True
  with wf show ?thesis by (simp add: sm_DeductSessionBalance_def ledger_charge_def)
next
  case False
  then have a0: "0 < a" by simp
  note d = decr_session [OF wf a0 a, of i]
  show ?thesis
  proof (cases "in_int64 (ledger_left i a (session_led view s))")
    case True
    with d(1) d(2) [OF True] False show ?thesis
      by (simp add: sm_DeductSessionBalance_def ledger_charge_def case_prod_beta)
  next
    case over: False
    with d(1) d(3) [OF over] False show ?thesis
      by (auto simp: sm_DeductSessionBalance_def ledger_charge_def case_prod_beta)
  qed
qed

lemma deduct_session_result:
  assumes wf: "sessions_wf view up s" and ok: "fst (sm_DeductSessionBalance R i a s) = Ok x" and a: "in_int64 a"
  shows "se_SessionId x = i \<and> se_Balance x = bal (session_led view s) i - a"
proof -
  have a0: "0 < a" using ok by (auto simp: sm_DeductSessionBalance_def split: if_splits)
  note d = decr_session [OF wf a0 a, of i]
  show ?thesis
  proof (cases "in_int64 (ledger_left i a (session_led view s))")
    case True
    with d(2) [OF True] ok a0 show ?thesis
      by (auto simp: sm_DeductSessionBalance_def ledger_left_bal case_prod_beta split: if_splits)
  next
    case over: False
    with d(3) [OF over] ok a0 show ?thesis
      by (auto simp: sm_DeductSessionBalance_def case_prod_beta)
  qed
qed

end

text \<open>So the Redis session manager is a session manager, over any Redis that meets its contract.\<close>

sublocale redis_contract \<subseteq> sess: session_manager
    "sm_CreateSession L R m" "sm_DeductSessionBalance R" "hashToSessionId L m"
    "session_led view" "sessions_wf view up" for L m
  using create_session_refines deduct_session_refines deduct_session_result session_led_int64
  by unfold_locales auto

context redis_contract
begin

lemmas session_spending = sess.never_overspent
lemmas session_creation = sess.create_twice
lemmas session_admission = sess.deduct_admitted
lemmas session_affordable = sess.deduct_affordable
lemmas session_run = sess.run_refines

end

subsection \<open>Properties\<close>

definition demo_salt :: RedisSessionManager where
  "demo_salt = \<lparr>sm_sessionSalt = ''salt''\<rparr>"

definition demo_mem :: mem where
  "demo_mem = \<lparr>mclock = 1000, mkeys = Map.empty\<rparr>"

lemma demo_mem_wf [simp]: "sessions_wf mkeys mup demo_mem" "session_led mkeys demo_mem i = None" "mup demo_mem"
  by (simp_all add: sessions_wf_def demo_mem_def mup_def session_led_def)

definition demo_calls :: "session_call list" where
  "demo_calls =
     [CCreate ''jti'' 10 0, CDeduct (hashToSessionId demo_libs demo_salt ''jti'') 4,
      CCreate ''jti'' 10 0, CDeduct (hashToSessionId demo_libs demo_salt ''jti'') 7]"

lemma demo_calls_ok: "list_all call_ok demo_calls"
  by (simp add: demo_calls_def in_int64_def int64_min_def int64_max_def)

text \<open>
  The store refines the ledger. After any sequence of session calls over any Redis that meets
  its contract, the balances read back from Redis are those the abstract ledger has after the same
  creations and charges, and the stored sessions are still well-formed.
\<close>

theorem session_store_refines_ledger:
  assumes "redis_contract R view clock up" and "sessions_wf view up s" and "list_all call_ok cs"
  shows "sessions_wf view up (run_calls (sm_CreateSession L R m) (sm_DeductSessionBalance R) cs s) \<and>
    session_led view (run_calls (sm_CreateSession L R m) (sm_DeductSessionBalance R) cs s) =
      foldl (\<lambda>l e. ledger_step e l) (session_led view s) (map (call_event (hashToSessionId L m)) cs)"
  using redis_contract.session_run [OF assms(1,3,2)] .

theorem session_store_refines_ledger_witness:
  "session_led mkeys (run_calls (sm_CreateSession demo_libs mem_redis demo_salt)
     (sm_DeductSessionBalance mem_redis) demo_calls demo_mem) (hashToSessionId demo_libs demo_salt ''jti'') = Some (- 1)"
  using session_store_refines_ledger [OF mem.redis_contract_axioms demo_mem_wf(1) demo_calls_ok, of demo_libs demo_salt]
  by (simp add: demo_calls_def ledger_create_def ledger_charge_def ledger_left_def in_int64_def int64_min_def int64_max_def)

end
