(* ===== verification/Demo_Jwt.thy ===== *)
theory Demo_Jwt
  imports Session
begin

section \<open>A concrete token library\<close>

text \<open>
  A token library given by a table of texts and tokens, which meets the contract of \<open>Auth\<close> for any
  table and any signature check, and the tokens the witnesses use. None of it models code of the
  repository.
\<close>

definition table_decode :: "(string \<times> jwt_token) list \<Rightarrow> jwt_decoder" where
  "table_decode tab s c =
     (case map_of tab s of
        None \<Rightarrow> None
      | Some t \<Rightarrow> if same_kind c (tk_Claims t) then Some t else None)"

definition dates_ok :: "jwt_claims \<Rightarrow> int \<Rightarrow> bool" where
  "dates_ok c now =
     (case registered_of c of
        None \<Rightarrow> False
      | Some r \<Rightarrow> (case rc_ExpiresAt r of None \<Rightarrow> True | Some e \<Rightarrow> now < e) \<and>
                  (case rc_NotBefore r of None \<Rightarrow> True | Some n \<Rightarrow> n \<le> now))"

definition table_parse ::
    "(string \<times> jwt_token) list \<Rightarrow> jwt_verifier \<Rightarrow> string \<Rightarrow> jwt_claims \<Rightarrow> (jwt_token \<Rightarrow> jwt_key result) \<Rightarrow> bool
       \<Rightarrow> int \<Rightarrow> jwt_token result" where
  "table_parse tab V s c kf v now =
     (case table_decode tab s c of
        None \<Rightarrow> Err (LibErr ''token is malformed'')
      | Some t \<Rightarrow>
          (case kf t of
             Panic m \<Rightarrow> Panic m
           | Err e \<Rightarrow> Err (LibErr ''token is unverifiable'')
           | Ok k \<Rightarrow>
               if \<not> V (tk_Method t) k s then Err (LibErr ''token signature is invalid'')
               else if v \<and> \<not> dates_ok (tk_Claims t) now then Err (LibErr ''token has invalid claims'')
               else Ok t))"

definition table_sign :: "(string \<times> jwt_token) list \<Rightarrow> jwt_verifier \<Rightarrow> jwt_token \<Rightarrow> jwt_key \<Rightarrow> go_error + string" where
  "table_sign tab V t k =
     (case find (\<lambda>e. snd e = t) tab of
        None \<Rightarrow> Inl (LibErr ''key is invalid'')
      | Some e \<Rightarrow> if V (tk_Method t) k (fst e) then Inr (fst e) else Inl (LibErr ''key is invalid''))"

definition table_jwt :: "(string \<times> jwt_token) list \<Rightarrow> jwt_verifier \<Rightarrow> jwt_lib" where
  "table_jwt tab V = \<lparr>ParseWithClaims = table_parse tab V, SignedString = table_sign tab V,
     NewNumericDate = (\<lambda>t. t div Second * Second)\<rparr>"

lemma table_signs:
  assumes "distinct (map fst tab)"
  shows "jwt_signs (table_jwt tab V) (table_decode tab) V"
  unfolding jwt_signs_def
proof (intro allI impI)
  fix t k s c assume s: "SignedString (table_jwt tab V) t k = Inr s" and m: "tk_Method t = SigningMethodHMAC ''HS256''"
    and c: "same_kind c (tk_Claims t)"
  from s obtain e where e: "find (\<lambda>e. snd e = t) tab = Some e" "V (tk_Method t) k (fst e)" "s = fst e"
    by (auto simp: table_jwt_def table_sign_def split: option.splits if_splits)
  then have "e \<in> set tab" "snd e = t" by (auto simp: find_Some_iff)
  then have "(s, t) \<in> set tab" using e(3) by auto
  then have "map_of tab s = Some t" using assms by (simp add: map_of_is_SomeI)
  with c e m show "table_decode tab s c = Some t \<and> V (SigningMethodHMAC ''HS256'') k s"
    by (simp add: table_decode_def)
qed

lemma dates_ok_iff: "dates_ok c now \<longleftrightarrow> (\<exists>r. registered_of c = Some r \<and> dates_valid r now)"
  by (auto simp: dates_ok_def dates_valid_def split: option.splits)

lemma table_parse_Ok:
  "table_parse tab V s c kf v now = Ok t \<longleftrightarrow>
     table_decode tab s c = Some t \<and> (\<exists>k. kf t = Ok k \<and> V (tk_Method t) k s) \<and> (v \<longrightarrow> dates_ok (tk_Claims t) now)"
  by (auto simp: table_parse_def split: option.splits result.splits if_splits)

lemma table_contract: "jwt_contract (table_jwt tab V) (table_decode tab) V"
proof -
  have "jwt_sound (table_jwt tab V) (table_decode tab) V" "jwt_complete (table_jwt tab V) (table_decode tab) V"
    by (auto simp: jwt_sound_def jwt_complete_def table_jwt_def table_parse_Ok dates_ok_iff)
  moreover have "jwt_panics (table_jwt tab V) (table_decode tab)"
    by (simp add: jwt_panics_def table_jwt_def table_parse_def)
  moreover have "jwt_kinds (table_decode tab)"
    by (auto simp: jwt_kinds_def table_decode_def split: option.splits if_splits)
  ultimately show ?thesis by (simp add: jwt_contract_def)
qed

subsection \<open>The tokens of the witnesses\<close>

definition demo_auth :: StaticAuthManager where
  "demo_auth = \<lparr>am_jwtSecret = ''secret'', am_trustedIssuers = [''did:example:prex'' \<mapsto> ''pk''],
     am_selfIdentifier = ''did:example:pkv''\<rparr>"

definition demo_verifies :: jwt_verifier where
  "demo_verifies m k s \<longleftrightarrow>
     m = SigningMethodHMAC ''HS256'' \<and> k = Secret ''secret'' \<or> m = SigningMethodEd25519 \<and> k = PublicKey ''pk''"

definition demo_sid :: string where
  "demo_sid = hashToSessionId demo_libs demo_salt ''jti''"

definition demo_quota_claims :: CreateSessionJwtClaims where
  "demo_quota_claims = \<lparr>cj_SessionJwtClaims = Some \<lparr>sj_RegisteredClaims =
       Some (empty_registered\<lparr>rc_Issuer := ''did:example:prex'', rc_ExpiresAt := Some (2000000 * Second), rc_ID := ''jti''\<rparr>),
     sj_Usage = JWT_USAGE_CREATE_SESSION\<rparr>, cj_Quantity = 10\<rparr>"

definition demo_session_claims :: SessionJwtClaims where
  "demo_session_claims = \<lparr>sj_RegisteredClaims = Some \<lparr>rc_Issuer = ''did:example:pkv'', rc_Subject = demo_sid,
       rc_Audience = [''did:example:pkv''], rc_ExpiresAt = Some (2000000 * Second), rc_NotBefore = None,
       rc_IssuedAt = None, rc_ID = ''uuid''\<rparr>, sj_Usage = JWT_USAGE_MANAGE_SESSION\<rparr>"

definition demo_identity_claims :: RegisteredClaims where
  "demo_identity_claims = empty_registered\<lparr>rc_Subject := ''bob'', rc_ExpiresAt := Some (2000000 * Second)\<rparr>"

definition demo_tokens :: "(string \<times> jwt_token) list" where
  "demo_tokens =
     [(''quota'', \<lparr>tk_Method = SigningMethodEd25519, tk_Kid = None, tk_Claims = CreateSessionClaims demo_quota_claims\<rparr>),
      (''sess'', \<lparr>tk_Method = SigningMethodHMAC ''HS256'', tk_Kid = Some ''kid'', tk_Claims = SessionClaims demo_session_claims\<rparr>),
      (''ident'', \<lparr>tk_Method = SigningMethodHMAC ''HS256'', tk_Kid = None, tk_Claims = Registered demo_identity_claims\<rparr>),
      (''nil'', \<lparr>tk_Method = SigningMethodEd25519, tk_Kid = None, tk_Claims = CreateSessionClaims empty_create_claims\<rparr>)]"

definition demo_jwt :: jwt_lib where
  "demo_jwt = table_jwt demo_tokens demo_verifies"

lemma demo_jwt_contract: "jwt_contract demo_jwt (table_decode demo_tokens) demo_verifies"
  unfolding demo_jwt_def by (rule table_contract)

lemma demo_sess_decode:
  "table_decode demo_tokens ''sess'' (SessionClaims empty_session_claims) =
     Some \<lparr>tk_Method = SigningMethodHMAC ''HS256'', tk_Kid = Some ''kid'', tk_Claims = SessionClaims demo_session_claims\<rparr>"
  by (simp add: table_decode_def demo_tokens_def)

lemmas demo_jwt_defs = demo_jwt_def table_jwt_def table_parse_def table_decode_def demo_tokens_def
  demo_verifies_def demo_auth_def dates_ok_def demo_quota_claims_def demo_session_claims_def
  demo_identity_claims_def empty_registered_def empty_create_claims_def

end
