(* ===== verification/Pricing.thy ===== *)
theory Pricing
  imports Messages
begin

section \<open>Prices (\<open>pkg/middleware/pricing.go\<close>)\<close>

text \<open>
  \<open>GetPrice\<close> switches on the procedure and asserts the type of the message. The products are
  64-bit and wrap.
\<close>

definition BYTE_PRICE :: int where "BYTE_PRICE = 1"
definition STREAM_BYTE_PRICE :: int where "STREAM_BYTE_PRICE = 100"
definition CID_PRICE :: int where "CID_PRICE = 1"

definition GetPrice :: "AnyRequest \<Rightarrow> go_error + int" where
  "GetPrice req =
     (if Procedure req = RegisterInstanceProcedure then
        (case AnyMsg req of
           MRegisterInstance r \<Rightarrow> Inr (wrap64 (CID_PRICE * int (length (GetCids (ri_Advertisement r)))))
         | _ \<Rightarrow> Inl (Errorf ''failed to parse request''))
      else if Procedure req = CreateValueProcedure then
        (case AnyMsg req of
           MCreateValue r \<Rightarrow> Inr (wrap64 (BYTE_PRICE * int (length (cv_Value r))))
         | _ \<Rightarrow> Inl (Errorf ''failed to parse request''))
      else if Procedure req = ProlongValueProcedure then
        (case AnyMsg req of
           MProlongValue r \<Rightarrow> Inr (wrap64 (BYTE_PRICE * pv_MaxSize r))
         | _ \<Rightarrow> Inl (Errorf ''failed to parse request''))
      else if Procedure req = CreateStreamValueProcedure then
        (case AnyMsg req of
           MCreateStreamValue r \<Rightarrow> Inr (wrap64 (STREAM_BYTE_PRICE * int (length (csv_Value r))))
         | _ \<Rightarrow> Inl (Errorf ''failed to parse request''))
      else Inr 1)"

lemmas price_defs = BYTE_PRICE_def STREAM_BYTE_PRICE_def CID_PRICE_def

lemma procedures_distinct [simp]:
  "RegisterInstanceProcedure \<noteq> CreateValueProcedure" "RegisterInstanceProcedure \<noteq> ProlongValueProcedure"
  "RegisterInstanceProcedure \<noteq> CreateStreamValueProcedure" "CreateValueProcedure \<noteq> ProlongValueProcedure"
  "CreateValueProcedure \<noteq> CreateStreamValueProcedure" "ProlongValueProcedure \<noteq> CreateStreamValueProcedure"
  "CreateValueProcedure \<noteq> RegisterInstanceProcedure" "ProlongValueProcedure \<noteq> RegisterInstanceProcedure"
  "CreateStreamValueProcedure \<noteq> RegisterInstanceProcedure" "ProlongValueProcedure \<noteq> CreateValueProcedure"
  "CreateStreamValueProcedure \<noteq> CreateValueProcedure" "CreateStreamValueProcedure \<noteq> ProlongValueProcedure"
  by (simp_all add: procedure_defs)

text \<open>Every price is a 64-bit integer, so the deduction below never sees a larger one.\<close>

lemma GetPrice_in_int64: "GetPrice req = Inr p \<Longrightarrow> in_int64 p"
  unfolding GetPrice_def
  by (auto simp: wrap64_range split: if_splits message.splits)
     (simp_all add: in_int64_def int64_min_def int64_max_def)

end
