(* ===== verification/Interceptor.thy ===== *)
theory Interceptor
  imports Demo_Jwt Pricing
begin

section \<open>The interceptors (\<open>pkg/middleware/interceptor.go\<close>)\<close>

text \<open>
  A unary interceptor wraps the handler \<open>next\<close>. The context carries the time of the request and
  the session that the session interceptor put there (\<open>KeySession\<close>). The three interfaces the
  session interceptor calls are functions; \<open>locale session_gate\<close> states what it relies on of
  them, and the service's own managers are shown to provide it.
\<close>

subsection \<open>The code\<close>

type_synonym 'r unary = "int \<Rightarrow> Session option \<Rightarrow> AnyRequest \<Rightarrow> 'r \<Rightarrow> response result \<times> 'r"

definition skipAuth :: "string list" where
  "skipAuth = [CreateSessionProcedure, SearchCidProcedure, SearchInstanceProcedure, PingProcedure,
     DelegatedRoutingProcedure]"

definition NewConnectUnarySessionInterceptor ::
    "(string \<Rightarrow> int \<Rightarrow> 'r \<Rightarrow> Session result \<times> 'r) \<Rightarrow> (AnyRequest \<Rightarrow> go_error + int) \<Rightarrow>
     (string \<Rightarrow> jwt_claims \<Rightarrow> bool \<Rightarrow> int \<Rightarrow> jwt_claims result) \<Rightarrow> 'r unary \<Rightarrow> 'r unary" where
  "NewConnectUnarySessionInterceptor deduct price verify next now ctxSession req s =
     (if list_ex (\<lambda>procedureName. Procedure req = procedureName) skipAuth then next now ctxSession req s
      else
        let authString = HeaderGet (AuthorizationHeader req);
            authString = (if length authString = 0 then HeaderGet (AuthorizationHeader req) else authString);
            pieces = Split authString (CHR '' '')
        in if length pieces \<noteq> 2 \<or> \<not> EqualFold (pieces ! 0) ''bearer''
           then (Err (Status InvalidArgument ''failed to parse bearer token''), s)
           else
             (case verify (pieces ! 1) (SessionClaims empty_session_claims) True now of
                Panic m \<Rightarrow> (Panic m, s)
              | Err e \<Rightarrow> (Err (Status PermissionDenied ''failed to parse or verify token: %s''), s)
              | Ok claims \<Rightarrow>
                  (case claims of
                     SessionClaims jwtClaims \<Rightarrow>
                       if sj_Usage jwtClaims \<noteq> JWT_USAGE_MANAGE_SESSION
                       then (Err (Status PermissionDenied ''expected token usage %d but got %d''), s)
                       else
                         (case price req of
                            Inl e \<Rightarrow> (Err (Status Internal ''failed to get price: %s''), s)
                          | Inr p \<Rightarrow>
                              (case sj_RegisteredClaims jwtClaims of
                                 None \<Rightarrow> (Panic nil_deref, s)
                               | Some r \<Rightarrow>
                                   (case deduct (rc_Subject r) p s of
                                      (Panic m, s1) \<Rightarrow> (Panic m, s1)
                                    | (Err e, s1) \<Rightarrow> (Err (Status Internal ''failed to deduct: %s''), s1)
                                    | (Ok session, s1) \<Rightarrow> next now (Some session) req s1)))
                   | _ \<Rightarrow> (Err (Status InvalidArgument ''failed to parse session jwt''), s))))"

text \<open>
  \<open>protoValidation\<close> takes any value; \<open>None\<close> stands for one that is not a protobuf message. The
  validator (\<open>protovalidate\<close>) is a parameter.
\<close>

definition protoValidation :: "message option \<Rightarrow> (message \<Rightarrow> go_error option) \<Rightarrow> go_error option" where
  "protoValidation req validate =
     (case req of
        None \<Rightarrow> Some (Status InvalidArgument ''failed to parse proto'')
      | Some m \<Rightarrow>
          (case validate m of
             Some e \<Rightarrow> Some (Status InvalidArgument ''failed to parse proto: %s'')
           | None \<Rightarrow> None))"

definition NewConnectValidationInterceptor :: "(message \<Rightarrow> go_error option) \<Rightarrow> 'r unary \<Rightarrow> 'r unary" where
  "NewConnectValidationInterceptor validate next now ctxSession req s =
     (case protoValidation (Some (AnyMsg req)) validate of
        Some e \<Rightarrow> (Err e, s)
      | None \<Rightarrow> next now ctxSession req s)"

lemma validation_pass:
  "NewConnectValidationInterceptor validate next now cs req s =
     (if validate (AnyMsg req) = None then next now cs req s
      else (Err (Status InvalidArgument ''failed to parse proto: %s''), s))"
  by (simp add: NewConnectValidationInterceptor_def protoValidation_def split: option.splits)

subsection \<open>What the session interceptor promises\<close>

text \<open>The bearer token of a request, if its header has the form the interceptor accepts.\<close>

definition bearer :: "AnyRequest \<Rightarrow> string option" where
  "bearer req =
     (case Split (HeaderGet (AuthorizationHeader req)) (CHR '' '') of
        [scheme, tok] \<Rightarrow> if EqualFold scheme ''bearer'' then Some tok else None
      | _ \<Rightarrow> None)"

definition free_of_charge :: "AnyRequest \<Rightarrow> bool" where
  "free_of_charge req \<longleftrightarrow> Procedure req \<in> set skipAuth"

lemma skip_iff: "list_ex (\<lambda>p. Procedure req = p) skipAuth \<longleftrightarrow> free_of_charge req"
  by (auto simp: free_of_charge_def list_ex_iff)

lemma bearer_Some:
  assumes "bearer req = Some tok"
  obtains scheme where "Split (HeaderGet (AuthorizationHeader req)) (CHR '' '') = [scheme, tok]"
    and "EqualFold scheme ''bearer''"
  using assms by (auto simp: bearer_def split: list.splits if_splits)

lemma bearer_None_iff:
  "bearer req = None \<longleftrightarrow>
     (let pieces = Split (HeaderGet (AuthorizationHeader req)) (CHR '' '')
      in length pieces \<noteq> 2 \<or> \<not> EqualFold (pieces ! 0) ''bearer'')"
proof (cases "Split (HeaderGet (AuthorizationHeader req)) (CHR '' '')")
  case Nil
  then show ?thesis by simp
next
  case (Cons a xs)
  then show ?thesis
    by (cases xs; cases "tl xs") (auto simp: bearer_def)
qed

text \<open>
  The decision before money moves: the answer that stops the request, or the session to charge and
  the amount. It reads no state, so the interceptor is this decision followed by the charge.
\<close>

definition gate_plan ::
    "(AnyRequest \<Rightarrow> go_error + int) \<Rightarrow> (string \<Rightarrow> jwt_claims \<Rightarrow> bool \<Rightarrow> int \<Rightarrow> jwt_claims result) \<Rightarrow>
     int \<Rightarrow> AnyRequest \<Rightarrow> response result + string \<times> int" where
  "gate_plan price verify now req =
     (case bearer req of
        None \<Rightarrow> Inl (Err (Status InvalidArgument ''failed to parse bearer token''))
      | Some tok \<Rightarrow>
          (case verify tok (SessionClaims empty_session_claims) True now of
             Panic m \<Rightarrow> Inl (Panic m)
           | Err e \<Rightarrow> Inl (Err (Status PermissionDenied ''failed to parse or verify token: %s''))
           | Ok (SessionClaims c) \<Rightarrow>
               if sj_Usage c \<noteq> JWT_USAGE_MANAGE_SESSION
               then Inl (Err (Status PermissionDenied ''expected token usage %d but got %d''))
               else
                 (case price req of
                    Inl e \<Rightarrow> Inl (Err (Status Internal ''failed to get price: %s''))
                  | Inr p \<Rightarrow>
                      (case sj_RegisteredClaims c of
                         None \<Rightarrow> Inl (Panic nil_deref)
                       | Some r \<Rightarrow> Inr (rc_Subject r, p)))
           | Ok _ \<Rightarrow> Inl (Err (Status InvalidArgument ''failed to parse session jwt''))))"

lemma interceptor_plan:
  "NewConnectUnarySessionInterceptor deduct price verify next now cs req s =
     (if free_of_charge req then next now cs req s
      else
        (case gate_plan price verify now req of
           Inl r \<Rightarrow> (r, s)
         | Inr (i, p) \<Rightarrow>
             (case deduct i p s of
                (Panic m, s1) \<Rightarrow> (Panic m, s1)
              | (Err e, s1) \<Rightarrow> (Err (Status Internal ''failed to deduct: %s''), s1)
              | (Ok x, s1) \<Rightarrow> next now (Some x) req s1)))"
proof (cases "bearer req")
  case None
  then show ?thesis
    using bearer_None_iff [of req]
    by (simp add: NewConnectUnarySessionInterceptor_def skip_iff Let_def gate_plan_def)
next
  case (Some tok)
  then obtain scheme where "Split (HeaderGet (AuthorizationHeader req)) (CHR '' '') = [scheme, tok]"
    "EqualFold scheme ''bearer''" by (rule bearer_Some)
  with Some show ?thesis
    by (simp add: NewConnectUnarySessionInterceptor_def skip_iff Let_def gate_plan_def
        split: result.split jwt_claims.split sum.split option.split)
qed

lemma gate_plan_Inl: "gate_plan price verify now req = Inl r \<Longrightarrow> \<not> is_Ok r"
  by (auto simp: gate_plan_def split: option.splits result.splits jwt_claims.splits sum.splits if_splits)

lemma gate_plan_Inr:
  "gate_plan price verify now req = Inr (i, p) \<longleftrightarrow>
     (\<exists>tok c r. bearer req = Some tok \<and>
        verify tok (SessionClaims empty_session_claims) True now = Ok (SessionClaims c) \<and>
        sj_Usage c = JWT_USAGE_MANAGE_SESSION \<and> sj_RegisteredClaims c = Some r \<and> rc_Subject r = i \<and>
        price req = Inr p)"
  by (auto simp: gate_plan_def split: option.splits result.splits jwt_claims.splits sum.splits if_splits)

locale session_gate = session_manager create deduct sid_of led wf
  for create :: "string \<Rightarrow> int \<Rightarrow> int \<Rightarrow> 'r \<Rightarrow> Session result \<times> 'r" and deduct sid_of led wf +
  fixes price :: "AnyRequest \<Rightarrow> go_error + int"
    and verify :: "string \<Rightarrow> jwt_claims \<Rightarrow> bool \<Rightarrow> int \<Rightarrow> jwt_claims result"
    and genuine :: "string \<Rightarrow> jwt_claims \<Rightarrow> int \<Rightarrow> bool"
  assumes price_int64: "price req = Inr p \<Longrightarrow> in_int64 p"
    and verify_genuine: "verify tok c True now = Ok cl \<Longrightarrow> genuine tok cl now"
begin

abbreviation gate :: "'r unary \<Rightarrow> 'r unary" where
  "gate \<equiv> NewConnectUnarySessionInterceptor deduct price verify"

text \<open>What is known of a request that the gate lets through.\<close>

definition passes :: "int \<Rightarrow> AnyRequest \<Rightarrow> 'r \<Rightarrow> Session \<Rightarrow> 'r \<Rightarrow> bool" where
  "passes now req s x s' \<longleftrightarrow>
     (\<exists>tok c r p. bearer req = Some tok \<and> genuine tok (SessionClaims c) now \<and>
        sj_Usage c = JWT_USAGE_MANAGE_SESSION \<and> sj_RegisteredClaims c = Some r \<and>
        price req = Inr p \<and> 0 < p \<and> p \<le> bal (led s) (rc_Subject r) \<and>
        se_SessionId x = rc_Subject r \<and> se_Balance x = bal (led s) (rc_Subject r) - p \<and>
        led s' = (led s)(rc_Subject r \<mapsto> bal (led s) (rc_Subject r) - p) \<and> wf s')"

lemma gate_stop:
  "\<not> free_of_charge req \<Longrightarrow> gate_plan price verify now req = Inl r \<Longrightarrow> gate next now cs req s = (r, s)"
  by (simp add: interceptor_plan)

lemma passes_intro:
  assumes "wf s" and "gate_plan price verify now req = Inr (i, p)" and "deduct i p s = (Ok x, s')"
  shows "passes now req s x s'"
proof -
  from assms(2) obtain tok c r where t: "bearer req = Some tok"
      "verify tok (SessionClaims empty_session_claims) True now = Ok (SessionClaims c)"
      "sj_Usage c = JWT_USAGE_MANAGE_SESSION" "sj_RegisteredClaims c = Some r" "rc_Subject r = i"
      "price req = Inr p" unfolding gate_plan_Inr by blast
  from deduct_admitted [OF assms(1) price_int64 [OF t(6)], of i x] assms(3) t verify_genuine [OF t(2)]
  show ?thesis by (auto simp: passes_def)
qed

lemma gate_cases:
  assumes "wf s" and "\<not> free_of_charge req"
  obtains (stop) r s' where "\<not> is_Ok r" and "wf s'" and "\<And>next. gate next now cs req s = (r, s')"
  | (pass) x s' where "passes now req s x s'" and "\<And>next. gate next now cs req s = next now (Some x) req s'"
proof (cases "gate_plan price verify now req")
  case (Inl r)
  with assms show ?thesis by (intro stop [of r s] gate_stop gate_plan_Inl)
next
  case (Inr q)
  obtain i p where q: "q = (i, p)" by (cases q)
  have p: "in_int64 p" using Inr q by (auto simp: gate_plan_Inr intro: price_int64)
  obtain d s1 where d: "deduct i p s = (d, s1)" by (cases "deduct i p s")
  have w: "wf s1" using deduct_refines [OF assms(1) p, of i] d by simp
  show ?thesis
  proof (cases d)
    case (Ok x)
    with d Inr q assms show ?thesis
      by (intro pass [of x s1] passes_intro) (simp_all add: interceptor_plan)
  next
    case (Err e)
    with d Inr q assms w show ?thesis
      by (intro stop [of "Err (Status Internal ''failed to deduct: %s'')" s1]) (simp_all add: interceptor_plan)
  next
    case (Panic m)
    with d Inr q assms w show ?thesis by (intro stop [of "Panic m" s1]) (simp_all add: interceptor_plan)
  qed
qed

lemma gate_admits:
  assumes "wf s" and "\<not> free_of_charge req" and "gate_plan price verify now req = Inr (i, p)"
    and "0 < p" and "p \<le> bal (led s) i"
  shows "\<exists>s'. wf s' \<and> led s' = (led s)(i \<mapsto> bal (led s) i - p) \<and>
    (\<forall>next. gate next now cs req s = next now (Some \<lparr>se_SessionId = i, se_Balance = bal (led s) i - p\<rparr>) req s')"
proof -
  obtain x s' where d: "deduct i p s = (Ok x, s')"
    using deduct_affordable [OF assms(1,4,5)] by blast
  have p: "in_int64 p" using assms(3) by (auto simp: gate_plan_Inr intro: price_int64)
  have a: "x = \<lparr>se_SessionId = i, se_Balance = bal (led s) i - p\<rparr>"
    "led s' = (led s)(i \<mapsto> bal (led s) i - p)" "wf s'"
    using deduct_admitted [OF assms(1) p, of i x] d by auto
  with d assms(2,3) show ?thesis by (auto simp: interceptor_plan)
qed

text \<open>A request the session cannot pay for does not reach the handler.\<close>

lemma gate_refuses:
  assumes "wf s" and "\<not> free_of_charge req" and "gate_plan price verify now req = Inr (i, p)"
    and "bal (led s) i < p"
  shows "\<exists>r s'. \<not> is_Ok r \<and> (\<forall>next. gate next now cs req s = (r, s'))"
proof -
  have "in_int64 p" using assms(3) by (auto simp: gate_plan_Inr intro: price_int64)
  then have "\<not> is_Ok (fst (deduct i p s))" by (rule deduct_refused [OF assms(1) _ assms(4)])
  with assms(2,3) show ?thesis
    by (cases "deduct i p s"; cases "fst (deduct i p s)") (auto simp: interceptor_plan)
qed

end

subsection \<open>The service's managers provide it\<close>

text \<open>A token of the service's own: HS256-signed under its secret, with dates that hold.\<close>

definition own_token :: "jwt_decoder \<Rightarrow> jwt_verifier \<Rightarrow> StaticAuthManager \<Rightarrow> string \<Rightarrow> jwt_claims \<Rightarrow> int \<Rightarrow> bool" where
  "own_token decode verifies a tok cl now \<longleftrightarrow>
     (\<exists>t c r. decode tok c = Some t \<and> tk_Claims t = cl \<and> tk_Method t = SigningMethodHMAC ''HS256'' \<and>
        verifies (SigningMethodHMAC ''HS256'') (Secret (am_jwtSecret a)) tok \<and>
        registered_of cl = Some r \<and> dates_valid r now)"

lemma verify_own_token:
  "jwt_contract J decode verifies \<Longrightarrow> VerifyAndParseJwt J a tok c True now = Ok cl \<Longrightarrow>
     own_token decode verifies a tok cl now"
  using verify_self_sound [of J decode verifies a tok c now cl] by (auto simp: own_token_def)

locale token_redis = redis_contract R view clock up
  for R :: "'r redis_client" and view clock up +
  fixes J :: jwt_lib and decode :: jwt_decoder and verifies :: jwt_verifier
  assumes jwt: "jwt_contract J decode verifies"

sublocale token_redis \<subseteq> paid: session_gate
    "sm_CreateSession L R m" "sm_DeductSessionBalance R" "hashToSessionId L m"
    "session_led view" "sessions_wf view up" GetPrice "VerifyAndParseJwt J a" "own_token decode verifies a"
    for L m a
  by unfold_locales (auto intro: GetPrice_in_int64 verify_own_token [OF jwt])

context token_redis
begin

lemmas paid_cases = paid.gate_cases
lemmas paid_passes = paid.passes_def
lemmas paid_admits = paid.gate_admits
lemmas paid_refuses = paid.gate_refuses

end

interpretation mem_tokens: token_redis mem_redis mkeys mclock mup demo_jwt "table_decode demo_tokens" demo_verifies
  by unfold_locales (rule demo_jwt_contract)

subsection \<open>Properties\<close>

text \<open>
  C14. Only paid requests reach a handler. A request to a procedure that is not free either stops
  at the interceptor with an error, whatever the handler is, or it carries a bearer token that is
  the service's own, HS256-signed and unexpired, with the usage of a session token, and the price
  of the request, which is positive and covered by the session's balance, has been taken from the
  session the token names and from no other before the handler runs.
\<close>

theorem only_paid_requests_served:
  assumes "redis_contract R view clock up" and "jwt_contract J decode verifies"
    and "sessions_wf view up s" and "\<not> free_of_charge req"
  shows "(\<exists>r s'. \<not> is_Ok r \<and> (\<forall>next.
        NewConnectUnarySessionInterceptor (sm_DeductSessionBalance R) GetPrice (VerifyAndParseJwt J a) next now cs req s = (r, s'))) \<or>
    (\<exists>tok c r p s'. bearer req = Some tok \<and> own_token decode verifies a tok (SessionClaims c) now \<and>
        sj_Usage c = JWT_USAGE_MANAGE_SESSION \<and> sj_RegisteredClaims c = Some r \<and>
        GetPrice req = Inr p \<and> 0 < p \<and> p \<le> bal (session_led view s) (rc_Subject r) \<and>
        session_led view s' = (session_led view s)(rc_Subject r \<mapsto> bal (session_led view s) (rc_Subject r) - p) \<and>
        (\<exists>x. \<forall>next. NewConnectUnarySessionInterceptor (sm_DeductSessionBalance R) GetPrice (VerifyAndParseJwt J a) next now cs req s
           = next now (Some x) req s'))"
proof -
  have l: "token_redis R view clock up J decode verifies"
    using assms(1,2) by (simp add: token_redis_def token_redis_axioms_def)
  show ?thesis
  proof (cases rule: token_redis.paid_cases [OF l assms(3,4), of a now cs, case_names stop pass])
    case (stop r s')
    then show ?thesis by (intro disjI1 exI [of _ r] exI [of _ s']) simp
  next
    case (pass x s')
    from pass(1) [unfolded token_redis.paid_passes [OF l]] obtain tok c r p where
      "bearer req = Some tok" "own_token decode verifies a tok (SessionClaims c) now"
      "sj_Usage c = JWT_USAGE_MANAGE_SESSION" "sj_RegisteredClaims c = Some r" "GetPrice req = Inr p" "0 < p"
      "p \<le> bal (session_led view s) (rc_Subject r)"
      "session_led view s' = (session_led view s)(rc_Subject r \<mapsto> bal (session_led view s) (rc_Subject r) - p)"
      by (elim exE conjE)
    with pass(2) show ?thesis
      by (intro disjI2 exI [of _ tok] exI [of _ c] exI [of _ r] exI [of _ p] exI [of _ s'] exI [of _ x] conjI allI)
  qed
qed

definition demo_request :: AnyRequest where
  "demo_request = \<lparr>Procedure = GetValueProcedure, AuthorizationHeader = [''Bearer sess''],
     AnyMsg = MGetValue \<lparr>gv_Name = ''values/ra''\<rparr>\<rparr>"

definition demo_funded :: mem where
  "demo_funded = \<lparr>mclock = 1000, mkeys = [session_key demo_sid \<mapsto> (RStr (itoa 10), None)]\<rparr>"

lemma demo_funded_wf: "sessions_wf mkeys mup demo_funded" "session_led mkeys demo_funded = [demo_sid \<mapsto> 10]"
proof -
  have i: "in_int64 10" by (simp add: in_int64_def int64_min_def int64_max_def)
  then show "sessions_wf mkeys mup demo_funded"
    by (auto simp: sessions_wf_def demo_funded_def mup_def split: if_splits)
  show "session_led mkeys demo_funded = [demo_sid \<mapsto> 10]"
    by (rule ext) (auto simp: session_led_def demo_funded_def Atoi_itoa [OF i])
qed

lemma demo_not_free: "\<not> free_of_charge demo_request"
  by (simp add: free_of_charge_def skipAuth_def demo_request_def procedure_defs)

lemma demo_bearer: "EqualFold ''Bearer'' ''bearer''"
  by code_simp

lemma demo_plan: "gate_plan GetPrice (VerifyAndParseJwt demo_jwt demo_auth) (1000 * Second) demo_request = Inr (demo_sid, 1)"
  by (simp add: gate_plan_def bearer_def demo_request_def HeaderGet_def VerifyAndParseJwt_def selfKeyFunc_def GetPrice_def
      demo_bearer empty_session_claims_def demo_jwt_defs procedure_defs Second_def)

theorem only_paid_requests_served_witness:
  "\<exists>tok c r p s'. bearer demo_request = Some tok \<and> own_token (table_decode demo_tokens) demo_verifies demo_auth tok (SessionClaims c) (1000 * Second) \<and>
     sj_RegisteredClaims c = Some r \<and> GetPrice demo_request = Inr p \<and> 0 < p \<and>
     session_led mkeys (s' :: mem) = [demo_sid \<mapsto> 10, rc_Subject r \<mapsto> bal [demo_sid \<mapsto> 10] (rc_Subject r) - p]"
proof -
  have "is_Ok (fst (NewConnectUnarySessionInterceptor (sm_DeductSessionBalance mem_redis) GetPrice
      (VerifyAndParseJwt demo_jwt demo_auth) (\<lambda>now cs req s. (Ok RRegisterInstance, s)) (1000 * Second) None demo_request demo_funded))"
    using mem_tokens.paid_admits [OF demo_funded_wf(1) demo_not_free demo_plan, of None]
    by (auto simp: demo_funded_wf bal_def)
  then have "\<not> (\<exists>r s'. \<not> is_Ok r \<and> (\<forall>next. NewConnectUnarySessionInterceptor (sm_DeductSessionBalance mem_redis) GetPrice
      (VerifyAndParseJwt demo_jwt demo_auth) next (1000 * Second) None demo_request demo_funded = (r, s')))"
    by (metis fst_conv)
  with only_paid_requests_served [OF mem.redis_contract_axioms demo_jwt_contract demo_funded_wf(1) demo_not_free, of demo_auth "1000 * Second" None]
  show ?thesis unfolding demo_funded_wf(2)
    by (elim disjE) (erule notE, assumption, elim exE conjE, intro exI conjI, assumption+)
qed

text \<open>
  C23. A paid request is served. With an unexpired session token under the service's secret in the
  header and a balance that covers the price, the interceptor calls the handler, with the session
  and its new balance in the context, and the balance in Redis is lower by exactly the price.
\<close>

theorem paid_request_served:
  assumes "redis_contract R view clock up" and "jwt_contract J decode verifies"
    and "sessions_wf view up s" and "\<not> free_of_charge req" and "bearer req = Some tok"
    and "decode tok (SessionClaims empty_session_claims) = Some t" and "tk_Method t = SigningMethodHMAC ''HS256''"
    and "verifies (SigningMethodHMAC ''HS256'') (Secret (am_jwtSecret a)) tok"
    and "tk_Claims t = SessionClaims c" and "sj_Usage c = JWT_USAGE_MANAGE_SESSION"
    and "sj_RegisteredClaims c = Some r" and "dates_valid r now"
    and "GetPrice req = Inr p" and "0 < p" and "p \<le> bal (session_led view s) (rc_Subject r)"
  shows "\<exists>s'. session_led view s' = (session_led view s)(rc_Subject r \<mapsto> bal (session_led view s) (rc_Subject r) - p) \<and>
    (\<forall>next. NewConnectUnarySessionInterceptor (sm_DeductSessionBalance R) GetPrice (VerifyAndParseJwt J a) next now cs req s =
       next now (Some \<lparr>se_SessionId = rc_Subject r, se_Balance = bal (session_led view s) (rc_Subject r) - p\<rparr>) req s')"
proof -
  have l: "token_redis R view clock up J decode verifies"
    using assms(1,2) by (simp add: token_redis_def token_redis_axioms_def)
  have "VerifyAndParseJwt J a tok (SessionClaims empty_session_claims) True now = Ok (tk_Claims t)"
    using assms(9,11) by (intro verify_self_accept [OF assms(2,6,7,8) _ assms(12)]) simp
  then have "gate_plan GetPrice (VerifyAndParseJwt J a) now req = Inr (rc_Subject r, p)"
    using assms(5,9-11,13) by (auto simp: gate_plan_Inr)
  from token_redis.paid_admits [OF l assms(3,4) this assms(14,15), of cs]
  show ?thesis by (elim exE conjE) (intro exI conjI)
qed

theorem paid_request_served_witness:
  "\<exists>s'. session_led mkeys (s' :: mem) = [demo_sid \<mapsto> 9] \<and>
    (\<forall>next. NewConnectUnarySessionInterceptor (sm_DeductSessionBalance mem_redis) GetPrice (VerifyAndParseJwt demo_jwt demo_auth)
        next (1000 * Second) None demo_request demo_funded =
       next (1000 * Second) (Some \<lparr>se_SessionId = demo_sid, se_Balance = 9\<rparr>) demo_request s')"
proof -
  have b: "bearer demo_request = Some ''sess''"
    by (simp add: bearer_def demo_request_def HeaderGet_def demo_bearer)
  have p: "GetPrice demo_request = Inr 1"
    by (simp add: GetPrice_def demo_request_def procedure_defs)
  have c: "sj_Usage demo_session_claims = JWT_USAGE_MANAGE_SESSION"
    "dates_valid (the (sj_RegisteredClaims demo_session_claims)) (1000 * Second)"
    "sj_RegisteredClaims demo_session_claims = Some (the (sj_RegisteredClaims demo_session_claims))"
    "rc_Subject (the (sj_RegisteredClaims demo_session_claims)) = demo_sid"
    by (simp_all add: demo_session_claims_def dates_valid_def Second_def)
  have v: "demo_verifies (SigningMethodHMAC ''HS256'') (Secret (am_jwtSecret demo_auth)) ''sess''"
    by (simp add: demo_verifies_def demo_auth_def)
  from paid_request_served [OF mem.redis_contract_axioms demo_jwt_contract demo_funded_wf(1) demo_not_free b
      demo_sess_decode _ v _ c(1) c(3) c(2) p, of None]
  show ?thesis by (simp add: demo_funded_wf bal_def c(4))
qed

end
