(* ===== verification/Configuration.thy ===== *)
theory Configuration
  imports Demo_Libs
begin

section \<open>Configuration and keys (\<open>internal/api/config.go\<close>)\<close>

text \<open>
  The settings are read by \<open>viper\<close> (its two results are arguments), the keys are derived from a
  seed with HKDF (\<open>golang.org/x/crypto\<close>, a parameter). \<open>log.Fatalf\<close> ends the process.
\<close>

subsection \<open>The code\<close>

record Config =
  cf_RedisHost :: string
  cf_RedisPort :: int
  cf_GrpcPort :: int
  cf_DisableAuth :: bool
  cf_TokenTtl :: int
  cf_SelfIdentifier :: string
  cf_TokenSigningKeyId :: string
  cf_SecretSeedEncoded :: string
  cf_ExchangeAccountPrivateKey :: bytes
  cf_Libp2pPrivateKey :: bytes
  cf_JwtSecret :: bytes
  cf_QuotaAuthorityDid :: string
  cf_QuotaAuthorityPublicKey :: bytes

text \<open>
  The functions of the crypto packages: \<open>hkdf\<close> gives the first 32 bytes of the key stream for a
  seed and an info string, or the reader's error; the other two make a private key from a seed.
\<close>

record crypto_libs =
  hkdf32 :: "bytes \<Rightarrow> string \<Rightarrow> go_error + bytes"
  NewKeyFromSeed :: "bytes \<Rightarrow> bytes"
  GenerateEd25519Key :: "bytes \<Rightarrow> go_error + bytes"

definition mustParseEd25519DidKey :: "libs \<Rightarrow> string \<Rightarrow> bytes result" where
  "mustParseEd25519DidKey L didString =
     (case CutPrefix didString ''did:key:z'' of
        (base58Str, found) \<Rightarrow>
          if \<not> found then Panic ''invalid did key: %s''
          else
            (case base58_Decode L base58Str of
               Inl e \<Rightarrow> Panic ''failed to decode: %s''
             | Inr didBytes \<Rightarrow>
                 if length didBytes \<noteq> 34 \<or> didBytes ! 0 \<noteq> CHR 0xED \<or> didBytes ! 1 \<noteq> CHR 0x01
                 then Panic ''did is not ed25519: %v''
                 else Ok (drop 2 didBytes)))"

definition DeriveKey :: "crypto_libs \<Rightarrow> bytes \<Rightarrow> string \<Rightarrow> go_error + bytes" where
  "DeriveKey C seed info =
     (case hkdf32 C seed info of
        Inl e \<Rightarrow> Inl (Errorf ''failed to derive secret %s: %v'')
      | Inr secret \<Rightarrow> Inr secret)"

text \<open>\<open>hash.Hash.Sum(b)\<close> appends the hash of what was written so far to \<open>b\<close>; here nothing was written.\<close>

definition sha256_New_Sum :: "bytes \<Rightarrow> bytes" where
  "sha256_New_Sum b = b @ sha256 ''''"

definition LoadConfig ::
    "libs \<Rightarrow> crypto_libs \<Rightarrow> go_error option \<Rightarrow> (go_error + Config) \<Rightarrow> Config result" where
  "LoadConfig L C readErr unmarshalled =
     (case readErr of
        Some e \<Rightarrow> Panic ''config: %v''
      | None \<Rightarrow>
     (case unmarshalled of
        Inl e \<Rightarrow> Panic ''config: %v''
      | Inr config \<Rightarrow>
     (case base64_DecodeString (cf_SecretSeedEncoded config) of
        Inl e \<Rightarrow> Panic ''config: failed to parse secret: %v''
      | Inr seed \<Rightarrow>
     (case DeriveKey C seed ''JwtSecret'' of
        Inl e \<Rightarrow> Panic ''config: failed to derive key: %v''
      | Inr jwtSecret \<Rightarrow>
          let config = config\<lparr>cf_JwtSecret := jwtSecret,
                cf_TokenSigningKeyId := base58_Encode L (sha256_New_Sum jwtSecret)\<rparr>
          in
     (case DeriveKey C seed ''ExchangeKey'' of
        Inl e \<Rightarrow> Panic ''config: failed to derive key: %v''
      | Inr exchangeKeySeed \<Rightarrow>
          let config = config\<lparr>cf_ExchangeAccountPrivateKey := NewKeyFromSeed C exchangeKeySeed\<rparr>
          in
     (case DeriveKey C seed ''Libp2p'' of
        Inl e \<Rightarrow> Panic ''config: failed to derive key: %v''
      | Inr libp2pSeed \<Rightarrow>
     (case GenerateEd25519Key C libp2pSeed of
        Inl e \<Rightarrow> Panic ''config: failed to generate libp2p key: %v''
      | Inr libp2pKey \<Rightarrow>
          let config = config\<lparr>cf_Libp2pPrivateKey := libp2pKey\<rparr>
          in
     (case mustParseEd25519DidKey L (cf_QuotaAuthorityDid config) of
        Panic m \<Rightarrow> Panic m
      | Err e \<Rightarrow> Err e
      | Ok pk \<Rightarrow> Ok (config\<lparr>cf_QuotaAuthorityPublicKey := pk\<rparr>)))))))))"

subsection \<open>What is relied on\<close>

text \<open>The package decodes what it encoded; it refuses the empty string.\<close>

definition base58_roundtrip :: "libs \<Rightarrow> bool" where
  "base58_roundtrip L \<longleftrightarrow> (\<forall>b. b \<noteq> [] \<longrightarrow> base58_Decode L (base58_Encode L b) = Inr b)"

text \<open>\<open>io.ReadFull\<close> fills the buffer of 32 bytes or fails.\<close>

definition hkdf_full :: "crypto_libs \<Rightarrow> bool" where
  "hkdf_full C \<longleftrightarrow> (\<forall>seed info k. hkdf32 C seed info = Inr k \<longrightarrow> length k = 32)"

lemma LoadConfig_Ok:
  assumes "LoadConfig L C readErr unmarshalled = Ok conf"
  shows "\<exists>config seed. unmarshalled = Inr config \<and> base64_DecodeString (cf_SecretSeedEncoded config) = Inr seed \<and>
    hkdf32 C seed ''JwtSecret'' = Inr (cf_JwtSecret conf) \<and>
    cf_TokenSigningKeyId conf = base58_Encode L (sha256_New_Sum (cf_JwtSecret conf)) \<and>
    cf_QuotaAuthorityDid conf = cf_QuotaAuthorityDid config \<and>
    mustParseEd25519DidKey L (cf_QuotaAuthorityDid conf) = Ok (cf_QuotaAuthorityPublicKey conf)"
  using assms
  by (auto simp: LoadConfig_def DeriveKey_def Let_def split: option.splits sum.splits result.splits)

lemma signing_key_id_secret:
  assumes "base58_roundtrip L" and "hkdf_full C" and "LoadConfig L C readErr unmarshalled = Ok conf"
  shows "\<exists>b. base58_Decode L (cf_TokenSigningKeyId conf) = Inr b \<and> take 32 b = cf_JwtSecret conf"
proof -
  obtain seed where k: "hkdf32 C seed ''JwtSecret'' = Inr (cf_JwtSecret conf)"
    and i: "cf_TokenSigningKeyId conf = base58_Encode L (sha256_New_Sum (cf_JwtSecret conf))"
    using LoadConfig_Ok [OF assms(3)] by blast
  have "length (cf_JwtSecret conf) = 32" using assms(2) k unfolding hkdf_full_def by blast
  moreover from this have "sha256_New_Sum (cf_JwtSecret conf) \<noteq> []" by (auto simp: sha256_New_Sum_def)
  ultimately show ?thesis using assms(1) i by (simp add: base58_roundtrip_def) (simp add: sha256_New_Sum_def)
qed

subsection \<open>Properties\<close>

definition demo_crypto :: crypto_libs where
  "demo_crypto = \<lparr>hkdf32 = (\<lambda>seed info. Inr (replicate 32 CHR ''k'')), NewKeyFromSeed = id, GenerateEd25519Key = Inr\<rparr>"

definition demo_did_bytes :: bytes where
  "demo_did_bytes = [CHR 0xED, CHR 0x01] @ replicate 32 CHR ''q''"

definition demo_config :: Config where
  "demo_config = \<lparr>cf_RedisHost = ''localhost'', cf_RedisPort = 6379, cf_GrpcPort = 50051, cf_DisableAuth = False,
     cf_TokenTtl = 3600 * Second, cf_SelfIdentifier = ''did:example:pkv'', cf_TokenSigningKeyId = '''',
     cf_SecretSeedEncoded = '''', cf_ExchangeAccountPrivateKey = '''', cf_Libp2pPrivateKey = '''', cf_JwtSecret = '''',
     cf_QuotaAuthorityDid = ''did:key:z'' @ hex demo_did_bytes, cf_QuotaAuthorityPublicKey = ''''\<rparr>"

lemma demo_base58: "base58_roundtrip demo_libs"
  by (simp add: base58_roundtrip_def demo_libs_def)

lemma demo_hkdf: "hkdf_full demo_crypto"
  by (simp add: hkdf_full_def demo_crypto_def)

lemma demo_did_key: "mustParseEd25519DidKey demo_libs (''did:key:z'' @ hex demo_did_bytes) = Ok (replicate 32 CHR ''q'')"
  unfolding mustParseEd25519DidKey_def CutPrefix_append
  by (simp add: demo_libs_def demo_did_bytes_def del: replicate.simps hex.simps)

lemma demo_LoadConfig: "\<exists>conf. LoadConfig demo_libs demo_crypto None (Inr demo_config) = Ok conf"
proof -
  have "mustParseEd25519DidKey demo_libs (cf_QuotaAuthorityDid demo_config) = Ok (replicate 32 CHR ''q'')"
    using demo_did_key by (simp add: demo_config_def)
  moreover have "base64_DecodeString (cf_SecretSeedEncoded demo_config) = Inr []"
    by (simp add: demo_config_def base64_DecodeString_def)
  ultimately show ?thesis
    by (simp add: LoadConfig_def DeriveKey_def demo_crypto_def del: replicate.simps)
qed

text \<open>
  C33. \<open>mustParseEd25519DidKey\<close> reads exactly the Ed25519 \<open>did:key\<close> form. It returns a key of 32 bytes
  for the encoding of that key with the Ed25519 prefix, and whenever it returns, the argument was
  such an encoding of the result; anything else ends the process.
\<close>

theorem did_key_roundtrip:
  assumes "base58_roundtrip L" and "length k = 32"
  shows "mustParseEd25519DidKey L (''did:key:z'' @ base58_Encode L (CHR 0xED # CHR 0x01 # k)) = Ok k \<and>
    (\<forall>did k'. mustParseEd25519DidKey L did = Ok k' \<longrightarrow>
       length k' = 32 \<and> (\<exists>x. did = ''did:key:z'' @ x \<and> base58_Decode L x = Inr (CHR 0xED # CHR 0x01 # k')))"
proof (intro conjI allI impI)
  show "mustParseEd25519DidKey L (''did:key:z'' @ base58_Encode L (CHR 0xED # CHR 0x01 # k)) = Ok k"
    using assms unfolding mustParseEd25519DidKey_def CutPrefix_append by (simp add: base58_roundtrip_def)
next
  fix did k' assume ok: "mustParseEd25519DidKey L did = Ok k'"
  obtain x fnd where c: "CutPrefix did ''did:key:z'' = (x, fnd)" by (cases "CutPrefix did ''did:key:z''")
  with ok obtain b where b: fnd "base58_Decode L x = Inr b" "length b = 34" "b ! 0 = CHR 0xED" "b ! 1 = CHR 0x01" "k' = drop 2 b"
    by (auto simp: mustParseEd25519DidKey_def split: if_splits sum.splits)
  then show "length k' = 32" by simp
  have "did = ''did:key:z'' @ x" using c b(1) CutPrefix_found by simp
  moreover have "b = CHR 0xED # CHR 0x01 # k'"
    using b(3-6) by (cases b; cases "tl b") auto
  ultimately show "\<exists>x. did = ''did:key:z'' @ x \<and> base58_Decode L x = Inr (CHR 0xED # CHR 0x01 # k')"
    using b(2) by blast
qed

theorem did_key_roundtrip_witness:
  "mustParseEd25519DidKey demo_libs (''did:key:z'' @ base58_Encode demo_libs (CHR 0xED # CHR 0x01 # replicate 32 CHR ''q''))
     = Ok (replicate 32 CHR ''q'')"
  using did_key_roundtrip [OF demo_base58, of "replicate 32 CHR ''q''"] by (simp del: replicate.simps append.simps)

end
