(* ===== verification/Login.thy ===== *)
theory Login
  imports Interceptor Configuration
begin

section \<open>Opening a session (\<open>internal/api/login.go\<close>)\<close>

text \<open>
  A quota token from a trusted exchange is turned into a session with a balance and a session
  token of the service's own. The identifier \<open>uuid.NewString()\<close> makes and the time are arguments.
\<close>

subsection \<open>The code\<close>

definition session_token :: "jwt_lib \<Rightarrow> Config \<Rightarrow> string \<Rightarrow> string \<Rightarrow> int \<Rightarrow> jwt_token" where
  "session_token J conf uuid sessionId expireAt =
     \<lparr>tk_Method = SigningMethodHMAC ''HS256'', tk_Kid = Some (cf_TokenSigningKeyId conf),
      tk_Claims = SessionClaims \<lparr>
        sj_RegisteredClaims = Some \<lparr>
          rc_Issuer = cf_SelfIdentifier conf,
          rc_Subject = sessionId,
          rc_Audience = [cf_SelfIdentifier conf],
          rc_ExpiresAt = Some (NewNumericDate J expireAt),
          rc_NotBefore = None,
          rc_IssuedAt = None,
          rc_ID = uuid\<rparr>,
        sj_Usage = JWT_USAGE_MANAGE_SESSION\<rparr>\<rparr>"

definition generateJwt :: "jwt_lib \<Rightarrow> Config \<Rightarrow> string \<Rightarrow> string \<Rightarrow> int \<Rightarrow> go_error + string" where
  "generateJwt J conf uuid sessionId expireAt =
     (let token = session_token J conf uuid sessionId expireAt
      in case SignedString J token (Secret (cf_JwtSecret conf)) of
           Inl e \<Rightarrow> Inl (Status InvalidArgument ''failed to sign jwt: %v'')
         | Inr jwt \<Rightarrow> Inr jwt)"

text \<open>
  The condition on the expiry formats \<open>err.Error()\<close> also when \<open>err\<close> is \<open>nil\<close>, which is the case
  whenever the expiry is missing or past; a method call on a \<open>nil\<close> error panics.
\<close>

definition CreateSession ::
    "jwt_lib \<Rightarrow> Config \<Rightarrow> (string \<Rightarrow> jwt_claims \<Rightarrow> bool \<Rightarrow> int \<Rightarrow> jwt_claims result) \<Rightarrow>
     (string \<Rightarrow> int \<Rightarrow> int \<Rightarrow> 'r \<Rightarrow> Session result \<times> 'r) \<Rightarrow> string \<Rightarrow> int \<Rightarrow> CreateSessionRequest \<Rightarrow> 'r \<Rightarrow>
     CreateSessionResponse result \<times> 'r" where
  "CreateSession J conf verify create uuid now req s =
     (case verify (cs_Jwt req) (CreateSessionClaims empty_create_claims) False now of
        Panic m \<Rightarrow> (Panic m, s)
      | Err e \<Rightarrow> (Err e, s)
      | Ok claims \<Rightarrow>
          (case claims of
             CreateSessionClaims createSessionClaims \<Rightarrow>
               (case cj_SessionJwtClaims createSessionClaims of
                  None \<Rightarrow> (Panic nil_deref, s)
                | Some sc \<Rightarrow>
                    if sj_Usage sc \<noteq> JWT_USAGE_CREATE_SESSION
                    then (Err (Status PermissionDenied ''expected token usage %d but got %d''), s)
                    else if cj_Quantity createSessionClaims \<le> 0
                    then (Err (Status InvalidArgument ''initial balance must be positive but go5 %d''), s)
                    else
                      (case GetExpirationTime claims of
                         Panic m \<Rightarrow> (Panic m, s)
                       | Err e \<Rightarrow> (Err (Status InvalidArgument ''failed to parse expire time: %s''), s)
                       | Ok None \<Rightarrow> (Panic nil_deref, s)
                       | Ok (Some expireAt) \<Rightarrow>
                           if expireAt - now < 0 then (Panic nil_deref, s)
                           else
                             (case sj_RegisteredClaims sc of
                                None \<Rightarrow> (Panic nil_deref, s)
                              | Some r \<Rightarrow>
                                  (case create (rc_ID r) (cj_Quantity createSessionClaims) (expireAt - now) s of
                                     (Panic m, s1) \<Rightarrow> (Panic m, s1)
                                   | (Err e, s1) \<Rightarrow> (Err (Status Internal ''failed to create session: %s''), s1)
                                   | (Ok session, s1) \<Rightarrow>
                                       (case generateJwt J conf uuid (se_SessionId session) expireAt of
                                          Inl e \<Rightarrow> (Err (Status Internal ''failed to create jwt: %s''), s1)
                                        | Inr jwt \<Rightarrow>
                                            (Ok \<lparr>csr_Session = Some session, csr_Jwt = jwt\<rparr>, s1))))))
           | _ \<Rightarrow> (Err (Status InvalidArgument ''failed to parse session jwt''), s)))"

subsection \<open>When a session is opened\<close>

text \<open>The claims of a quota token that the handler accepts at a time.\<close>

definition quota_claims :: "jwt_claims \<Rightarrow> int \<Rightarrow> RegisteredClaims \<Rightarrow> int \<Rightarrow> int \<Rightarrow> bool" where
  "quota_claims cl now r q expireAt \<longleftrightarrow>
     (\<exists>sc. cl = CreateSessionClaims \<lparr>cj_SessionJwtClaims = Some sc, cj_Quantity = q\<rparr> \<and>
        sj_Usage sc = JWT_USAGE_CREATE_SESSION \<and> sj_RegisteredClaims sc = Some r \<and>
        0 < q \<and> rc_ExpiresAt r = Some expireAt \<and> now \<le> expireAt)"

lemma CreateSession_Ok:
  "CreateSession J conf verify create uuid now req s = (Ok resp, s1) \<longleftrightarrow>
     (\<exists>cl r q expireAt session jwt. verify (cs_Jwt req) (CreateSessionClaims empty_create_claims) False now = Ok cl \<and>
        quota_claims cl now r q expireAt \<and>
        create (rc_ID r) q (expireAt - now) s = (Ok session, s1) \<and>
        generateJwt J conf uuid (se_SessionId session) expireAt = Inr jwt \<and>
        resp = \<lparr>csr_Session = Some session, csr_Jwt = jwt\<rparr>)" (is "?l \<longleftrightarrow> ?r")
proof
  assume ?l
  then obtain cl where v: "verify (cs_Jwt req) (CreateSessionClaims empty_create_claims) False now = Ok cl"
    by (auto simp: CreateSession_def split: result.splits)
  with \<open>?l\<close> obtain c sc where c: "cl = CreateSessionClaims c" "cj_SessionJwtClaims c = Some sc"
    by (auto simp: CreateSession_def split: jwt_claims.splits option.splits)
  with \<open>?l\<close> v obtain r e where r: "sj_Usage sc = JWT_USAGE_CREATE_SESSION" "0 < cj_Quantity c" "sj_RegisteredClaims sc = Some r"
      "rc_ExpiresAt r = Some e" "now \<le> e"
    by (auto simp: CreateSession_def GetExpirationTime_def split: if_splits option.splits)
  with \<open>?l\<close> v c obtain x where x: "create (rc_ID r) (cj_Quantity c) (e - now) s = (Ok x, s1)"
    by (auto simp: CreateSession_def GetExpirationTime_def split: prod.splits result.splits sum.splits)
  with \<open>?l\<close> v c r obtain j where j: "generateJwt J conf uuid (se_SessionId x) e = Inr j" "resp = \<lparr>csr_Session = Some x, csr_Jwt = j\<rparr>"
    by (auto simp: CreateSession_def GetExpirationTime_def split: sum.splits)
  have "quota_claims cl now r (cj_Quantity c) e" using c r by (cases c) (auto simp: quota_claims_def)
  with v x j show ?r by blast
next
  assume ?r
  then show ?l by (auto simp: CreateSession_def quota_claims_def GetExpirationTime_def)
qed

lemma CreateSession_accepts:
  assumes "redis_contract R view clock up" and "jwt_contract J decode verifies" and "jwt_int64 decode"
    and "sessions_wf view up s"
    and "CreateSession J conf (VerifyAndParseJwt J am) (sm_CreateSession L R m) uuid now req s = (Ok resp, s1)"
  shows "\<exists>cl r q expireAt pk session. quota_claims cl now r q expireAt \<and>
    am_trustedIssuers am (rc_Issuer r) = Some pk \<and> verifies SigningMethodEd25519 (PublicKey pk) (cs_Jwt req) \<and>
    dates_valid r now \<and> csr_Session resp = Some session \<and> se_SessionId session = hashToSessionId L m (rc_ID r) \<and>
    sessions_wf view up s1 \<and> session_led view s1 = (session_led view s)(se_SessionId session \<mapsto> se_Balance session)"
proof -
  obtain cl r q e x j where c: "VerifyAndParseJwt J am (cs_Jwt req) (CreateSessionClaims empty_create_claims) False now = Ok cl"
      "quota_claims cl now r q e" "sm_CreateSession L R m (rc_ID r) q (e - now) s = (Ok x, s1)"
      "resp = \<lparr>csr_Session = Some x, csr_Jwt = j\<rparr>"
    using assms(5) unfolding CreateSession_Ok by blast
  have g: "registered_of cl = Some r" using c(2) by (auto simp: quota_claims_def)
  obtain t pk where t: "decode (cs_Jwt req) (CreateSessionClaims empty_create_claims) = Some t" "tk_Claims t = cl"
      "am_trustedIssuers am (rc_Issuer r) = Some pk" "verifies SigningMethodEd25519 (PublicKey pk) (cs_Jwt req)" "dates_valid r now"
    using verify_exchange_sound [OF assms(2) c(1)] g by auto
  obtain sc where "tk_Claims t = CreateSessionClaims \<lparr>cj_SessionJwtClaims = Some sc, cj_Quantity = q\<rparr>"
    using c(2) t(2) by (auto simp: quota_claims_def)
  from assms(3) [unfolded jwt_int64_def, rule_format, OF t(1) this] have "in_int64 q" by simp
  from redis_contract.create_session_refines [OF assms(1,4) this, of L m "rc_ID r" "e - now"] c(3)
  have x: "x = \<lparr>se_SessionId = hashToSessionId L m (rc_ID r), se_Balance = fst (ledger_create (hashToSessionId L m (rc_ID r)) q (session_led view s))\<rparr>"
    "session_led view s1 = snd (ledger_create (hashToSessionId L m (rc_ID r)) q (session_led view s))" "sessions_wf view up s1"
    by simp_all
  have "session_led view s1 = (session_led view s)(se_SessionId x \<mapsto> se_Balance x)"
    unfolding x(1,2) by (auto simp: ledger_create_def split: option.split)
  with c(2,4) t(3-5) x show ?thesis
    by (intro exI [of _ cl] exI [of _ r] exI [of _ q] exI [of _ e] exI [of _ pk] exI [of _ x]) simp
qed

lemma CreateSession_ledger:
  assumes "redis_contract R view clock up" and "jwt_contract J decode verifies" and "jwt_int64 decode"
    and "sessions_wf view up s"
    and "CreateSession J conf (VerifyAndParseJwt J am) (sm_CreateSession L R m) uuid now req s = (Ok resp, s1)"
    and "csr_Session resp = Some session"
  shows "sessions_wf view up s1" and "session_led view s1 = (session_led view s)(se_SessionId session \<mapsto> se_Balance session)"
  using CreateSession_accepts [OF assms(1-5)] assms(6) by auto

subsection \<open>Properties\<close>

text \<open>
  A session is opened for a valid quota token only. If \<open>CreateSession\<close> answers, the token in the
  request is EdDSA-signed under the key of a trusted issuer that it names, its dates hold, its
  usage is to create a session and its quantity is positive; the session's identifier is the salted
  hash of the token's \<open>jti\<close>, and no other balance has changed.
\<close>

theorem session_opened_for_quota_token:
  assumes "redis_contract R view clock up" and "jwt_contract J decode verifies" and "jwt_int64 decode"
    and "sessions_wf view up s"
    and "CreateSession J conf (VerifyAndParseJwt J am) (sm_CreateSession L R m) uuid now req s = (Ok resp, s1)"
  shows "\<exists>cl r q expireAt pk session. quota_claims cl now r q expireAt \<and>
    am_trustedIssuers am (rc_Issuer r) = Some pk \<and> verifies SigningMethodEd25519 (PublicKey pk) (cs_Jwt req) \<and>
    dates_valid r now \<and> csr_Session resp = Some session \<and> se_SessionId session = hashToSessionId L m (rc_ID r) \<and>
    sessions_wf view up s1 \<and> session_led view s1 = (session_led view s)(se_SessionId session \<mapsto> se_Balance session)"
  using CreateSession_accepts [OF assms] .

definition demo_login_config :: Config where
  "demo_login_config = demo_config\<lparr>cf_JwtSecret := ''secret'', cf_TokenSigningKeyId := ''kid''\<rparr>"

lemma demo_quota: "VerifyAndParseJwt demo_jwt demo_auth ''quota'' (CreateSessionClaims empty_create_claims) False (1000 * Second)
    = Ok (CreateSessionClaims demo_quota_claims)"
  by (simp add: VerifyAndParseJwt_def exchangeKeyFunc_def GetIssuer_def demo_jwt_defs Second_def)

lemma demo_jwt_int64: "jwt_int64 (table_decode demo_tokens)"
  by (auto simp: jwt_int64_def table_decode_def demo_tokens_def demo_quota_claims_def empty_create_claims_def
      in_int64_def int64_min_def int64_max_def split: if_splits)

lemma demo_jwt_signs: "jwt_signs demo_jwt (table_decode demo_tokens) demo_verifies"
  unfolding demo_jwt_def by (rule table_signs) (simp add: demo_tokens_def)

lemma demo_generate: "generateJwt demo_jwt demo_login_config ''uuid'' demo_sid (2000000 * Second) = Inr ''sess''"
  by (simp add: generateJwt_def session_token_def demo_login_config_def demo_config_def demo_jwt_def table_jwt_def
      table_sign_def demo_tokens_def demo_session_claims_def demo_verifies_def Second_def)

lemma demo_login:
  "\<exists>s1. CreateSession demo_jwt demo_login_config (VerifyAndParseJwt demo_jwt demo_auth) (sm_CreateSession demo_libs mem_redis demo_salt)
      ''uuid'' (1000 * Second) \<lparr>cs_Jwt = ''quota''\<rparr> demo_mem =
    (Ok \<lparr>csr_Session = Some \<lparr>se_SessionId = demo_sid, se_Balance = 10\<rparr>, csr_Jwt = ''sess''\<rparr>, s1)"
proof -
  have q: "quota_claims (CreateSessionClaims demo_quota_claims) (1000 * Second)
      (empty_registered\<lparr>rc_Issuer := ''did:example:prex'', rc_ExpiresAt := Some (2000000 * Second), rc_ID := ''jti''\<rparr>) 10 (2000000 * Second)"
    by (auto simp: quota_claims_def demo_quota_claims_def empty_registered_def Second_def)
  obtain s1 where "sm_CreateSession demo_libs mem_redis demo_salt ''jti'' 10 (2000000 * Second - 1000 * Second) demo_mem =
      (Ok \<lparr>se_SessionId = demo_sid, se_Balance = 10\<rparr>, s1)"
    by (simp add: sm_CreateSession_def mem_SetNXGet_def demo_mem_def demo_sid_def Let_def)
  with q demo_quota demo_generate show ?thesis
    unfolding CreateSession_Ok by (intro exI [of _ s1]) (fastforce simp: empty_registered_def)
qed

theorem session_opened_for_quota_token_witness:
  "\<exists>(r :: RegisteredClaims) pk. am_trustedIssuers demo_auth (rc_Issuer r) = Some pk \<and> demo_verifies SigningMethodEd25519 (PublicKey pk) ''quota'' \<and>
     demo_sid = hashToSessionId demo_libs demo_salt (rc_ID r)"
proof -
  obtain s1 where l: "CreateSession demo_jwt demo_login_config (VerifyAndParseJwt demo_jwt demo_auth) (sm_CreateSession demo_libs mem_redis demo_salt)
      ''uuid'' (1000 * Second) \<lparr>cs_Jwt = ''quota''\<rparr> demo_mem =
      (Ok \<lparr>csr_Session = Some \<lparr>se_SessionId = demo_sid, se_Balance = 10\<rparr>, csr_Jwt = ''sess''\<rparr>, s1)" using demo_login by blast
  from session_opened_for_quota_token [OF mem.redis_contract_axioms demo_jwt_contract demo_jwt_int64 demo_mem_wf(1) l]
  show ?thesis by auto
qed

text \<open>
  C21. The session token a client is given opens its session. A later request that carries the
  token of a \<open>CreateSession\<close> answer as its bearer token, before the quota token's expiry, is charged
  to the session of that answer and, if the balance covers the price, served with the rest of the
  balance.
\<close>

theorem session_token_opens_session:
  assumes "redis_contract R view clock up" and "jwt_contract J decode verifies" and "jwt_int64 decode"
    and "jwt_signs J decode verifies" and "am_jwtSecret am = cf_JwtSecret conf" and "sessions_wf view up s"
    and "CreateSession J conf (VerifyAndParseJwt J am) (sm_CreateSession L R m) uuid now creq s = (Ok resp, s1)"
    and "csr_Session resp = Some session" and "\<not> free_of_charge req" and "bearer req = Some (csr_Jwt resp)"
    and "GetPrice req = Inr p" and "0 < p" and "p \<le> se_Balance session"
    and "\<forall>cl r q e. VerifyAndParseJwt J am (cs_Jwt creq) (CreateSessionClaims empty_create_claims) False now = Ok cl \<and>
      quota_claims cl now r q e \<longrightarrow> now' < NewNumericDate J e"
  shows "\<exists>s'. \<forall>next. NewConnectUnarySessionInterceptor (sm_DeductSessionBalance R) GetPrice (VerifyAndParseJwt J am) next now' cs req s1 =
    next now' (Some \<lparr>se_SessionId = se_SessionId session, se_Balance = se_Balance session - p\<rparr>) req s'"
proof -
  obtain cl r q e x j where c: "VerifyAndParseJwt J am (cs_Jwt creq) (CreateSessionClaims empty_create_claims) False now = Ok cl"
      "quota_claims cl now r q e" "generateJwt J conf uuid (se_SessionId x) e = Inr j"
      "resp = \<lparr>csr_Session = Some x, csr_Jwt = j\<rparr>"
    using assms(7) unfolding CreateSession_Ok by blast
  have x: "x = session" using c(4) assms(8) by simp
  have led: "sessions_wf view up s1" "session_led view s1 = (session_led view s)(se_SessionId session \<mapsto> se_Balance session)"
    using CreateSession_ledger [OF assms(1-3,6,7,8)] by simp_all
  let ?t = "session_token J conf uuid (se_SessionId session) e"
  have s: "SignedString J ?t (Secret (am_jwtSecret am)) = Inr j"
    using c(3) x assms(5) by (auto simp: generateJwt_def Let_def split: sum.splits)
  have k: "same_kind (SessionClaims empty_session_claims) (tk_Claims ?t)" "tk_Method ?t = SigningMethodHMAC ''HS256''"
    by (simp_all add: session_token_def)
  note d = assms(4) [unfolded jwt_signs_def, rule_format, OF s k(2) k(1)]
  have "now' < NewNumericDate J e" using assms(14) c(1,2) by blast
  then have v: "VerifyAndParseJwt J am j (SessionClaims empty_session_claims) True now' = Ok (tk_Claims ?t)"
    using d by (intro verify_self_accept [OF assms(2) conjunct1 [OF d] k(2)]) (auto simp: session_token_def dates_valid_def)
  have "gate_plan GetPrice (VerifyAndParseJwt J am) now' req = Inr (se_SessionId session, p)"
    unfolding gate_plan_Inr using v assms(10,11) c(4) by (auto simp: session_token_def)
  moreover have "token_redis R view clock up J decode verifies"
    using assms(1,2) by (simp add: token_redis_def token_redis_axioms_def)
  moreover have "bal (session_led view s1) (se_SessionId session) = se_Balance session" by (simp add: led(2) bal_def)
  ultimately show ?thesis
    using token_redis.paid_admits [of R view clock up J decode verifies, OF _ led(1) assms(9) _ assms(12), of am now' "se_SessionId session" cs] assms(13)
    by auto
qed

lemma demo_quota_expiry:
  assumes "VerifyAndParseJwt demo_jwt demo_auth ''quota'' (CreateSessionClaims empty_create_claims) False (1000 * Second) = Ok cl \<and>
      quota_claims cl (1000 * Second) r q e"
  shows "1000 * Second < NewNumericDate demo_jwt e"
  using assms demo_quota
  by (auto simp: quota_claims_def demo_quota_claims_def empty_registered_def demo_jwt_def table_jwt_def Second_def)

theorem session_token_opens_session_witness:
  "\<exists>s1 s'. CreateSession demo_jwt demo_login_config (VerifyAndParseJwt demo_jwt demo_auth) (sm_CreateSession demo_libs mem_redis demo_salt)
      ''uuid'' (1000 * Second) \<lparr>cs_Jwt = ''quota''\<rparr> demo_mem =
      (Ok \<lparr>csr_Session = Some \<lparr>se_SessionId = demo_sid, se_Balance = 10\<rparr>, csr_Jwt = ''sess''\<rparr>, s1) \<and>
    (\<forall>next. NewConnectUnarySessionInterceptor (sm_DeductSessionBalance mem_redis) GetPrice (VerifyAndParseJwt demo_jwt demo_auth) next
        (1000 * Second) None demo_request s1 =
      next (1000 * Second) (Some \<lparr>se_SessionId = demo_sid, se_Balance = 9\<rparr>) demo_request s')"
proof -
  obtain s1 where l: "CreateSession demo_jwt demo_login_config (VerifyAndParseJwt demo_jwt demo_auth) (sm_CreateSession demo_libs mem_redis demo_salt)
      ''uuid'' (1000 * Second) \<lparr>cs_Jwt = ''quota''\<rparr> demo_mem =
      (Ok \<lparr>csr_Session = Some \<lparr>se_SessionId = demo_sid, se_Balance = 10\<rparr>, csr_Jwt = ''sess''\<rparr>, s1)" using demo_login by blast
  have a: "am_jwtSecret demo_auth = cf_JwtSecret demo_login_config"
    by (simp add: demo_auth_def demo_login_config_def)
  have b: "bearer demo_request = Some ''sess''"
    by (simp add: bearer_def demo_request_def HeaderGet_def demo_bearer)
  have p: "GetPrice demo_request = Inr 1"
    by (simp add: GetPrice_def demo_request_def procedure_defs)
  have "\<forall>cl r q e. VerifyAndParseJwt demo_jwt demo_auth (cs_Jwt \<lparr>cs_Jwt = ''quota''\<rparr>) (CreateSessionClaims empty_create_claims) False (1000 * Second) = Ok cl \<and>
      quota_claims cl (1000 * Second) r q e \<longrightarrow> 1000 * Second < NewNumericDate demo_jwt e"
    unfolding CreateSessionRequest.simps by (intro allI impI) (rule demo_quota_expiry)
  from session_token_opens_session [OF mem.redis_contract_axioms demo_jwt_contract demo_jwt_int64 demo_jwt_signs a demo_mem_wf(1) l _
      demo_not_free _ p _ _ this, of "\<lparr>se_SessionId = demo_sid, se_Balance = 10\<rparr>" None] b l
  show ?thesis by auto
qed

text \<open>
  A quota token without an expiry crashes the handler. For a valid quota token whose expiry claim
  is absent, \<open>CreateSession\<close> does not answer with the error its code formats: it formats the message
  of an error that is \<open>nil\<close>, and panics.
\<close>

theorem missing_expiry_panics:
  assumes "verify (cs_Jwt req) (CreateSessionClaims empty_create_claims) False now =
      Ok (CreateSessionClaims \<lparr>cj_SessionJwtClaims = Some sc, cj_Quantity = q\<rparr>)"
    and "sj_Usage sc = JWT_USAGE_CREATE_SESSION" and "0 < q" and "sj_RegisteredClaims sc = Some r" and "rc_ExpiresAt r = None"
  shows "CreateSession J conf verify create uuid now req s = (Panic nil_deref, s)"
  using assms by (simp add: CreateSession_def GetExpirationTime_def)

definition demo_forever_tokens :: "(string \<times> jwt_token) list" where
  "demo_forever_tokens =
     [(''quota'', \<lparr>tk_Method = SigningMethodEd25519, tk_Kid = None, tk_Claims = CreateSessionClaims
        \<lparr>cj_SessionJwtClaims = Some \<lparr>sj_RegisteredClaims = Some (empty_registered\<lparr>rc_Issuer := ''did:example:prex''\<rparr>),
           sj_Usage = JWT_USAGE_CREATE_SESSION\<rparr>, cj_Quantity = 10\<rparr>\<rparr>)]"

definition demo_forever_jwt :: jwt_lib where
  "demo_forever_jwt = table_jwt demo_forever_tokens demo_verifies"

theorem missing_expiry_panics_witness:
  "CreateSession demo_forever_jwt demo_login_config (VerifyAndParseJwt demo_forever_jwt demo_auth)
     (sm_CreateSession demo_libs mem_redis demo_salt) ''uuid'' 0 \<lparr>cs_Jwt = ''quota''\<rparr> demo_mem = (Panic nil_deref, demo_mem)"
proof -
  have "VerifyAndParseJwt demo_forever_jwt demo_auth (cs_Jwt \<lparr>cs_Jwt = ''quota''\<rparr>) (CreateSessionClaims empty_create_claims) False 0 =
      Ok (CreateSessionClaims \<lparr>cj_SessionJwtClaims = Some \<lparr>sj_RegisteredClaims = Some (empty_registered\<lparr>rc_Issuer := ''did:example:prex''\<rparr>),
        sj_Usage = JWT_USAGE_CREATE_SESSION\<rparr>, cj_Quantity = 10\<rparr>)"
    by (simp add: VerifyAndParseJwt_def exchangeKeyFunc_def GetIssuer_def demo_forever_jwt_def demo_forever_tokens_def
        table_jwt_def table_parse_def table_decode_def demo_verifies_def demo_auth_def dates_ok_def empty_registered_def)
  then show ?thesis
    by (rule missing_expiry_panics [of "VerifyAndParseJwt demo_forever_jwt demo_auth"]) (simp add: empty_registered_def)+
qed

text \<open>
  Anyone can crash the handler. A token that claims the EdDSA method and whose payload has none of
  the registered claims leaves the embedded pointers \<open>nil\<close>; the key function asks it for its issuer
  before any signature is checked, and panics.
\<close>

theorem empty_claims_panic:
  assumes "jwt_contract J decode verifies" and "decode (cs_Jwt req) (CreateSessionClaims empty_create_claims) = Some t"
    and "tk_Method t = SigningMethodEd25519" and "registered_of (tk_Claims t) = None"
  shows "CreateSession J conf (VerifyAndParseJwt J am) create uuid now req s = (Panic nil_deref, s)"
proof -
  have "ParseWithClaims J (cs_Jwt req) (CreateSessionClaims empty_create_claims) (exchangeKeyFunc am) True now = Panic nil_deref"
    by (rule jwt_contract_panic [OF assms(1,2)]) (rule exchangeKeyFunc_panic [OF assms(3,4)])
  then show ?thesis by (simp add: CreateSession_def VerifyAndParseJwt_def)
qed

theorem empty_claims_panic_witness:
  "CreateSession demo_jwt demo_login_config (VerifyAndParseJwt demo_jwt demo_auth) (sm_CreateSession demo_libs mem_redis demo_salt)
     ''uuid'' 0 \<lparr>cs_Jwt = ''nil''\<rparr> demo_mem = (Panic nil_deref, demo_mem)"
proof -
  have "table_decode demo_tokens (cs_Jwt \<lparr>cs_Jwt = ''nil''\<rparr>) (CreateSessionClaims empty_create_claims) =
      Some \<lparr>tk_Method = SigningMethodEd25519, tk_Kid = None, tk_Claims = CreateSessionClaims empty_create_claims\<rparr>"
    by (simp add: table_decode_def demo_tokens_def)
  from empty_claims_panic [OF demo_jwt_contract this] show ?thesis by (simp add: empty_create_claims_def)
qed

text \<open>
  C35. Every session token gives the signing secret away. The token of any \<open>CreateSession\<close> answer of a
  service with a loaded configuration is signed with the JWT secret and carries, in its header, a
  key identifier whose base58 decoding starts with that secret.
\<close>

theorem session_token_leaks_secret:
  assumes "base58_roundtrip L" and "hkdf_full C" and "LoadConfig L C readErr unmarshalled = Ok conf"
    and "CreateSession J conf verify create uuid now req s = (Ok resp, s1)"
  shows "\<exists>t kid b. SignedString J t (Secret (cf_JwtSecret conf)) = Inr (csr_Jwt resp) \<and> tk_Kid t = Some kid \<and>
    base58_Decode L kid = Inr b \<and> take 32 b = cf_JwtSecret conf"
proof -
  obtain x e j where j: "generateJwt J conf uuid (se_SessionId x) e = Inr j" "resp = \<lparr>csr_Session = Some x, csr_Jwt = j\<rparr>"
    using assms(4) unfolding CreateSession_Ok by blast
  let ?t = "session_token J conf uuid (se_SessionId x) e"
  have "SignedString J ?t (Secret (cf_JwtSecret conf)) = Inr j"
    using j(1) by (auto simp: generateJwt_def Let_def split: sum.splits)
  moreover have "tk_Kid ?t = Some (cf_TokenSigningKeyId conf)" by (simp add: session_token_def)
  moreover obtain b where "base58_Decode L (cf_TokenSigningKeyId conf) = Inr b" "take 32 b = cf_JwtSecret conf"
    using signing_key_id_secret [OF assms(1-3)] by blast
  ultimately show ?thesis using j(2) by (intro exI [of _ ?t] exI [of _ "cf_TokenSigningKeyId conf"] exI [of _ b]) simp
qed

definition demo_leak_jwt :: jwt_lib where
  "demo_leak_jwt = \<lparr>ParseWithClaims = table_parse demo_tokens demo_verifies, SignedString = (\<lambda>t k. Inr ''sess''), NewNumericDate = id\<rparr>"

theorem session_token_leaks_secret_witness:
  "\<exists>(conf :: Config) resp s1 (t :: jwt_token) kid b. LoadConfig demo_libs demo_crypto None (Inr demo_config) = Ok conf \<and>
     CreateSession demo_leak_jwt conf (VerifyAndParseJwt demo_jwt demo_auth) (sm_CreateSession demo_libs mem_redis demo_salt)
       ''uuid'' (1000 * Second) \<lparr>cs_Jwt = ''quota''\<rparr> demo_mem = (Ok resp, s1) \<and>
     tk_Kid t = Some kid \<and> base58_Decode demo_libs kid = Inr b \<and> take 32 b = cf_JwtSecret conf"
proof -
  obtain conf where c: "LoadConfig demo_libs demo_crypto None (Inr demo_config) = Ok conf" using demo_LoadConfig by blast
  have g: "generateJwt demo_leak_jwt conf ''uuid'' x e = Inr ''sess''" for x e
    by (simp add: generateJwt_def demo_leak_jwt_def)
  obtain resp s1 where "CreateSession demo_leak_jwt conf (VerifyAndParseJwt demo_jwt demo_auth) (sm_CreateSession demo_libs mem_redis demo_salt)
      ''uuid'' (1000 * Second) \<lparr>cs_Jwt = ''quota''\<rparr> demo_mem = (Ok resp, s1)"
    using demo_login g unfolding CreateSession_Ok by fast
  with session_token_leaks_secret [OF demo_base58 demo_hkdf c this] c show ?thesis by blast
qed

end
