(* ===== verification/Streams.thy ===== *)
theory Streams
  imports Interceptor
begin

section \<open>Streams (\<open>internal/api/stream_value_handler.go\<close>)\<close>

text \<open>
  A stream is a Redis stream under its resource name \<open>accounts/<owner>/streams/<name>\<close>. Anyone can
  append to it; reading it takes a token whose subject is the owner. Entry identifiers are
  \<open><milliseconds>-<sequence>\<close>.
\<close>

subsection \<open>The code\<close>

definition streamTtl :: int where
  "streamTtl = 7 * 24 * 3600 * Second"

text \<open>\<open>now\<close> is \<open>time.Now()\<close> in nanoseconds; \<open>Unix()\<close> is its whole seconds.\<close>

definition CreateStreamValue ::
    "libs \<Rightarrow> 'r redis_client \<Rightarrow> int \<Rightarrow> CreateStreamValueRequest \<Rightarrow> 'r \<Rightarrow> CreateStreamValueResponse result \<times> 'r" where
  "CreateStreamValue L R now req s =
     (let streamID = csv_Parent req;
          minID = itoa (wrap64 (((now - streamTtl) div Second) * 1000)) @ ''-0''
      in case rXAdd R streamID minID True [(''value'', csv_Value req)] s of
           (Inl e, s1) \<Rightarrow> (Err (Status Internal ''failed to set value''), s1)
         | (Inr entryId, s1) \<Rightarrow>
             (case rExpire R streamID streamTtl s1 of
                (Inl e, s2) \<Rightarrow> (Err (Status Internal ''failed to refresh stream TTL: %v''), s2)
              | (Inr _, s2) \<Rightarrow>
                  (Ok \<lparr>csvr_Name = csv_Parent req @ ''/values/'' @ entryId,
                       csvr_Ttl = Some (durationpb_New L streamTtl)\<rparr>, s2)))"

definition parseXMessage :: "XMessage \<Rightarrow> go_error + StreamValueInfo" where
  "parseXMessage xMessage =
     (case Values xMessage ''value'' of
        None \<Rightarrow> Inl (Errorf ''value field not found from XMessage'')
      | Some rawValue \<Rightarrow>
          (case rawValue of
             AnyOther \<Rightarrow> Inl (Errorf ''failed to parse value to bytes'')
           | AnyString v \<Rightarrow> Inr \<lparr>sv_Value = v, sv_StreamEntryId = ID xMessage\<rparr>))"

record EntryID =
  Timestamp :: int
  SequenceID :: int

definition parseEntryID :: "string \<Rightarrow> go_error + EntryID" where
  "parseEntryID entryID =
     (let splitted = Split entryID (CHR ''-'')
      in if length splitted \<noteq> 2 then Inl (Errorf ''corrupted entry ID: %v'')
         else
           (case Atoi (splitted ! 0) of
              Inl e \<Rightarrow> Inl (Errorf ''failed to parse timestamp %v'')
            | Inr timestamp \<Rightarrow>
                (case Atoi (splitted ! 1) of
                   Inl e \<Rightarrow> Inl (Errorf ''failed to parse sequence ID %v'')
                 | Inr sequenceID \<Rightarrow> Inr \<lparr>Timestamp = timestamp, SequenceID = sequenceID\<rparr>)))"

definition getMaxEntryID :: "string \<Rightarrow> string \<Rightarrow> go_error + string" where
  "getMaxEntryID a b =
     (case parseEntryID a of
        Inl e \<Rightarrow> Inl e
      | Inr aEntryID \<Rightarrow>
          (case parseEntryID b of
             Inl e \<Rightarrow> Inl e
           | Inr bEntryID \<Rightarrow>
               if Timestamp aEntryID < Timestamp bEntryID \<or>
                  Timestamp aEntryID = Timestamp bEntryID \<and> SequenceID aEntryID < SequenceID bEntryID
               then Inr b else Inr a))"

definition ensureAuthToken ::
    "(string \<Rightarrow> jwt_claims \<Rightarrow> bool \<Rightarrow> int \<Rightarrow> jwt_claims result) \<Rightarrow> int \<Rightarrow> string \<Rightarrow> string \<Rightarrow> unit result" where
  "ensureAuthToken verify now authToken expectedSubject =
     (case verify authToken (Registered empty_registered) True now of
        Panic m \<Rightarrow> Panic m
      | Err e \<Rightarrow> Err (Status PermissionDenied ''failed to parse auth token in request: %v'')
      | Ok claims \<Rightarrow>
          (case GetSubject claims of
             Panic m \<Rightarrow> Panic m
           | Err e \<Rightarrow> Err (Status PermissionDenied ''failed to parse subject in auth token: %v'')
           | Ok subject \<Rightarrow>
               if subject \<noteq> expectedSubject
               then Err (Status PermissionDenied ''auth token subject %s not matching resource owner %s'')
               else Ok ()))"

text \<open>The loop of \<open>ListStreamValues\<close> over the messages, with \<open>ret\<close> and \<open>maxEntryID\<close> as it keeps them.\<close>

fun listLoop :: "XMessage list \<Rightarrow> StreamValueInfo list \<Rightarrow> string \<Rightarrow> go_error + StreamValueInfo list \<times> string" where
  "listLoop [] ret maxEntryID = Inr (ret, maxEntryID)"
| "listLoop (xMessage # rest) ret maxEntryID =
     (case parseXMessage xMessage of
        Inl e \<Rightarrow> Inl (Status Internal ''failed to parse xMessage: %v'')
      | Inr streamValueInfo \<Rightarrow>
          (case getMaxEntryID maxEntryID (ID xMessage) of
             Inl e \<Rightarrow> Inl (Status Internal ''failed to compare entry ID: %v'')
           | Inr m \<Rightarrow> listLoop rest (ret @ [streamValueInfo]) m))"

definition ListStreamValues ::
    "'r redis_client \<Rightarrow> (string \<Rightarrow> jwt_claims \<Rightarrow> bool \<Rightarrow> int \<Rightarrow> jwt_claims result) \<Rightarrow> int \<Rightarrow>
     ListStreamValuesRequest \<Rightarrow> 'r \<Rightarrow> ListStreamValuesResponse result \<times> 'r" where
  "ListStreamValues R verify now req s =
     (let streamID = ls_Parent req
      in case ParseResourceName (ls_Parent req) [''accounts'', ''streams''] of
           Inl e \<Rightarrow> (Err (Status InvalidArgument ''failed to parse resource name: %v''), s)
         | Inr segs \<Rightarrow>
             (case ensureAuthToken verify now (ls_AuthToken req) (segs ! 0) of
                Panic m \<Rightarrow> (Panic m, s)
              | Err e \<Rightarrow> (Err e, s)
              | Ok _ \<Rightarrow>
                  (case rXRangeN R streamID (ls_PageToken req) ''+'' (ls_PageSize req) s of
                     (Inl e, s1) \<Rightarrow> (Err (Status Internal ''failed to get stream: %v''), s1)
                   | (Inr xMessages, s1) \<Rightarrow>
                       if length xMessages = 0
                       then (Ok \<lparr>lsr_StreamValueInfo = [], lsr_PageToken = ''0-0''\<rparr>, s1)
                       else
                         (case listLoop xMessages [] ''0-0'' of
                            Inl e \<Rightarrow> (Err e, s1)
                          | Inr (ret, maxEntryID) \<Rightarrow>
                              (Ok \<lparr>lsr_StreamValueInfo = ret, lsr_PageToken = maxEntryID\<rparr>, s1)))))"

definition GetStreamValue ::
    "'r redis_client \<Rightarrow> (string \<Rightarrow> jwt_claims \<Rightarrow> bool \<Rightarrow> int \<Rightarrow> jwt_claims result) \<Rightarrow> int \<Rightarrow>
     GetStreamValueRequest \<Rightarrow> 'r \<Rightarrow> GetStreamValueResponse result \<times> 'r" where
  "GetStreamValue R verify now req s =
     (case ParseResourceName (gs_Name req) [''accounts'', ''streams'', ''values''] of
        Inl e \<Rightarrow> (Err (Status InvalidArgument ''failed to parse resource name: %v''), s)
      | Inr segs \<Rightarrow>
          (case ensureAuthToken verify now (gs_AuthToken req) (segs ! 0) of
             Panic m \<Rightarrow> (Panic m, s)
           | Err e \<Rightarrow> (Err e, s)
           | Ok _ \<Rightarrow>
               let streamID = ''accounts/'' @ segs ! 0 @ ''/streams/'' @ segs ! 1
               in case rXRead R [streamID] (segs ! 2) 1 0 s of
                    (Inl e, s1) \<Rightarrow>
                      if e = Unanswered then (Err Unanswered, s1)
                      else (Err (Status Internal ''failed to get value: %v''), s1)
                  | (Inr xStream, s1) \<Rightarrow>
                      if length xStream > 1
                      then (Err (Status Internal ''got %d streams but expected 1: %v''), s1)
                      else if length xStream = 0 \<or> length (Messages (xStream ! 0)) = 0
                      then (Err (Status NotFound ''stream or message not found''), s1)
                      else
                        (case parseXMessage (Messages (xStream ! 0) ! 0) of
                           Inl e \<Rightarrow> (Err (Status Internal ''failed to parse xMessage: %v''), s1)
                         | Inr streamValueInfo \<Rightarrow>
                             (Ok \<lparr>gsr_StreamValueInfo = Some streamValueInfo\<rparr>, s1))))"

subsection \<open>Entry identifiers\<close>

text \<open>Identifiers whose parts fit 64 signed bits, as \<open>parseEntryID\<close> reads them.\<close>

definition sid_int64 :: "sid \<Rightarrow> bool" where
  "sid_int64 i \<longleftrightarrow> in_int64 (int (fst i)) \<and> in_int64 (int (snd i))"

lemma Atoi_digits: "in_int64 (int n) \<Longrightarrow> Atoi (digits n) = Inr (int n)"
  using Atoi_itoa [of "int n"] by (simp add: itoa_def)

lemma dash_not_digit: "CHR ''-'' \<notin> set (digits n)"
  by (rule not_digit_in_digits) simp

lemma Split_sid_str: "Split (sid_str i) (CHR ''-'') = [digits (fst i), digits (snd i)]"
  using Split_append_sep [OF dash_not_digit] Split_no_sep [OF dash_not_digit] by (simp add: sid_str_def)

lemma parseEntryID_sid:
  "sid_int64 i \<Longrightarrow> parseEntryID (sid_str i) = Inr \<lparr>Timestamp = int (fst i), SequenceID = int (snd i)\<rparr>"
  by (simp add: parseEntryID_def Split_sid_str Atoi_digits sid_int64_def)

text \<open>The order of entry identifiers: milliseconds first, then sequence numbers.\<close>

instantiation EntryID_ext :: (linorder) linorder
begin

definition less_eq_EntryID_ext :: "'a EntryID_ext \<Rightarrow> 'a EntryID_ext \<Rightarrow> bool" where
  "x \<le> y \<longleftrightarrow> (Timestamp x, SequenceID x, EntryID.more x) \<le> (Timestamp y, SequenceID y, EntryID.more y)"

definition less_EntryID_ext :: "'a EntryID_ext \<Rightarrow> 'a EntryID_ext \<Rightarrow> bool" where
  "x < y \<longleftrightarrow> (Timestamp x, SequenceID x, EntryID.more x) < (Timestamp y, SequenceID y, EntryID.more y)"

instance
proof
  fix x y z :: "'a EntryID_ext"
  show "(x < y) = (x \<le> y \<and> \<not> y \<le> x)" by (simp only: less_eq_EntryID_ext_def less_EntryID_ext_def less_le_not_le)
  show "x \<le> x" unfolding less_eq_EntryID_ext_def by (rule order_refl)
  show "x \<le> y \<Longrightarrow> y \<le> z \<Longrightarrow> x \<le> z" unfolding less_eq_EntryID_ext_def by (rule order_trans)
  show "x \<le> y \<Longrightarrow> y \<le> x \<Longrightarrow> x = y" unfolding less_eq_EntryID_ext_def by (drule (1) order_antisym) simp
  show "x \<le> y \<or> y \<le> x" unfolding less_eq_EntryID_ext_def by (rule linear)
qed

end

lemma EntryID_less:
  fixes x y :: EntryID
  shows "x < y \<longleftrightarrow> Timestamp x < Timestamp y \<or> Timestamp x = Timestamp y \<and> SequenceID x < SequenceID y"
  by (auto simp: less_EntryID_ext_def less_prod_def)

lemma max_by_less: "max x y = (if x < y then y else x :: 'a :: linorder)"
  by (auto simp: max_def)

lemma getMaxEntryID_max:
  "getMaxEntryID a b = Inr c \<longleftrightarrow>
     (\<exists>x y. parseEntryID a = Inr x \<and> parseEntryID b = Inr y \<and> c = (if x < y then b else a) \<and> parseEntryID c = Inr (max x y))"
proof (cases "parseEntryID a"; cases "parseEntryID b")
  fix x y
  assume "parseEntryID a = Inr x" "parseEntryID b = Inr y"
  then show ?thesis by (auto simp: getMaxEntryID_def EntryID_less [symmetric] max_by_less)
qed (simp_all add: getMaxEntryID_def)

lemma getMaxEntryID_sid:
  assumes "sid_int64 a" and "sid_int64 b"
  shows "getMaxEntryID (sid_str a) (sid_str b) = Inr (sid_str (max a b))"
proof -
  have "max a b = (if fst a < fst b \<or> fst a = fst b \<and> snd a < snd b then b else a)"
    by (auto simp: max_by_less less_prod_def)
  then show ?thesis using assms by (cases a; cases b) (auto simp: getMaxEntryID_def parseEntryID_sid)
qed

lemma zero_sid: "''0-0'' = sid_str (0, 0)"
  by (simp add: sid_str_def digits.simps digit_char_def)

lemma sid_int64_zero [simp]: "sid_int64 (0, 0)"
  by (simp add: sid_int64_def in_int64_def int64_min_def int64_max_def)

subsection \<open>Listing\<close>

text \<open>An entry as \<open>CreateStreamValue\<close> writes it.\<close>

definition value_entry :: "stream_entry \<Rightarrow> bool" where
  "value_entry x \<longleftrightarrow> sid_int64 (fst x) \<and> (\<exists>v. snd x = [(''value'', v)])"

definition entry_info :: "stream_entry \<Rightarrow> StreamValueInfo" where
  "entry_info x = \<lparr>sv_Value = snd (hd (snd x)), sv_StreamEntryId = sid_str (fst x)\<rparr>"

lemma parseXMessage_entry: "value_entry x \<Longrightarrow> parseXMessage (xmsg x) = Inr (entry_info x)"
  by (auto simp: value_entry_def parseXMessage_def xmsg_def entry_info_def)

lemma ID_xmsg [simp]: "ID (xmsg x) = sid_str (fst x)"
  by (simp add: xmsg_def)

lemma listLoop_entries:
  "list_all value_entry es \<Longrightarrow> sid_int64 m \<Longrightarrow>
     listLoop (map xmsg es) ret (sid_str m) = Inr (ret @ map entry_info es, sid_str (fold max (map fst es) m))"
proof (induction es arbitrary: ret m)
  case Nil
  then show ?case by simp
next
  case (Cons x es)
  have x: "value_entry x" "sid_int64 (fst x)" using Cons.prems by (simp_all add: value_entry_def)
  have m: "sid_int64 (max m (fst x))" using x Cons.prems by (simp add: max_def)
  from Cons.IH [OF _ m] Cons.prems x show ?case
    by (simp add: parseXMessage_entry getMaxEntryID_sid max.commute)
qed

lemma fold_max_sorted: "sorted (xs :: sid list) \<Longrightarrow> xs \<noteq> [] \<Longrightarrow> m \<le> hd xs \<Longrightarrow> fold max xs m = last xs"
proof (induction xs arbitrary: m)
  case Nil
  then show ?case by simp
next
  case (Cons x xs)
  have m: "max x m = x" using Cons.prems by (simp add: max_absorb1)
  show ?case
  proof (cases "xs = []")
    case True
    with m show ?thesis by simp
  next
    case False
    with Cons.prems have "x \<le> hd xs" by simp
    with Cons.IH [of x] Cons.prems False m show ?thesis by simp
  qed
qed

subsection \<open>Who may read\<close>

lemma ensureAuthToken_Ok:
  "ensureAuthToken verify now tok subj = Ok u \<longleftrightarrow>
     (\<exists>cl r. verify tok (Registered empty_registered) True now = Ok cl \<and> registered_of cl = Some r \<and> rc_Subject r = subj)"
  by (auto simp: ensureAuthToken_def GetSubject_def split: result.splits option.splits if_splits)

subsection \<open>What an append keeps\<close>

text \<open>The identifier that the append sends as \<open>MINID\<close>: entries before it may be dropped.\<close>

definition oldest_kept :: "int \<Rightarrow> sid" where
  "oldest_kept now = (nat (((now - streamTtl) div Second) * 1000), 0)"

abbreviation min_entry_id :: "int \<Rightarrow> string" where
  "min_entry_id now \<equiv> itoa (wrap64 (((now - streamTtl) div Second) * 1000)) @ ''-0''"

lemma min_entry_id_sid:
  assumes "streamTtl \<le> now" and "in_int64 now"
  shows "min_entry_id now = sid_str (oldest_kept now)"
proof -
  have "((now - streamTtl) div Second) * 1000 \<ge> 0" "((now - streamTtl) div Second) * 1000 \<le> now"
    using assms by (auto simp: Second_def streamTtl_def pos_imp_zdiv_nonneg_iff)
  moreover from this assms(2) have "in_int64 (((now - streamTtl) div Second) * 1000)"
    by (simp add: in_int64_def int64_min_def)
  ultimately show ?thesis
    by (simp add: itoa_def sid_str_def oldest_kept_def) (simp add: digits.simps digit_char_def)
qed

lemma expire_secs_stream: "expire_secs streamTtl = 7 * 24 * 3600"
  by (simp add: expire_secs_def streamTtl_def Second_def)

lemma owner_name: "format_name [''accounts'', ''streams''] [a, b] = ''accounts/'' @ a @ ''/streams/'' @ b"
  by simp

context redis_contract
begin

lemma ListStreamValues_page:
  assumes u: "up s" and p: "ParseResourceName (ls_Parent req) [''accounts'', ''streams''] = Inr segs"
    and a: "ensureAuthToken verify now (ls_AuthToken req) (segs ! 0) = Ok ()"
    and v: "view s (ls_Parent req) = Some (RStream es, e)" and es: "list_all value_entry es" "sorted (map fst es)"
    and n: "0 < ls_PageSize req" and i: "ls_PageToken req = sid_str i0"
  defines "page \<equiv> take (nat (ls_PageSize req)) (filter (\<lambda>x. i0 \<le> fst x) es)"
  shows "fst (ListStreamValues R verify now req s) =
    Ok \<lparr>lsr_StreamValueInfo = map entry_info page,
        lsr_PageToken = (if page = [] then ''0-0'' else sid_str (fst (last page)))\<rparr>"
proof -
  have r: "fst (rXRangeN R (ls_Parent req) (ls_PageToken req) ''+'' (ls_PageSize req) s) = Inr (map xmsg page)"
    unfolding i page_def by (rule xrange_stream [OF u v n])
  have e: "list_all value_entry page"
    using es(1) by (auto simp: page_def list_all_iff dest: in_set_takeD)
  have "sorted (map fst (filter (\<lambda>x. i0 \<le> fst x) es))" using es(2) by (rule sorted_filter)
  then have s: "sorted (map fst page)" unfolding page_def by (simp flip: take_map add: sorted_wrt_take)
  have l: "listLoop (map xmsg page) [] ''0-0'' = Inr (map entry_info page, sid_str (fold max (map fst page) (0, 0)))"
    using listLoop_entries [OF e sid_int64_zero, of "[]"] by (simp add: zero_sid)
  have m: "page \<noteq> [] \<Longrightarrow> fold max (map fst page) (0, 0) = fst (last page)"
    using fold_max_sorted [OF s] by (simp add: last_map less_eq_prod_def prod_le_def)
  show ?thesis
    using p a r l m by (cases "page = []") (simp_all add: ListStreamValues_def case_prod_beta)
qed

lemma ListStreamValues_owner_page:
  assumes "up s" and "ls_Parent req = ''accounts/'' @ a @ ''/streams/'' @ b" and "valid_id a" and "valid_id b"
    and "verify (ls_AuthToken req) (Registered empty_registered) True now = Ok cl"
    and "registered_of cl = Some r" and "rc_Subject r = a"
    and "view s (ls_Parent req) = Some (RStream es, e)" and "list_all value_entry es" and "sorted (map fst es)"
    and "0 < ls_PageSize req" and "ls_PageToken req = sid_str i0"
  shows "fst (ListStreamValues R verify now req s) =
    Ok \<lparr>lsr_StreamValueInfo = map entry_info (take (nat (ls_PageSize req)) (filter (\<lambda>x. i0 \<le> fst x) es)),
        lsr_PageToken = (if take (nat (ls_PageSize req)) (filter (\<lambda>x. i0 \<le> fst x) es) = [] then ''0-0''
          else sid_str (fst (last (take (nat (ls_PageSize req)) (filter (\<lambda>x. i0 \<le> fst x) es)))))\<rparr>"
proof -
  have "ParseResourceName (format_name [''accounts'', ''streams''] [a, b]) [''accounts'', ''streams''] = Inr [a, b]"
    using assms(3,4) by (intro ParseResourceName_canonical) simp_all
  then have p: "ParseResourceName (ls_Parent req) [''accounts'', ''streams''] = Inr [a, b]"
    by (simp only: owner_name assms(2))
  have t: "ensureAuthToken verify now (ls_AuthToken req) ([a, b] ! 0) = Ok ()"
    using assms(5-7) by (auto simp: ensureAuthToken_Ok)
  show ?thesis by (rule ListStreamValues_page [OF assms(1) p t assms(8-12)])
qed

lemma CreateStreamValue_effect:
  assumes u: "up s" and now: "streamTtl \<le> now" "in_int64 now"
    and v: "(view s (csv_Parent req) = None \<and> es = [] \<and> e = None) \<or> view s (csv_Parent req) = Some (RStream es, e)"
  shows "\<exists>i k. fst (CreateStreamValue L R now req s) =
      Ok \<lparr>csvr_Name = csv_Parent req @ ''/values/'' @ sid_str i, csvr_Ttl = Some (durationpb_New L streamTtl)\<rparr> \<and>
    (\<forall>x \<in> set es. fst x < i) \<and>
    view (snd (CreateStreamValue L R now req s)) = (view s)(csv_Parent req \<mapsto>
      (RStream (drop k es @ [(i, [(''value'', csv_Value req)])]), Some (clock s + 7 * 24 * 3600 * 1000)))"
proof -
  let ?k = "csv_Parent req" and ?lo = "oldest_kept now"
  note lo = min_entry_id_sid [OF now]
  let ?r = "rXAdd R ?k (sid_str ?lo) True [(''value'', csv_Value req)] s"
  obtain i k where i: "fst ?r = Inr (sid_str i)" "\<forall>x \<in> set es. fst x < i"
    "view (snd ?r) = (view s)(?k \<mapsto> (RStream (drop k es @ [(i, [(''value'', csv_Value req)])]), e))"
    using xadd_stream [OF u v, of ?lo True "[(''value'', csv_Value req)]"] by blast
  have u1: "up (snd ?r)" "clock (snd ?r) = clock s" using xadd_healthy [OF u] by simp_all
  have "view (snd ?r) ?k = Some (RStream (drop k es @ [(i, [(''value'', csv_Value req)])]), e)" using i(3) by simp
  note x = expire_some [OF u1(1) this, of streamTtl, unfolded expire_secs_stream, simplified]
  have "CreateStreamValue L R now req s =
      (Ok \<lparr>csvr_Name = ?k @ ''/values/'' @ sid_str i, csvr_Ttl = Some (durationpb_New L streamTtl)\<rparr>,
       snd (rExpire R ?k streamTtl (snd ?r)))"
    using i(1) x by (simp add: CreateStreamValue_def case_prod_beta Let_def lo del: append_assoc)
  with x i u1(2) show ?thesis by (intro exI [of _ i] exI [of _ k]) simp
qed

text \<open>\<open>CreateStreamValue\<close> writes its parent key only, and only a stream.\<close>

lemma CreateStreamValue_other:
  assumes "up s"
  shows "up (snd (CreateStreamValue L R now req s)) \<and> clock (snd (CreateStreamValue L R now req s)) = clock s \<and>
    (\<forall>k. k \<noteq> csv_Parent req \<longrightarrow> view (snd (CreateStreamValue L R now req s)) k = view s k)"
proof -
  have "up (snd (rXAdd R k lo b fs s)) \<and> clock (snd (rXAdd R k lo b fs s)) = clock s" for k lo b fs
    using xadd_healthy [OF assms] .
  then show ?thesis
    using xadd_frame [OF assms] expire_frame expire_healthy
    by (auto simp: CreateStreamValue_def case_prod_beta Let_def split: sum.split)
qed

lemma GetStreamValue_next:
  assumes "up s" and "ParseResourceName (gs_Name req) [''accounts'', ''streams'', ''values''] = Inr segs"
    and "segs ! 2 = sid_str i0" and "fst (GetStreamValue R verify now req s) = Ok resp"
  shows "\<exists>info i. gsr_StreamValueInfo resp = Some info \<and> sv_StreamEntryId info = sid_str i \<and> i0 < i"
proof -
  let ?k = "''accounts/'' @ segs ! 0 @ ''/streams/'' @ segs ! 1"
  let ?r = "rXRead R [?k] (sid_str i0) 1 0 s"
  obtain xs where xs: "fst ?r = Inr xs" "xs \<noteq> []" "Messages (hd xs) \<noteq> []"
      "map_option Inr (gsr_StreamValueInfo resp) = Some (parseXMessage (hd (Messages (hd xs))))"
    using assms(2-4)
    by (auto simp: GetStreamValue_def case_prod_beta Let_def hd_conv_nth split: result.splits sum.splits if_splits)
  obtain i where i: "ID (hd (Messages (hd xs))) = sid_str i" "i0 < i"
    using xread_after [OF assms(1) xs(1), of "hd xs" "hd (Messages (hd xs))"] xs(2,3) by auto
  from xs(4) obtain info where info: "gsr_StreamValueInfo resp = Some info" "parseXMessage (hd (Messages (hd xs))) = Inr info"
    by (cases "gsr_StreamValueInfo resp") auto
  from info(2) have "sv_StreamEntryId info = ID (hd (Messages (hd xs)))"
    by (auto simp: parseXMessage_def split: option.splits redis_any.splits)
  with info(1) i show ?thesis by (intro exI [of _ info] exI [of _ i]) simp
qed

end

subsection \<open>Names with a DID\<close>

definition slashes :: "string \<Rightarrow> nat" where
  "slashes x = length (filter (\<lambda>c. c = CHR ''/'') x)"

lemma slashes_append [simp]: "slashes (x @ y) = slashes x + slashes y"
  by (simp add: slashes_def)

lemma slashes_zero: "slashes x = 0 \<longleftrightarrow> CHR ''/'' \<notin> set x"
  by (auto simp: slashes_def filter_empty_conv)

lemma first_segment: "CHR ''/'' \<notin> set x \<Longrightarrow> CHR ''/'' \<notin> set y \<Longrightarrow> x @ CHR ''/'' # r = y @ CHR ''/'' # r' \<Longrightarrow> x = y \<and> r = r'"
proof (induction x arbitrary: y)
  case Nil
  then show ?case by (cases y) auto
next
  case (Cons c x)
  then show ?case by (cases y) auto
qed

text \<open>A name \<open>accounts/<a>/streams/<b>\<close> with single segments parses to \<open>a\<close> or not at all.\<close>

lemma ParseResourceName_segments:
  assumes "CHR ''/'' \<notin> set a" and "CHR ''/'' \<notin> set b"
    and "ParseResourceName (''accounts/'' @ a @ ''/streams/'' @ b) [''accounts'', ''streams''] = Inr segs"
  shows "segs ! 0 = a \<and> valid_id a"
proof -
  obtain pre post where n: "''accounts/'' @ a @ ''/streams/'' @ b = pre @ format_name [''accounts'', ''streams''] segs @ post"
    and l: "length segs = 2" and v: "list_all valid_id segs"
    using ParseResourceName_InrD [OF assms(3)] by auto
  from l obtain x y where s: "segs = [x, y]"
    by (metis (no_types) One_nat_def Suc_1 Suc_length_conv length_0_conv)
  have xy: "valid_id x" "CHR ''/'' \<notin> set x" "CHR ''/'' \<notin> set y" using v s by (auto dest: valid_id_no_slash)
  have eq: "''accounts/'' @ a @ ''/streams/'' @ b = pre @ ''accounts/'' @ x @ ''/streams/'' @ y @ post"
    using n s by simp
  have three: "slashes ''accounts/'' = 1" "slashes ''/streams/'' = 2" by (simp_all add: slashes_def)
  have "slashes a = 0" "slashes b = 0" "slashes x = 0" "slashes y = 0" using assms(1,2) xy by (simp_all add: slashes_zero)
  then have "slashes pre = 0"
    using arg_cong [OF eq, of slashes] three by (simp del: append.simps)
  then have pre: "CHR ''/'' \<notin> set (pre @ ''accounts'')" by (simp add: slashes_zero)
  have "''accounts'' @ CHR ''/'' # (a @ ''/streams/'' @ b) = (pre @ ''accounts'') @ CHR ''/'' # (x @ ''/streams/'' @ y @ post)"
    using eq by simp
  from first_segment [OF _ pre this] have "a @ ''/streams/'' @ b = x @ ''/streams/'' @ y @ post" by simp
  then have "a @ CHR ''/'' # (''streams/'' @ b) = x @ CHR ''/'' # (''streams/'' @ y @ post)" by simp
  from first_segment [OF assms(1) xy(2) this] have "a = x" by simp
  with s xy(1) show ?thesis by simp
qed

lemma valid_id_sid: "valid_id (sid_str i)"
proof -
  have "is_digit c \<Longrightarrow> id_char c" for c by (auto simp: is_digit_def id_char_def Let_def)
  with digits_all_digit [of "fst i"] digits_all_digit [of "snd i"] show ?thesis
    by (auto simp: valid_id_def sid_str_def list_all_iff id_char_def)
qed

lemma ParseResourceName_entry:
  assumes "valid_id a" and "valid_id b"
  shows "ParseResourceName (''accounts/'' @ a @ ''/streams/'' @ b @ ''/values/'' @ sid_str i)
    [''accounts'', ''streams'', ''values''] = Inr [a, b, sid_str i]"
proof -
  have "ParseResourceName (format_name [''accounts'', ''streams'', ''values''] [a, b, sid_str i])
      [''accounts'', ''streams'', ''values''] = Inr [a, b, sid_str i]"
    using assms valid_id_sid by (intro ParseResourceName_canonical) simp_all
  then show ?thesis by simp
qed

subsection \<open>Properties\<close>

text \<open>
  \<open>getMaxEntryID\<close> is the maximum in the order of the stream. For the text of any two entry
  identifiers whose parts fit 64 bits it returns the text of the later one, where milliseconds
  are compared before sequence numbers and both as numbers, not as text.
\<close>

theorem max_entry_id:
  assumes "sid_int64 a" and "sid_int64 b"
  shows "getMaxEntryID (sid_str a) (sid_str b) = Inr (sid_str (max a b))"
  using assms by (rule getMaxEntryID_sid)

theorem max_entry_id_witness: "getMaxEntryID (sid_str (9, 7)) (sid_str (10, 2)) = Inr (sid_str (10, 2))"
  using max_entry_id [of "(9, 7)" "(10, 2)"]
  by (simp add: sid_int64_def in_int64_def int64_min_def int64_max_def max_def)

text \<open>
  Listing returns the page it was asked for. To the owner of a stream whose entries are in
  order, \<open>ListStreamValues\<close> returns, in order, the values of at most \<open>page_size\<close> entries from the page
  token on, the token's own entry included, each with its identifier, and as the next page token
  the identifier of the last entry returned, or \<open>0-0\<close> when there is none.
\<close>

theorem list_returns_page:
  assumes "redis_contract R view clock up" and "up s"
    and "ls_Parent req = ''accounts/'' @ a @ ''/streams/'' @ b" and "valid_id a" and "valid_id b"
    and "VerifyAndParseJwt J am (ls_AuthToken req) (Registered empty_registered) True now = Ok cl"
    and "registered_of cl = Some r" and "rc_Subject r = a"
    and "view s (ls_Parent req) = Some (RStream es, e)" and "list_all value_entry es" and "sorted (map fst es)"
    and "0 < ls_PageSize req" and "ls_PageToken req = sid_str i0"
  defines "page \<equiv> take (nat (ls_PageSize req)) (filter (\<lambda>x. i0 \<le> fst x) es)"
  shows "fst (ListStreamValues R (VerifyAndParseJwt J am) now req s) =
    Ok \<lparr>lsr_StreamValueInfo = map entry_info page,
        lsr_PageToken = (if page = [] then ''0-0'' else sid_str (fst (last page)))\<rparr>"
  unfolding page_def
  using redis_contract.ListStreamValues_owner_page [OF assms(1-3) assms(4,5) _ assms(7-13), of "VerifyAndParseJwt J am" now] assms(6)
  by simp

definition demo_stream :: "stream_entry list" where
  "demo_stream = [((1, 0), [(''value'', ''a'')]), ((1, 1), [(''value'', ''b'')]), ((2, 0), [(''value'', ''c'')])]"

definition demo_stream_mem :: mem where
  "demo_stream_mem = \<lparr>mclock = 5, mkeys = [''accounts/bob/streams/in'' \<mapsto> (RStream demo_stream, None)]\<rparr>"

definition demo_list :: "sid \<Rightarrow> int \<Rightarrow> ListStreamValuesRequest" where
  "demo_list i n = \<lparr>ls_Parent = ''accounts/bob/streams/in'', ls_AuthToken = ''ident'', ls_PageSize = n, ls_PageToken = sid_str i\<rparr>"

lemma demo_ident:
  "VerifyAndParseJwt demo_jwt demo_auth ''ident'' (Registered empty_registered) True (1000000 * Second)
     = Ok (Registered demo_identity_claims)"
  by (simp add: VerifyAndParseJwt_def selfKeyFunc_def demo_jwt_defs Second_def)

lemma demo_ids: "valid_id ''bob''" "valid_id ''in''" "rc_Subject demo_identity_claims = ''bob''"
  by (simp_all add: valid_id_def id_char_def demo_identity_claims_def)

lemma demo_stream_ok: "list_all value_entry demo_stream" "sorted (map fst demo_stream)" "mup demo_stream_mem"
  by (simp_all add: demo_stream_def value_entry_def sid_int64_def in_int64_def int64_min_def int64_max_def
      demo_stream_mem_def mup_def)

theorem list_returns_page_witness:
  "fst (ListStreamValues mem_redis (VerifyAndParseJwt demo_jwt demo_auth) (1000000 * Second) (demo_list (1, 1) 5) demo_stream_mem) =
     Ok \<lparr>lsr_StreamValueInfo = [\<lparr>sv_Value = ''b'', sv_StreamEntryId = sid_str (1, 1)\<rparr>, \<lparr>sv_Value = ''c'', sv_StreamEntryId = sid_str (2, 0)\<rparr>],
         lsr_PageToken = sid_str (2, 0)\<rparr>"
proof -
  have l: "ls_Parent (demo_list (1, 1) 5) = ''accounts/'' @ ''bob'' @ ''/streams/'' @ ''in''"
    "ls_AuthToken (demo_list (1, 1) 5) = ''ident''" "ls_PageSize (demo_list (1, 1) 5) = 5"
    "ls_PageToken (demo_list (1, 1) 5) = sid_str (1, 1)"
    by (simp_all add: demo_list_def)
  have v: "mkeys demo_stream_mem (ls_Parent (demo_list (1, 1) 5)) = Some (RStream demo_stream, None)"
    by (simp add: demo_stream_mem_def demo_list_def)
  from list_returns_page [OF mem.redis_contract_axioms demo_stream_ok(3) l(1) demo_ids(1,2) demo_ident [folded l(2)] _ demo_ids(3) v
      demo_stream_ok(1,2) _ l(4)] l(3)
  show ?thesis by (simp add: demo_stream_def entry_info_def)
qed

text \<open>
  An appended value can be listed by its owner. If \<open>CreateStreamValue\<close> answers with an entry
  name, then \<open>ListStreamValues\<close> from that entry's identifier on, with any page size, returns exactly
  that value with that identifier, and the identifier again as the next page token; the append
  always succeeds on a key that is absent or holds a stream.
\<close>

theorem append_then_list:
  assumes "redis_contract R view clock up" and "up s" and "streamTtl \<le> now" and "in_int64 now"
    and "csv_Parent req = ''accounts/'' @ a @ ''/streams/'' @ b" and "valid_id a" and "valid_id b"
    and "(view s (csv_Parent req) = None \<and> es = [] \<and> e = None) \<or> view s (csv_Parent req) = Some (RStream es, e)"
    and "list_all value_entry es" and "sorted (map fst es)"
    and "\<forall>resp i. fst (CreateStreamValue L R now req s) = Ok resp \<and>
      csvr_Name resp = csv_Parent req @ ''/values/'' @ sid_str i \<longrightarrow> sid_int64 i"
    and "VerifyAndParseJwt J am tok (Registered empty_registered) True now = Ok cl"
    and "registered_of cl = Some r" and "rc_Subject r = a" and "0 < n"
  shows "\<exists>resp i. fst (CreateStreamValue L R now req s) = Ok resp \<and>
    csvr_Name resp = csv_Parent req @ ''/values/'' @ sid_str i \<and>
    fst (ListStreamValues R (VerifyAndParseJwt J am) now
        \<lparr>ls_Parent = csv_Parent req, ls_AuthToken = tok, ls_PageSize = n, ls_PageToken = sid_str i\<rparr>
        (snd (CreateStreamValue L R now req s))) =
      Ok \<lparr>lsr_StreamValueInfo = [\<lparr>sv_Value = csv_Value req, sv_StreamEntryId = sid_str i\<rparr>], lsr_PageToken = sid_str i\<rparr>"
proof -
  let ?s1 = "snd (CreateStreamValue L R now req s)"
  obtain i k where c: "fst (CreateStreamValue L R now req s) =
      Ok \<lparr>csvr_Name = csv_Parent req @ ''/values/'' @ sid_str i, csvr_Ttl = Some (durationpb_New L streamTtl)\<rparr>"
    and above: "\<forall>x \<in> set es. fst x < i"
    and v: "view ?s1 = (view s)(csv_Parent req \<mapsto>
      (RStream (drop k es @ [(i, [(''value'', csv_Value req)])]), Some (clock s + 7 * 24 * 3600 * 1000)))"
    using redis_contract.CreateStreamValue_effect [OF assms(1-4,8)] by blast
  let ?es = "drop k es @ [(i, [(''value'', csv_Value req)])]"
  let ?req = "\<lparr>ls_Parent = csv_Parent req, ls_AuthToken = tok, ls_PageSize = n, ls_PageToken = sid_str i\<rparr>"
  have u: "up ?s1" using redis_contract.CreateStreamValue_other [OF assms(1,2)] by blast
  have i: "sid_int64 i" using assms(11) [rule_format, OF conjI [OF c]] by simp
  have es: "list_all value_entry ?es"
    using assms(9) i by (auto simp: list_all_iff value_entry_def dest: in_set_dropD)
  have "sorted (map fst (drop k es))" using assms(10) by (simp flip: drop_map add: sorted_wrt_drop)
  then have so: "sorted (map fst ?es)"
    using above by (auto simp: sorted_append dest!: in_set_dropD intro: less_imp_le)
  have f: "filter (\<lambda>x. i \<le> fst x) ?es = [(i, [(''value'', csv_Value req)])]"
    using above by (auto simp: filter_empty_conv dest!: in_set_dropD)
  have k: "view ?s1 (ls_Parent ?req) = Some (RStream ?es, Some (clock s + 7 * 24 * 3600 * 1000))" using v by simp
  have "fst (ListStreamValues R (VerifyAndParseJwt J am) now ?req ?s1) =
      Ok \<lparr>lsr_StreamValueInfo = [\<lparr>sv_Value = csv_Value req, sv_StreamEntryId = sid_str i\<rparr>], lsr_PageToken = sid_str i\<rparr>"
    using redis_contract.ListStreamValues_owner_page [OF assms(1) u _ assms(6,7) _ assms(13,14) k es so, of "VerifyAndParseJwt J am" now i]
      assms(5,12,15) f by (simp add: entry_info_def)
  with c show ?thesis
    by (intro exI [of _ "\<lparr>csvr_Name = csv_Parent req @ ''/values/'' @ sid_str i, csvr_Ttl = Some (durationpb_New L streamTtl)\<rparr>"] exI [of _ i])
       simp
qed

lemma sid_str_inject [simp]: "sid_str i = sid_str j \<longleftrightarrow> i = j"
  by (metis parse_sid_str)

definition demo_append :: CreateStreamValueRequest where
  "demo_append = \<lparr>csv_Parent = ''accounts/bob/streams/in'', csv_Value = ''d''\<rparr>"

lemma demo_appended:
  "fst (CreateStreamValue demo_libs mem_redis (1000000 * Second) demo_append demo_stream_mem) =
     Ok \<lparr>csvr_Name = ''accounts/bob/streams/in/values/'' @ sid_str (5, 0), csvr_Ttl = Some (durationpb_New demo_libs streamTtl)\<rparr>"
  by (simp add: CreateStreamValue_def demo_append_def demo_stream_mem_def demo_stream_def mem_XAdd_def next_sid_def
      mem_Expire_def put_def expire_secs_def streamTtl_def Second_def Let_def max_def)

theorem append_then_list_witness:
  "\<exists>resp i. fst (CreateStreamValue demo_libs mem_redis (1000000 * Second) demo_append demo_stream_mem) = Ok resp \<and>
    csvr_Name resp = ''accounts/bob/streams/in/values/'' @ sid_str i \<and>
    fst (ListStreamValues mem_redis (VerifyAndParseJwt demo_jwt demo_auth) (1000000 * Second)
        \<lparr>ls_Parent = ''accounts/bob/streams/in'', ls_AuthToken = ''ident'', ls_PageSize = 3, ls_PageToken = sid_str i\<rparr>
        (snd (CreateStreamValue demo_libs mem_redis (1000000 * Second) demo_append demo_stream_mem))) =
      Ok \<lparr>lsr_StreamValueInfo = [\<lparr>sv_Value = ''d'', sv_StreamEntryId = sid_str i\<rparr>], lsr_PageToken = sid_str i\<rparr>"
proof -
  have now: "streamTtl \<le> 1000000 * Second" "in_int64 (1000000 * Second)"
    by (simp_all add: streamTtl_def Second_def in_int64_def int64_min_def int64_max_def)
  have a: "csv_Parent demo_append = ''accounts/'' @ ''bob'' @ ''/streams/'' @ ''in''" "csv_Value demo_append = ''d''"
    by (simp_all add: demo_append_def)
  have v: "mkeys demo_stream_mem (csv_Parent demo_append) = Some (RStream demo_stream, None)"
    by (simp add: demo_stream_mem_def demo_append_def)
  have i: "\<forall>resp i. fst (CreateStreamValue demo_libs mem_redis (1000000 * Second) demo_append demo_stream_mem) = Ok resp \<and>
      csvr_Name resp = csv_Parent demo_append @ ''/values/'' @ sid_str i \<longrightarrow> sid_int64 i"
    unfolding demo_appended a by (auto simp: sid_int64_def in_int64_def int64_min_def int64_max_def)
  from append_then_list [OF mem.redis_contract_axioms demo_stream_ok(3) now a(1) demo_ids(1,2) disjI2 [OF v] demo_stream_ok(1,2) i
      demo_ident _ demo_ids(3), of 3]
  show ?thesis unfolding a by simp
qed

text \<open>
  C20. A stream is listed to its owner only. If \<open>ListStreamValues\<close> returns a page, the name it was
  given contains \<open>accounts/<a>/streams/<b>\<close>, and the token in the request is the service's own,
  HS256-signed and unexpired, with the subject \<open>a\<close>.
\<close>

theorem list_only_to_owner:
  assumes "jwt_contract J decode verifies"
    and "fst (ListStreamValues R (VerifyAndParseJwt J am) now req s) = Ok resp"
  shows "\<exists>pre a b post cl r. ls_Parent req = pre @ ''accounts/'' @ a @ ''/streams/'' @ b @ post \<and> valid_id a \<and> valid_id b \<and>
    own_token decode verifies am (ls_AuthToken req) cl now \<and> registered_of cl = Some r \<and> rc_Subject r = a"
proof -
  obtain segs where p: "ParseResourceName (ls_Parent req) [''accounts'', ''streams''] = Inr segs"
    and t: "ensureAuthToken (VerifyAndParseJwt J am) now (ls_AuthToken req) (segs ! 0) = Ok ()"
    using assms(2) by (auto simp: ListStreamValues_def Let_def split: sum.splits result.splits)
  obtain a b pre post where n: "segs = [a, b]" "valid_id a" "valid_id b"
      "ls_Parent req = pre @ format_name [''accounts'', ''streams''] segs @ post"
    using ParseResourceName_InrD [OF p] by (auto simp: length_Suc_conv)
  obtain cl r where c: "VerifyAndParseJwt J am (ls_AuthToken req) (Registered empty_registered) True now = Ok cl"
      "registered_of cl = Some r" "rc_Subject r = segs ! 0"
    using t by (auto simp: ensureAuthToken_Ok)
  from n c verify_own_token [OF assms(1) c(1)] show ?thesis
    by (intro exI [of _ pre] exI [of _ a] exI [of _ b] exI [of _ post] exI [of _ cl] exI [of _ r]) simp
qed

theorem list_only_to_owner_witness:
  "\<exists>pre a b post cl r. ''accounts/bob/streams/in'' = pre @ ''accounts/'' @ a @ ''/streams/'' @ b @ post \<and>
    own_token (table_decode demo_tokens) demo_verifies demo_auth ''ident'' cl (1000000 * Second) \<and>
    registered_of cl = Some r \<and> rc_Subject r = a"
proof -
  have l: "ls_Parent (demo_list (0, 0) 5) = ''accounts/'' @ ''bob'' @ ''/streams/'' @ ''in''"
    "ls_AuthToken (demo_list (0, 0) 5) = ''ident''" "0 < ls_PageSize (demo_list (0, 0) 5)"
    "ls_PageToken (demo_list (0, 0) 5) = sid_str (0, 0)"
    by (simp_all add: demo_list_def)
  have v: "mkeys demo_stream_mem (ls_Parent (demo_list (0, 0) 5)) = Some (RStream demo_stream, None)"
    by (simp add: demo_stream_mem_def demo_list_def)
  note ok = mem.ListStreamValues_owner_page [where verify = "VerifyAndParseJwt demo_jwt demo_auth", OF demo_stream_ok(3) l(1) demo_ids(1,2) demo_ident [folded l(2)] registered_of.simps(1) demo_ids(3) v
      demo_stream_ok(1,2) l(3,4)]
  from list_only_to_owner [OF demo_jwt_contract ok] show ?thesis
    by (elim exE conjE, intro exI conjI) (simp_all add: demo_list_def)
qed

text \<open>
  C39. \<open>GetStreamValue\<close> returns a later entry than the one it is asked for. It reads with \<open>XREAD\<close>,
  which returns entries strictly after an identifier, so an answer for the entry \<open>i0\<close> of a stream
  carries an entry whose identifier is greater than \<open>i0\<close>, never the entry \<open>i0\<close> itself; the answer
  goes to the owner of the stream only.
\<close>

theorem get_stream_value_skips:
  assumes "redis_contract R view clock up" and "jwt_contract J decode verifies" and "up s"
    and "gs_Name req = ''accounts/'' @ a @ ''/streams/'' @ b @ ''/values/'' @ sid_str i0" and "valid_id a" and "valid_id b"
    and "fst (GetStreamValue R (VerifyAndParseJwt J am) now req s) = Ok resp"
  shows "(\<exists>info i. gsr_StreamValueInfo resp = Some info \<and> sv_StreamEntryId info = sid_str i \<and> i0 < i) \<and>
    (\<exists>cl r. own_token decode verifies am (gs_AuthToken req) cl now \<and> registered_of cl = Some r \<and> rc_Subject r = a)"
proof -
  have p: "ParseResourceName (gs_Name req) [''accounts'', ''streams'', ''values''] = Inr [a, b, sid_str i0]"
    unfolding assms(4) by (rule ParseResourceName_entry [OF assms(5,6)])
  have "ensureAuthToken (VerifyAndParseJwt J am) now (gs_AuthToken req) a = Ok ()"
    using assms(7) p by (auto simp: GetStreamValue_def split: result.splits)
  then obtain cl r where c: "VerifyAndParseJwt J am (gs_AuthToken req) (Registered empty_registered) True now = Ok cl"
      "registered_of cl = Some r" "rc_Subject r = a"
    by (auto simp: ensureAuthToken_Ok)
  have "[a, b, sid_str i0] ! 2 = sid_str i0" by simp
  from redis_contract.GetStreamValue_next [OF assms(1,3) p this assms(7)] c verify_own_token [OF assms(2) c(1)]
  show ?thesis by (intro conjI) (assumption, intro exI [of _ cl] exI [of _ r] conjI)
qed

definition demo_get :: GetStreamValueRequest where
  "demo_get = \<lparr>gs_Name = ''accounts/bob/streams/in/values/'' @ sid_str (1, 0), gs_AuthToken = ''ident''\<rparr>"

theorem get_stream_value_skips_witness:
  "\<exists>resp info i. fst (GetStreamValue mem_redis (VerifyAndParseJwt demo_jwt demo_auth) (1000000 * Second) demo_get demo_stream_mem) = Ok resp \<and>
     gsr_StreamValueInfo resp = Some info \<and> sv_StreamEntryId info = sid_str i \<and> (1, 0) < i"
proof -
  have n: "gs_Name demo_get = ''accounts/'' @ ''bob'' @ ''/streams/'' @ ''in'' @ ''/values/'' @ sid_str (1, 0)"
    by (simp add: demo_get_def)
  have p: "ParseResourceName (gs_Name demo_get) [''accounts'', ''streams'', ''values''] = Inr [''bob'', ''in'', sid_str (1, 0)]"
    unfolding n by (rule ParseResourceName_entry [OF demo_ids(1,2)])
  have t: "ensureAuthToken (VerifyAndParseJwt demo_jwt demo_auth) (1000000 * Second) (gs_AuthToken demo_get) ''bob'' = Ok ()"
    using demo_ident demo_ids(3) by (auto simp: ensureAuthToken_Ok demo_get_def)
  have ok: "fst (GetStreamValue mem_redis (VerifyAndParseJwt demo_jwt demo_auth) (1000000 * Second) demo_get demo_stream_mem) =
      Ok \<lparr>gsr_StreamValueInfo = Some \<lparr>sv_Value = ''b'', sv_StreamEntryId = sid_str (1, 1)\<rparr>\<rparr>"
    by (simp add: GetStreamValue_def p t mem_XRead_def no_stream_def stream_after_def demo_stream_mem_def demo_stream_def
        Let_def xmsg_def parseXMessage_def del: sid_str_inject)
  from get_stream_value_skips [OF mem.redis_contract_axioms demo_jwt_contract demo_stream_ok(3) n demo_ids(1,2) ok] ok
  show ?thesis by blast
qed

text \<open>
  A stream of an account named by a DID cannot be read. For every name
  \<open>accounts/<a>/streams/<b>\<close> with an owner \<open>a\<close> that has a character outside the class of the
  resource-name pattern, such as the colons of the DIDs that the message definition demands,
  \<open>ListStreamValues\<close> answers \<open>InvalidArgument\<close>, whatever the token and the stream.
\<close>

theorem did_owner_rejected:
  assumes "ls_Parent req = ''accounts/'' @ a @ ''/streams/'' @ b" and "CHR ''/'' \<notin> set a" and "CHR ''/'' \<notin> set b"
    and "CHR '':'' \<in> set a"
  shows "ListStreamValues R verify now req s = (Err (Status InvalidArgument ''failed to parse resource name: %v''), s)"
proof (cases "ParseResourceName (ls_Parent req) [''accounts'', ''streams'']")
  case (Inl e)
  then show ?thesis by (simp add: ListStreamValues_def)
next
  case (Inr segs)
  with assms ParseResourceName_segments [OF assms(2,3), of segs] have "valid_id a" by simp
  then have "id_char (CHR '':'')" using assms(4) unfolding valid_id_def list_all_iff by blast
  then show ?thesis by simp
qed

theorem did_owner_rejected_witness:
  "fst (ListStreamValues mem_redis (VerifyAndParseJwt demo_jwt demo_auth) (1000000 * Second)
     \<lparr>ls_Parent = ''accounts/did:key:zbob/streams/in'', ls_AuthToken = ''ident'', ls_PageSize = 1, ls_PageToken = ''0-0''\<rparr> demo_stream_mem)
   = Err (Status InvalidArgument ''failed to parse resource name: %v'')"
  using did_owner_rejected [of "\<lparr>ls_Parent = ''accounts/did:key:zbob/streams/in'', ls_AuthToken = ''ident'', ls_PageSize = 1, ls_PageToken = ''0-0''\<rparr>"
      "''did:key:zbob''" "''in''" mem_redis "VerifyAndParseJwt demo_jwt demo_auth" "1000000 * Second" demo_stream_mem] by simp

end
