(* ===== verification/Values.thy ===== *)
theory Values
  imports Redis_Memory Demo_Libs
begin

section \<open>Content-addressed values (\<open>internal/api/handler.go\<close>)\<close>

text \<open>
  A value is stored under \<open>values/<cid>\<close>, where the CID is computed from its bytes and its codec.
  \<open>GetValue\<close> normalises the CID it is asked for to version 1 (\<open>NormalizeCidToV1\<close> of
  \<open>index.go\<close>); \<open>ProlongValue\<close> moves the expiry.
\<close>

subsection \<open>The code\<close>

definition value_key :: "string \<Rightarrow> string" where
  "value_key c = ''values/'' @ c"

definition HashRawBytes :: "libs \<Rightarrow> bytes \<Rightarrow> string result" where
  "HashRawBytes L inputBytes =
     (let digest = sha256 inputBytes
      in case multihash_Encode L digest SHA2_256 of
           Inl e \<Rightarrow> Panic ''multihash''
         | Inr mh \<Rightarrow> Ok (cid_String L (NewCidV1 cid_Raw mh)))"

definition Ping :: "PingRequest \<Rightarrow> 'r \<Rightarrow> PingResponse result \<times> 'r" where
  "Ping req s = (Ok \<lparr>pir_Pong = ''pong''\<rparr>, s)"

definition calculateCid :: "libs \<Rightarrow> CreateValueRequest \<Rightarrow> string result" where
  "calculateCid L req =
     (if cv_Codec req = CODEC_DAG_PB then
        (case merkledag_DecodeProtobuf L (cv_Value req) of
           Inl e \<Rightarrow> Err e
         | Inr nodeCid \<Rightarrow>
             if cid_Codec nodeCid \<noteq> cid_DagProtobuf
             then Err (Errorf ''expected codec to be dag-pb (%d) but got %d'')
             else Ok (cid_String L (NewCidV1 cid_DagProtobuf (cid_Hash nodeCid))))
      else if cv_Codec req = CODEC_RAW then HashRawBytes L (cv_Value req)
      else Err (Errorf ''only raw and dag-pb codec are allowed''))"

definition CreateValue ::
    "libs \<Rightarrow> 'r redis_client \<Rightarrow> CreateValueRequest \<Rightarrow> 'r \<Rightarrow> CreateValueResponse result \<times> 'r" where
  "CreateValue L R req s =
     (case calculateCid L req of
        Panic m \<Rightarrow> (Panic m, s)
      | Err e \<Rightarrow> (Err (Status InvalidArgument ''failed to calculate cid: %s''), s)
      | Ok c \<Rightarrow>
          let name = value_key c
          in case rSet R name (cv_Value req) (AsDuration L (cv_Ttl req)) s of
               (Inl e, s1) \<Rightarrow> (Err (Status Internal ''failed to set value''), s1)
             | (Inr _, s1) \<Rightarrow> (Ok \<lparr>cvr_Name = name, cvr_Ttl = cv_Ttl req\<rparr>, s1))"

definition NormalizeCidToV1 :: "libs \<Rightarrow> string \<Rightarrow> go_error + string" where
  "NormalizeCidToV1 L cidString =
     (case cid_Decode L cidString of
        Inl e \<Rightarrow> Inl (Status InvalidArgument ''failed to decode cid: %s'')
      | Inr requestCid \<Rightarrow>
          let codec = cid_Codec requestCid
          in if cid_Version requestCid = 1 \<and> (codec \<noteq> cid_Raw \<and> codec \<noteq> cid_DagProtobuf)
             then Inl (Status InvalidArgument ''currently only raw codec (%d) and dag-pb (%d) are accepted but got %d'')
             else Inr (cid_String L (NewCidV1 codec (cid_Hash requestCid))))"

definition GetValue ::
    "libs \<Rightarrow> 'r redis_client \<Rightarrow> GetValueRequest \<Rightarrow> 'r \<Rightarrow> GetValueResponse result \<times> 'r" where
  "GetValue L R req s =
     (case CutPrefix (gv_Name req) ''values/'' of
        (c, isFound) \<Rightarrow>
          if \<not> isFound
          then (Err (Status InvalidArgument ''expected resource name begin with \"values/\" but got %s''), s)
          else
            (case NormalizeCidToV1 L c of
               Inl e \<Rightarrow> (Err e, s)
             | Inr cidV1 \<Rightarrow>
                 let cidKey = value_key cidV1
                 in case rGet R cidKey s of
                      (Inl e, s1) \<Rightarrow>
                        if e = RedisNil then (Err (Status NotFound ''resource not found''), s1)
                        else (Err (Status Internal ''failed to get value''), s1)
                    | (Inr v, s1) \<Rightarrow> (Ok \<lparr>gvr_Value = v\<rparr>, s1)))"

definition ProlongValue ::
    "libs \<Rightarrow> 'r redis_client \<Rightarrow> ProlongValueRequest \<Rightarrow> 'r \<Rightarrow> ProlongValueResponse result \<times> 'r" where
  "ProlongValue L R req s =
     (if AsDuration L (pv_Ttl req) \<le> 0
      then (Err (Status InvalidArgument ''ttl and/or maxSize missing or corrupted''), s)
      else
        (case rMemoryUsage R (pv_Name req) s of
           (Inl e, s1) \<Rightarrow>
             if e = RedisNil then (Err (Status NotFound ''resource not found''), s1)
             else (Err (Status Internal ''failed to check memory usage''), s1)
         | (Inr valueSize, s1) \<Rightarrow>
             if pv_MaxSize req < valueSize then (Err (Status PermissionDenied ''value size exceeded''), s1)
             else
               (case rTTL R (pv_Name req) s1 of
                  (Inl e, s2) \<Rightarrow>
                    if e = RedisNil then (Err (Status NotFound ''resource not found''), s2)
                    else (Err (Status Internal ''failed to get ttl''), s2)
                | (Inr oldTtl, s2) \<Rightarrow>
                    let newTtl = wrap64 (AsDuration L (pv_Ttl req) + oldTtl)
                    in case rExpire R (pv_Name req) newTtl s2 of
                         (Inl e, s3) \<Rightarrow> (Err (Status Internal ''failed to set ttl''), s3)
                       | (Inr _, s3) \<Rightarrow>
                           (Ok \<lparr>pvr_Name = pv_Name req, pvr_Ttl = Some (durationpb_New L newTtl)\<rparr>, s3))))"

subsection \<open>Content identifiers\<close>

lemma calculateCid_Ok:
  "calculateCid L req = Ok c \<Longrightarrow>
     \<exists>codec mh. codec \<in> {cid_Raw, cid_DagProtobuf} \<and> c = cid_String L (NewCidV1 codec mh)"
  by (fastforce simp: calculateCid_def HashRawBytes_def Let_def split: if_splits sum.splits)

lemma NewCidV1_simps [simp]:
  "cid_Version (NewCidV1 codec mh) = 1" "cid_Codec (NewCidV1 codec mh) = codec" "cid_Hash (NewCidV1 codec mh) = mh"
  by (simp_all add: NewCidV1_def)

lemma normalize_canonical:
  "cid_roundtrip L \<Longrightarrow> codec \<in> {cid_Raw, cid_DagProtobuf} \<Longrightarrow>
     NormalizeCidToV1 L (cid_String L (NewCidV1 codec mh)) = Inr (cid_String L (NewCidV1 codec mh))"
  by (auto simp: NormalizeCidToV1_def cid_roundtrip_def)

lemma normalize_codec:
  "cid_versions L \<Longrightarrow> NormalizeCidToV1 L x = Inr y \<Longrightarrow>
     \<exists>codec mh. codec \<in> {cid_Raw, cid_DagProtobuf} \<and> y = cid_String L (NewCidV1 codec mh)"
  unfolding NormalizeCidToV1_def cid_versions_def
  by (fastforce simp: Let_def split: sum.splits if_splits)

lemma normalize_of_value: "cid_roundtrip L \<Longrightarrow> calculateCid L req = Ok c \<Longrightarrow> NormalizeCidToV1 L c = Inr c"
  using calculateCid_Ok [of L req c] normalize_canonical [of L] by auto

lemma value_key_inj [simp, key_simps]: "value_key a = value_key b \<longleftrightarrow> a = b"
  by (simp add: value_key_def)

lemma GetValue_key:
  "GetValue L R \<lparr>gv_Name = value_key c\<rparr> s =
     (case NormalizeCidToV1 L c of
        Inl e \<Rightarrow> (Err e, s)
      | Inr c' \<Rightarrow>
          (case rGet R (value_key c') s of
             (Inl e, s1) \<Rightarrow>
               if e = RedisNil then (Err (Status NotFound ''resource not found''), s1)
               else (Err (Status Internal ''failed to get value''), s1)
           | (Inr v, s1) \<Rightarrow> (Ok \<lparr>gvr_Value = v\<rparr>, s1)))"
proof -
  have "CutPrefix (value_key c) ''values/'' = (c, True)"
    unfolding value_key_def by (rule CutPrefix_append)
  then show ?thesis by (simp add: GetValue_def Let_def split: sum.split)
qed

subsection \<open>What the handlers do to the store\<close>

lemma expire_secs_bounds:
  assumes "0 < d"
  shows "0 < expire_secs d" and "d - Second < expire_secs d * Second" and "expire_secs d * Second < d + Second"
proof -
  have "0 < d div Second" if "Second \<le> d"
    using that by (simp add: pos_imp_zdiv_pos_iff Second_def)
  with assms show "0 < expire_secs d" by (simp add: expire_secs_def)
  have "d div Second * Second \<le> d" "d - Second < d div Second * Second"
    using div_mult_mod_eq [of d Second] pos_mod_bound [of Second d] pos_mod_sign [of Second d]
    by (simp_all add: Second_def)
  with assms show "d - Second < expire_secs d * Second" "expire_secs d * Second < d + Second"
    by (auto simp: expire_secs_def)
qed

lemma expire_secs_neg: "d < 0 \<Longrightarrow> expire_secs d \<le> 0"
  by (simp add: expire_secs_def Second_def pos_imp_zdiv_nonneg_iff)

context redis_contract
begin

lemma CreateValue_effect:
  assumes "up s" and "0 \<le> AsDuration L (cv_Ttl req)" and "calculateCid L req = Ok c"
  shows "fst (CreateValue L R req s) = Ok \<lparr>cvr_Name = value_key c, cvr_Ttl = cv_Ttl req\<rparr> \<and>
    view (snd (CreateValue L R req s)) =
      (view s)(value_key c \<mapsto> (RStr (cv_Value req), set_expiry (clock s) (AsDuration L (cv_Ttl req)))) \<and>
    up (snd (CreateValue L R req s)) \<and> clock (snd (CreateValue L R req s)) = clock s"
  using set_ok [OF assms(1,2), of "value_key c" "cv_Value req"] assms
  by (simp add: CreateValue_def case_prod_beta Let_def)

lemma CreateValue_Ok: "fst (CreateValue L R req s) = Ok resp \<Longrightarrow> \<exists>c. calculateCid L req = Ok c \<and> cvr_Name resp = value_key c"
  by (auto simp: CreateValue_def Let_def split: result.splits prod.splits sum.splits)

lemma GetValue_found:
  assumes "up s" and "NormalizeCidToV1 L c = Inr c'" and "view s (value_key c') = Some (RStr v, e)"
  shows "fst (GetValue L R \<lparr>gv_Name = value_key c\<rparr> s) = Ok \<lparr>gvr_Value = v\<rparr>"
  using get_str [OF assms(1,3)] assms(2) by (simp add: GetValue_key case_prod_beta)

lemma GetValue_missing:
  assumes "up s" and "NormalizeCidToV1 L c = Inr c'" and "view s (value_key c') = None"
  shows "fst (GetValue L R \<lparr>gv_Name = value_key c\<rparr> s) = Err (Status NotFound ''resource not found'')"
  using get_none [OF assms(1,3)] assms(2) by (simp add: GetValue_key case_prod_beta)

text \<open>What \<open>GetValue\<close> returns is in the store under the normalised CID of the name.\<close>

lemma GetValue_OkD:
  assumes "up s" and "fst (GetValue L R req s) = Ok resp"
  shows "\<exists>c c' e. gv_Name req = value_key c \<and> NormalizeCidToV1 L c = Inr c' \<and>
    view s (value_key c') = Some (RStr (gvr_Value resp), e)"
proof -
  obtain c fnd where cut: "CutPrefix (gv_Name req) ''values/'' = (c, fnd)"
    by (cases "CutPrefix (gv_Name req) ''values/''")
  with assms(2) have fnd by (auto simp: GetValue_def split: if_splits)
  with cut have name: "gv_Name req = value_key c" by (simp add: CutPrefix_found value_key_def)
  then have req: "req = \<lparr>gv_Name = value_key c\<rparr>" by simp
  obtain c' where n: "NormalizeCidToV1 L c = Inr c'"
    using assms(2) unfolding req GetValue_key by (cases "NormalizeCidToV1 L c") auto
  have g: "fst (rGet R (value_key c') s) = Inr (gvr_Value resp)"
    using assms(2) n unfolding req GetValue_key
    by (auto simp: case_prod_beta split: sum.splits if_splits)
  have "\<exists>e. view s (value_key c') = Some (RStr (gvr_Value resp), e)"
  proof (cases "view s (value_key c')")
    case None
    with g get_none [OF assms(1)] show ?thesis by simp
  next
    case (Some p)
    then obtain val e where p: "view s (value_key c') = Some (val, e)" by (cases p) simp
    show ?thesis
    proof (cases "\<exists>v. val = RStr v")
      case True
      then obtain v where "val = RStr v" ..
      with p g get_str [OF assms(1), of "value_key c'" v e] show ?thesis by simp
    next
      case False
      with p g get_wrongtype [OF assms(1) p] show ?thesis by auto
    qed
  qed
  with name n show ?thesis by blast
qed

lemma CreateValue_other:
  "up s \<Longrightarrow> up (snd (CreateValue L R req s)) \<and> clock (snd (CreateValue L R req s)) = clock s \<and>
     (\<forall>k. view (snd (CreateValue L R req s)) k = view s k \<or>
        (\<exists>c e. calculateCid L req = Ok c \<and> k = value_key c \<and>
           view (snd (CreateValue L R req s)) k = Some (RStr (cv_Value req), e)))"
proof (cases "calculateCid L req")
  case (Ok c)
  assume u: "up s"
  let ?d = "AsDuration L (cv_Ttl req)" and ?k = "value_key c"
  have s: "snd (CreateValue L R req s) = snd (rSet R ?k (cv_Value req) ?d s)"
    using Ok by (auto simp: CreateValue_def Let_def split: prod.splits sum.splits)
  have "view (snd (rSet R ?k (cv_Value req) ?d s)) k = view s k \<or>
      k = ?k \<and> (\<exists>e. view (snd (rSet R ?k (cv_Value req) ?d s)) k = Some (RStr (cv_Value req), e))" for k
    using set_frame [OF u, of k ?k "cv_Value req" ?d] set_key [OF u, of ?k "cv_Value req" ?d] by auto
  with u Ok show ?thesis unfolding s by auto
qed (simp_all add: CreateValue_def)

lemma GetValue_reads:
  "up s \<Longrightarrow> up (snd (GetValue L R req s)) \<and> clock (snd (GetValue L R req s)) = clock s \<and>
     view (snd (GetValue L R req s)) = view s"
  by (auto simp: GetValue_def case_prod_beta Let_def split: sum.splits)

lemma ProlongValue_eq:
  assumes "0 < AsDuration L (pv_Ttl req)" and "fst (rMemoryUsage R (pv_Name req) s) = Inr n" and "n \<le> pv_MaxSize req"
    and "fst (rTTL R (pv_Name req) (snd (rMemoryUsage R (pv_Name req) s))) = Inr old"
    and "fst (rExpire R (pv_Name req) (wrap64 (AsDuration L (pv_Ttl req) + old))
      (snd (rTTL R (pv_Name req) (snd (rMemoryUsage R (pv_Name req) s))))) = Inr b"
  shows "ProlongValue L R req s =
    (Ok \<lparr>pvr_Name = pv_Name req, pvr_Ttl = Some (durationpb_New L (wrap64 (AsDuration L (pv_Ttl req) + old)))\<rparr>,
     snd (rExpire R (pv_Name req) (wrap64 (AsDuration L (pv_Ttl req) + old))
       (snd (rTTL R (pv_Name req) (snd (rMemoryUsage R (pv_Name req) s))))))"
  using assms by (simp add: ProlongValue_def case_prod_beta Let_def)

lemma ProlongValue_effect:
  assumes u: "up s" and k: "view s (pv_Name req) = Some (val, Some till)"
    and d: "0 < AsDuration L (pv_Ttl req)"
    and n: "fst (rMemoryUsage R (pv_Name req) s) = Inr n" "n \<le> pv_MaxSize req"
    and i: "in_int64 (AsDuration L (pv_Ttl req) + (till - clock s + 1000) * Millisecond)"
  shows "\<exists>till' resp. fst (ProlongValue L R req s) = Ok resp \<and>
    view (snd (ProlongValue L R req s)) = (view s)(pv_Name req \<mapsto> (val, Some till')) \<and>
    \<bar>till' * Millisecond - (till * Millisecond + AsDuration L (pv_Ttl req))\<bar> < 2 * Second"
proof -
  let ?k = "pv_Name req" and ?d = "AsDuration L (pv_Ttl req)"
  let ?s1 = "snd (rMemoryUsage R ?k s)"
  have s1: "up ?s1" "view ?s1 ?k = Some (val, Some till)" "clock ?s1 = clock s" "view ?s1 = view s"
    using mem_healthy [OF u] k by simp_all
  obtain m where m: "fst (rTTL R ?k ?s1) = Inr (m * Second)" "0 \<le> m" "\<bar>m * 1000 - (till - clock s)\<bar> < 1000"
    using ttl_some [OF s1(1,2)] s1(3) by auto
  let ?s2 = "snd (rTTL R ?k ?s1)" and ?n = "?d + m * Second"
  have s2: "up ?s2" "view ?s2 ?k = Some (val, Some till)" "clock ?s2 = clock s" "view ?s2 = view s"
    using ttl_healthy [OF s1(1)] s1 by simp_all
  have pos: "0 < ?n" using d m(2) by (simp add: Second_def)
  have "?n \<le> ?d + (till - clock s + 1000) * Millisecond"
    using m(3) by (simp add: duration_defs)
  with pos i have w: "wrap64 ?n = ?n" by (intro wrap64_id) (simp add: in_int64_def int64_min_def)
  note b = expire_secs_bounds [OF pos]
  note e = expire_some [OF s2(1,2) b(1)]
  have "ProlongValue L R req s =
      (Ok \<lparr>pvr_Name = ?k, pvr_Ttl = Some (durationpb_New L ?n)\<rparr>, snd (rExpire R ?k ?n ?s2))"
    using ProlongValue_eq [OF d n m(1)] e w by simp
  moreover have "view (snd (rExpire R ?k ?n ?s2)) =
      (view s)(?k \<mapsto> (val, Some (clock s + expire_secs ?n * 1000)))"
    using e s2(3,4) by simp
  moreover have "\<bar>(clock s + expire_secs ?n * 1000) * Millisecond - (till * Millisecond + ?d)\<bar> < 2 * Second"
    using b(2,3) m(3) by (simp add: duration_defs)
  ultimately show ?thesis by auto
qed

lemma ProlongValue_overflow:
  assumes u: "up s" and k: "view s (pv_Name req) = Some (val, Some till)"
    and d: "0 < AsDuration L (pv_Ttl req)" "AsDuration L (pv_Ttl req) \<le> int64_max"
    and n: "fst (rMemoryUsage R (pv_Name req) s) = Inr n" "n \<le> pv_MaxSize req"
    and i: "int64_max < AsDuration L (pv_Ttl req) + (till - clock s - 1000) * Millisecond"
      "(till - clock s + 1000) * Millisecond \<le> int64_max"
  shows "is_Ok (fst (ProlongValue L R req s)) \<and>
    view (snd (ProlongValue L R req s)) = (view s)(pv_Name req := None)"
proof -
  let ?k = "pv_Name req" and ?d = "AsDuration L (pv_Ttl req)"
  let ?s1 = "snd (rMemoryUsage R ?k s)"
  have s1: "up ?s1" "view ?s1 ?k = Some (val, Some till)" "clock ?s1 = clock s" "view ?s1 = view s"
    using mem_healthy [OF u] k by simp_all
  obtain m where m: "fst (rTTL R ?k ?s1) = Inr (m * Second)" "0 \<le> m" "\<bar>m * 1000 - (till - clock s)\<bar> < 1000"
    using ttl_some [OF s1(1,2)] s1(3) by auto
  let ?s2 = "snd (rTTL R ?k ?s1)" and ?n = "?d + m * Second"
  have s2: "up ?s2" "view ?s2 ?k = Some (val, Some till)" "view ?s2 = view s"
    using ttl_healthy [OF s1(1)] s1 by simp_all
  have "int64_max < ?n" "?n \<le> 2 * int64_max"
    using m(3) i d by (simp_all add: duration_defs)
  then have "wrap64 ?n < 0" using wrap64_over by blast
  then have "expire_secs (wrap64 ?n) \<le> 0" by (simp add: expire_secs_neg)
  note e = expire_past [OF s2(1,2) this]
  have "ProlongValue L R req s = (Ok \<lparr>pvr_Name = ?k, pvr_Ttl = Some (durationpb_New L (wrap64 ?n))\<rparr>,
      snd (rExpire R ?k (wrap64 ?n) ?s2))"
    using ProlongValue_eq [OF d(1) n m(1)] e by simp
  with e s2(3) show ?thesis by simp
qed

text \<open>Whatever the request, \<open>ProlongValue\<close> touches one key and changes no value.\<close>

lemma ProlongValue_other:
  assumes "up s"
  shows "up (snd (ProlongValue L R req s)) \<and> clock (snd (ProlongValue L R req s)) = clock s \<and>
    (\<forall>k. k \<noteq> pv_Name req \<longrightarrow> view (snd (ProlongValue L R req s)) k = view s k) \<and>
    (\<forall>k v e. view (snd (ProlongValue L R req s)) k = Some (v, e) \<longrightarrow> (\<exists>e'. view s k = Some (v, e')))"
proof -
  let ?k = "pv_Name req"
  let ?s1 = "snd (rMemoryUsage R ?k s)"
  let ?s2 = "snd (rTTL R ?k ?s1)"
  have u2: "up ?s2" "clock ?s2 = clock s" "view ?s2 = view s" "up ?s1" "clock ?s1 = clock s" "view ?s1 = view s"
    using assms by simp_all
  have cases: "snd (ProlongValue L R req s) \<in> {s, ?s1, ?s2} \<or>
      (\<exists>d. snd (ProlongValue L R req s) = snd (rExpire R ?k d ?s2))"
    by (auto simp: ProlongValue_def case_prod_beta Let_def split: sum.split)
  have exp: "up (snd (rExpire R ?k d ?s2)) \<and> clock (snd (rExpire R ?k d ?s2)) = clock s \<and>
      (\<forall>k. k \<noteq> ?k \<longrightarrow> view (snd (rExpire R ?k d ?s2)) k = view s k) \<and>
      (\<forall>k v e. view (snd (rExpire R ?k d ?s2)) k = Some (v, e) \<longrightarrow> (\<exists>e'. view s k = Some (v, e')))" for d
  proof -
    have "\<exists>e'. view s k = Some (v, e')" if "view (snd (rExpire R ?k d ?s2)) k = Some (v, e)" for k v e
    proof (cases "k = ?k")
      case True
      with that expire_value [OF u2(1)] u2(3) show ?thesis by simp
    next
      case False
      with that expire_frame [OF u2(1) False] u2(3) show ?thesis by simp
    qed
    with expire_frame [OF u2(1)] u2 show ?thesis by simp
  qed
  from cases show ?thesis
  proof
    assume "snd (ProlongValue L R req s) \<in> {s, ?s1, ?s2}"
    with u2 assms show ?thesis by auto
  next
    assume "\<exists>d. snd (ProlongValue L R req s) = snd (rExpire R ?k d ?s2)"
    with exp show ?thesis by metis
  qed
qed

end

subsection \<open>Content integrity\<close>

text \<open>
  Every live key \<open>values/<c>\<close>, where \<open>c\<close> has no slash, holds a string whose identifier under one of
  the two codecs is \<open>c\<close>.
\<close>

definition values_intact :: "libs \<Rightarrow> keyspace \<Rightarrow> bool" where
  "values_intact L ks \<longleftrightarrow>
     (\<forall>c x e. CHR ''/'' \<notin> set c \<longrightarrow> ks (value_key c) = Some (x, e) \<longrightarrow>
        (\<exists>req. calculateCid L req = Ok c \<and> x = RStr (cv_Value req)))"

lemma values_intactD:
  "values_intact L ks \<Longrightarrow> CHR ''/'' \<notin> set c \<Longrightarrow> ks (value_key c) = Some (x, e) \<Longrightarrow>
     \<exists>req. calculateCid L req = Ok c \<and> x = RStr (cv_Value req)"
  by (simp add: values_intact_def)

lemma values_intactI:
  assumes "values_intact L ks"
    and "\<And>c x e. CHR ''/'' \<notin> set c \<Longrightarrow> ks' (value_key c) = Some (x, e) \<Longrightarrow>
      (\<exists>e'. ks (value_key c) = Some (x, e')) \<or> (\<exists>req. calculateCid L req = Ok c \<and> x = RStr (cv_Value req))"
  shows "values_intact L ks'"
  unfolding values_intact_def
proof (intro allI impI)
  fix c x e assume c: "CHR ''/'' \<notin> set c" and "ks' (value_key c) = Some (x, e)"
  from assms(2) [OF this] show "\<exists>req. calculateCid L req = Ok c \<and> x = RStr (cv_Value req)"
    by (elim disjE exE) (erule values_intactD [OF assms(1) c], blast)
qed

lemma values_intact_empty [simp]: "values_intact L Map.empty"
  by (simp add: values_intact_def)

lemma values_intact_purge:
  assumes i: "values_intact L ks"
  shows "values_intact L (purge t ks)"
proof (rule values_intactI [OF i])
  fix c x e assume c: "CHR ''/'' \<notin> set c" and p: "purge t ks (value_key c) = Some (x, e)"
  then obtain y e' where y: "ks (value_key c) = Some (y, e')"
    by (cases "ks (value_key c)") (auto simp: purge_None)
  obtain req where "calculateCid L req = Ok c" "y = RStr (cv_Value req)"
    using values_intactD [OF i c y] by blast
  with p y show "(\<exists>e'. ks (value_key c) = Some (x, e')) \<or> (\<exists>req. calculateCid L req = Ok c \<and> x = RStr (cv_Value req))"
    by (auto simp: purge_def split: if_splits)
qed

context redis_contract
begin

lemma CreateValue_intact:
  assumes u: "up s" and i: "values_intact L (view s)"
  shows "values_intact L (view (snd (CreateValue L R req s)))"
proof (rule values_intactI [OF i])
  fix c x e assume v: "view (snd (CreateValue L R req s)) (value_key c) = Some (x, e)"
  have "view (snd (CreateValue L R req s)) (value_key c) = view s (value_key c) \<or>
      (\<exists>c' e'. calculateCid L req = Ok c' \<and> value_key c = value_key c' \<and>
         view (snd (CreateValue L R req s)) (value_key c) = Some (RStr (cv_Value req), e'))"
    by (rule CreateValue_other [OF u, of L req, THEN conjunct2, THEN conjunct2, THEN spec])
  with v show "(\<exists>e'. view s (value_key c) = Some (x, e')) \<or> (\<exists>req. calculateCid L req = Ok c \<and> x = RStr (cv_Value req))"
    by (elim disjE exE conjE; simp) blast
qed

lemma ProlongValue_intact:
  assumes u: "up s" and i: "values_intact L (view s)"
  shows "values_intact L (view (snd (ProlongValue L R req s)))"
  using ProlongValue_other [OF u, of L req] by (intro values_intactI [OF i] disjI1) simp

lemma GetValue_authentic:
  assumes "up s" and "values_intact L (view s)" and "cid_plain L" and "fst (GetValue L R req s) = Ok resp"
  shows "\<exists>c c' creq. gv_Name req = value_key c \<and> NormalizeCidToV1 L c = Inr c' \<and>
    cv_Value creq = gvr_Value resp \<and> calculateCid L creq = Ok c'"
proof -
  obtain c c' e where c: "gv_Name req = value_key c" "NormalizeCidToV1 L c = Inr c'"
    "view s (value_key c') = Some (RStr (gvr_Value resp), e)"
    using GetValue_OkD [OF assms(1,4)] by blast
  have "CHR ''/'' \<notin> set c'"
    using c(2) assms(3) by (auto simp: NormalizeCidToV1_def cid_plain_def Let_def split: sum.splits if_splits)
  from values_intactD [OF assms(2) this c(3)] obtain creq
    where "calculateCid L creq = Ok c'" "gvr_Value resp = cv_Value creq" by auto
  with c show ?thesis by (intro exI [of _ c] exI [of _ c'] exI [of _ creq]) simp
qed

end

subsection \<open>Properties\<close>

text \<open>
  C17. A stored value can be read back by the name its creation returned, byte for byte, until its
  time to live has passed, and from then on the answer is \<open>NotFound\<close>. A time to live of zero never
  passes.
\<close>

theorem create_then_get:
  assumes "redis_contract R view clock up" and "cid_roundtrip L" and "up s"
    and "0 \<le> AsDuration L (cv_Ttl req)" and "CreateValue L R req s = (Ok resp, s1)"
    and "elapse view clock up s1 s2"
  shows "fst (GetValue L R \<lparr>gv_Name = cvr_Name resp\<rparr> s2) =
    (if unexpired (clock s2) (set_expiry (clock s) (AsDuration L (cv_Ttl req)))
     then Ok \<lparr>gvr_Value = cv_Value req\<rparr> else Err (Status NotFound ''resource not found''))"
proof -
  obtain c where c: "calculateCid L req = Ok c" "cvr_Name resp = value_key c"
    using redis_contract.CreateValue_Ok [OF assms(1), of L req s resp] assms(5) by auto
  note n = normalize_of_value [OF assms(2) c(1)]
  have v: "view s1 (value_key c) = Some (RStr (cv_Value req), set_expiry (clock s) (AsDuration L (cv_Ttl req)))"
    using redis_contract.CreateValue_effect [OF assms(1,3,4) c(1)] assms(5) by simp
  have u: "up s2" and p: "view s2 = purge (clock s2) (view s1)" using assms(6) by (simp_all add: elapse_def)
  show ?thesis
  proof (cases "unexpired (clock s2) (set_expiry (clock s) (AsDuration L (cv_Ttl req)))")
    case True
    with v p have "view s2 (value_key c) = Some (RStr (cv_Value req), set_expiry (clock s) (AsDuration L (cv_Ttl req)))"
      by (simp add: purge_str)
    from redis_contract.GetValue_found [OF assms(1) u n this] True c(2) show ?thesis by simp
  next
    case False
    with v p have "view s2 (value_key c) = None" by (simp add: purge_def)
    from redis_contract.GetValue_missing [OF assms(1) u n this] False c(2) show ?thesis by simp
  qed
qed

definition demo_create :: CreateValueRequest where
  "demo_create = \<lparr>cv_Codec = CODEC_RAW, cv_Value = ''hello'', cv_Ttl = Some \<lparr>d_Seconds = 60, d_Nanos = 0\<rparr>\<rparr>"

definition demo_create_mem :: "int \<Rightarrow> mem" where
  "demo_create_mem t = snd (CreateValue demo_libs mem_redis demo_create \<lparr>mclock = t, mkeys = Map.empty\<rparr>)"

definition demo_cid :: string where
  "demo_cid = cid_String demo_libs (NewCidV1 cid_Raw (sha256 ''hello''))"

lemma demo_calculateCid: "calculateCid demo_libs demo_create = Ok demo_cid"
  by (simp add: calculateCid_def demo_create_def codec_defs HashRawBytes_def demo_cid_def demo_libs_def)

lemma demo_ttl: "AsDuration demo_libs (cv_Ttl demo_create) = 60 * Second"
  by (simp add: demo_libs_def demo_create_def)

lemma demo_created:
  "CreateValue demo_libs mem_redis demo_create \<lparr>mclock = t, mkeys = Map.empty\<rparr> =
     (Ok \<lparr>cvr_Name = value_key demo_cid, cvr_Ttl = cv_Ttl demo_create\<rparr>,
      \<lparr>mclock = t, mkeys = [value_key demo_cid \<mapsto> (RStr ''hello'', Some (t + 60000))]\<rparr>)"
  by (simp add: CreateValue_def demo_calculateCid demo_ttl mem_Set_def put_def set_expiry_def Second_def Millisecond_def Let_def)
     (simp add: demo_create_def)

theorem create_then_get_witness:
  "fst (GetValue demo_libs mem_redis \<lparr>gv_Name = value_key demo_cid\<rparr>
     \<lparr>mclock = 59999, mkeys = [value_key demo_cid \<mapsto> (RStr ''hello'', Some 60000)]\<rparr>) = Ok \<lparr>gvr_Value = ''hello''\<rparr> \<and>
   fst (GetValue demo_libs mem_redis \<lparr>gv_Name = value_key demo_cid\<rparr> \<lparr>mclock = 60000, mkeys = Map.empty\<rparr>)
     = Err (Status NotFound ''resource not found'')"
proof -
  let ?s = "\<lparr>mclock = 0, mkeys = Map.empty\<rparr> :: mem"
  let ?s1 = "\<lparr>mclock = 0, mkeys = [value_key demo_cid \<mapsto> (RStr ''hello'', Some 60000)]\<rparr> :: mem"
  have c: "CreateValue demo_libs mem_redis demo_create ?s =
      (Ok \<lparr>cvr_Name = value_key demo_cid, cvr_Ttl = cv_Ttl demo_create\<rparr>, ?s1)"
    using demo_created [of 0] by simp
  have u: "mup ?s" by (simp add: mup_def)
  have e1: "elapse mkeys mclock mup ?s1 \<lparr>mclock = 59999, mkeys = [value_key demo_cid \<mapsto> (RStr ''hello'', Some 60000)]\<rparr>"
    by (auto simp: elapse_def mup_def fun_eq_iff purge_def unexpired_def)
  have e2: "elapse mkeys mclock mup ?s1 \<lparr>mclock = 60000, mkeys = Map.empty\<rparr>"
    by (auto simp: elapse_def mup_def fun_eq_iff purge_def unexpired_def)
  note get = create_then_get [OF mem.redis_contract_axioms demo_cid_roundtrip u _ c]
  from get [OF _ e1] get [OF _ e2] show ?thesis
    by (simp add: demo_ttl set_expiry_def unexpired_def Second_def Millisecond_def) (simp add: demo_create_def)
qed

text \<open>
  \<open>ProlongValue\<close> extends the life of a value by what was asked for. For a key with an expiry,
  whose size is within the limit paid for, and as long as the sum of the times fits 64 bits, the
  request succeeds, the value is unchanged, and the new expiry is the old one plus the time asked
  for, to within the two seconds that the whole-second commands of Redis round away.
\<close>

theorem prolong_extends:
  assumes "redis_contract R view clock up" and "up s" and "view s (pv_Name req) = Some (val, Some till)"
    and "0 < AsDuration L (pv_Ttl req)"
    and "fst (rMemoryUsage R (pv_Name req) s) = Inr n" and "n \<le> pv_MaxSize req"
    and "in_int64 (AsDuration L (pv_Ttl req) + (till - clock s + 1000) * Millisecond)"
  shows "\<exists>till' resp. fst (ProlongValue L R req s) = Ok resp \<and>
    view (snd (ProlongValue L R req s)) = (view s)(pv_Name req \<mapsto> (val, Some till')) \<and>
    \<bar>till' * Millisecond - (till * Millisecond + AsDuration L (pv_Ttl req))\<bar> < 2 * Second"
  using redis_contract.ProlongValue_effect [OF assms] .

definition demo_prolong :: "int \<Rightarrow> ProlongValueRequest" where
  "demo_prolong secs = \<lparr>pv_Name = ''values/x'', pv_Ttl = Some \<lparr>d_Seconds = secs, d_Nanos = 0\<rparr>, pv_MaxSize = 1000\<rparr>"

definition demo_value_mem :: "int \<Rightarrow> mem" where
  "demo_value_mem till = \<lparr>mclock = 0, mkeys = [''values/x'' \<mapsto> (RStr ''hello'', Some till)]\<rparr>"

lemma demo_prolong_facts:
  "mkeys (demo_value_mem till) (pv_Name (demo_prolong n)) = Some (RStr ''hello'', Some till)"
  "AsDuration demo_libs (pv_Ttl (demo_prolong n)) = n * Second"
  "\<exists>m \<le> 1000. fst (rMemoryUsage mem_redis (pv_Name (demo_prolong n)) (demo_value_mem till)) = Inr m"
  "pv_MaxSize (demo_prolong n) = 1000" "mclock (demo_value_mem till) = 0" "pv_Name (demo_prolong n) = ''values/x''"
  by (simp_all add: demo_prolong_def demo_value_mem_def demo_libs_def mem_MemoryUsage_def)

theorem prolong_extends_witness:
  "\<exists>till' resp. fst (ProlongValue demo_libs mem_redis (demo_prolong 60) (demo_value_mem 5000)) = Ok resp \<and>
     mkeys (snd (ProlongValue demo_libs mem_redis (demo_prolong 60) (demo_value_mem 5000))) =
       [''values/x'' \<mapsto> (RStr ''hello'', Some till')] \<and> \<bar>till' - 65000\<bar> < 2000"
proof -
  obtain m where m: "m \<le> 1000" "fst (rMemoryUsage mem_redis (pv_Name (demo_prolong 60)) (demo_value_mem 5000)) = Inr m"
    using demo_prolong_facts(3) by blast
  have u: "mup (demo_value_mem 5000)" by (simp add: mup_def demo_value_mem_def)
  have i: "in_int64 (AsDuration demo_libs (pv_Ttl (demo_prolong 60)) + (5000 - mclock (demo_value_mem 5000) + 1000) * Millisecond)"
    by (simp add: demo_prolong_facts in_int64_def int64_min_def int64_max_def duration_defs)
  from prolong_extends [OF mem.redis_contract_axioms u demo_prolong_facts(1) _ m(2) _ i] m(1) obtain till' resp where
    "fst (ProlongValue demo_libs mem_redis (demo_prolong 60) (demo_value_mem 5000)) = Ok resp"
    "mkeys (snd (ProlongValue demo_libs mem_redis (demo_prolong 60) (demo_value_mem 5000))) =
       (mkeys (demo_value_mem 5000))(''values/x'' \<mapsto> (RStr ''hello'', Some till'))"
    "\<bar>till' * Millisecond - (5000 * Millisecond + 60 * Second)\<bar> < 2 * Second"
    by (auto simp: demo_prolong_facts Second_def)
  then show ?thesis
    by (intro exI [of _ till'] exI [of _ resp]) (simp add: demo_value_mem_def duration_defs)
qed

text \<open>
  C36. \<open>ProlongValue\<close> destroys a value whose life has been prolonged too far. When the remaining time
  plus the time asked for exceeds the largest \<open>time.Duration\<close> the sum wraps to a negative number,
  \<open>Expire\<close> deletes the key, and the caller is answered with success.
\<close>

theorem prolong_overflow_deletes:
  assumes "redis_contract R view clock up" and "up s" and "view s (pv_Name req) = Some (val, Some till)"
    and "0 < AsDuration L (pv_Ttl req)" and "AsDuration L (pv_Ttl req) \<le> int64_max"
    and "fst (rMemoryUsage R (pv_Name req) s) = Inr n" and "n \<le> pv_MaxSize req"
    and "int64_max < AsDuration L (pv_Ttl req) + (till - clock s - 1000) * Millisecond"
    and "(till - clock s + 1000) * Millisecond \<le> int64_max"
  shows "is_Ok (fst (ProlongValue L R req s)) \<and>
    view (snd (ProlongValue L R req s)) = (view s)(pv_Name req := None)"
  using redis_contract.ProlongValue_overflow [OF assms] .

theorem prolong_overflow_deletes_witness:
  "is_Ok (fst (ProlongValue demo_libs mem_redis (demo_prolong 31536000) (demo_value_mem 9200000000000))) \<and>
   mkeys (snd (ProlongValue demo_libs mem_redis (demo_prolong 31536000) (demo_value_mem 9200000000000))) = Map.empty"
proof -
  obtain m where m: "m \<le> 1000"
    "fst (rMemoryUsage mem_redis (pv_Name (demo_prolong 31536000)) (demo_value_mem 9200000000000)) = Inr m"
    using demo_prolong_facts(3) by blast
  have u: "mup (demo_value_mem 9200000000000)" by (simp add: mup_def demo_value_mem_def)
  from prolong_overflow_deletes [OF mem.redis_contract_axioms u demo_prolong_facts(1) _ _ m(2)] m(1)
  show ?thesis
    by (simp add: demo_prolong_facts duration_defs int64_max_def) (simp add: demo_value_mem_def)
qed

text \<open>
  Normalising a CID gives a canonical name. The result is a version 1 CID of one of the two
  codecs, normalising it again changes nothing, and two CIDs with the same codec and multihash have
  the same result whatever their versions, so a version 0 name finds the value stored under version 1.
\<close>

theorem normalize_canonicalises:
  assumes "cid_roundtrip L" and "cid_versions L" and "NormalizeCidToV1 L x = Inr y"
  shows "NormalizeCidToV1 L y = Inr y \<and>
    (\<forall>x' d d'. cid_Decode L x = Inr d \<longrightarrow> cid_Decode L x' = Inr d' \<longrightarrow> cid_Codec d' = cid_Codec d \<longrightarrow>
       cid_Hash d' = cid_Hash d \<longrightarrow> NormalizeCidToV1 L x' = Inr y)"
proof -
  obtain codec mh where c: "codec \<in> {cid_Raw, cid_DagProtobuf}" "y = cid_String L (NewCidV1 codec mh)"
    using normalize_codec [OF assms(2,3)] by blast
  have k: "\<forall>x c. cid_Decode L x = Inr c \<longrightarrow> cid_Version c = 1 \<or> cid_Version c = 0 \<and> cid_Codec c = cid_DagProtobuf"
    using assms(2) by (simp add: cid_versions_def)
  have "NormalizeCidToV1 L x' = Inr y"
    if d: "cid_Decode L x = Inr d" "cid_Decode L x' = Inr d'" "cid_Codec d' = cid_Codec d" "cid_Hash d' = cid_Hash d" for x' d d'
    using assms(3) d k [rule_format, OF d(1)] k [rule_format, OF d(2)]
    by (auto simp: NormalizeCidToV1_def Let_def cid_DagProtobuf_def cid_Raw_def split: if_splits)
  with normalize_canonical [OF assms(1) c(1)] c(2) show ?thesis by blast
qed

theorem normalize_canonicalises_witness:
  "NormalizeCidToV1 demo_libs ''raa'' = Inr ''raa''"
proof -
  have h: "hex [char_of (0::nat)] = ''aa''" by code_simp
  have u: "unhex ''aa'' = [char_of (0::nat)]" by code_simp
  have n: "NormalizeCidToV1 demo_libs ''raa'' = Inr ''raa''"
    by (simp add: NormalizeCidToV1_def demo_libs_def demo_cid_Decode_def demo_cid_String_def u h del: unhex.simps hex.simps)
  have v: "cid_versions demo_libs"
    by (auto simp: cid_versions_def demo_libs_def demo_cid_Decode_def split: list.splits if_splits)
  from normalize_canonicalises [OF demo_cid_roundtrip v n] n show ?thesis by simp
qed

end
