(* ===== verification/Virtual_Service.thy ===== *)
theory Virtual_Service
  imports Values
begin

section \<open>Advertisements (\<open>internal/api/virtual_service.go\<close>, \<open>kvstore.pb.binary.go\<close>)\<close>

text \<open>
  A provider advertises that it serves a set of CIDs as a virtual service. The advertisement is
  accepted when the name of the service's variant link is the Merkle root of the CIDs, and is then
  written to five families of Redis keys, three of them by the hash of the virtual service.
\<close>

subsection \<open>The code\<close>

definition SERVE_ALL_BEHAVIOR_NAME :: string where "SERVE_ALL_BEHAVIOR_NAME = ''serve_all''"
definition SERVE_ALL_BEHAVIOR_MAINTAINER :: string where "SERVE_ALL_BEHAVIOR_MAINTAINER = ''did:example:foo''"
definition SERVE_ALL_BEHAVIOR_VERSION :: string where "SERVE_ALL_BEHAVIOR_VERSION = ''v0.1.0''"
definition DEFAULT_TTL :: int where "DEFAULT_TTL = 7 * 24 * 3600 * Second"

definition ServeAllBehavior :: GlobalLink where
  "ServeAllBehavior = \<lparr>gl_Name = SERVE_ALL_BEHAVIOR_NAME, gl_Maintainer = SERVE_ALL_BEHAVIOR_MAINTAINER,
     gl_Version = SERVE_ALL_BEHAVIOR_VERSION, gl_DisplayName = '''', gl_Description = '''', gl_Signature = ''''\<rparr>"

fun decodeCids :: "libs \<Rightarrow> string list \<Rightarrow> bytes list \<Rightarrow> go_error + bytes list" where
  "decodeCids L [] cids = Inr cids"
| "decodeCids L (cidString # rest) cids =
     (case cid_Decode L cidString of
        Inl e \<Rightarrow> Inl (Status InvalidArgument ''failed to parse cid %s: %v'')
      | Inr c \<Rightarrow> decodeCids L rest (cids @ [cid_Bytes L c]))"

definition CalculateMerkleRoot :: "libs \<Rightarrow> string list \<Rightarrow> go_error + string" where
  "CalculateMerkleRoot L cidStrings =
     (case decodeCids L cidStrings [] of
        Inl e \<Rightarrow> Inl e
      | Inr cids \<Rightarrow>
          (case merkletree_Root L cids of
             Inl e \<Rightarrow> Inl (Status InvalidArgument ''failed to create merkle tree: %v'')
           | Inr mtRoot \<Rightarrow>
               (case multihash_Encode L mtRoot KECCAK_256 of
                  Inl e \<Rightarrow> Inl (Status Internal ''failed to encode merkle root: %v'')
                | Inr mh \<Rightarrow> Inr (cid_String L (NewCidV1 cid_Raw mh)))))"

text \<open>\<open>HashMessage\<close> is generic in the message; its argument here is the result of \<open>proto.Marshal\<close>.\<close>

definition HashMessage :: "libs \<Rightarrow> go_error + bytes \<Rightarrow> go_error + string" where
  "HashMessage L marshalled =
     (case marshalled of
        Inl e \<Rightarrow> Inl e
      | Inr message \<Rightarrow> Inr (base58_Encode L (sha256 message)))"

definition GlobalLinkEqual :: "libs \<Rightarrow> GlobalLink option \<Rightarrow> GlobalLink option \<Rightarrow> go_error + bool" where
  "GlobalLinkEqual L a b =
     (case HashMessage L (Marshal_GlobalLink L a) of
        Inl e \<Rightarrow> Inl e
      | Inr aHash \<Rightarrow>
          (case HashMessage L (Marshal_GlobalLink L b) of
             Inl e \<Rightarrow> Inl e
           | Inr bHash \<Rightarrow> Inr (EqualFold aHash bHash)))"

definition IsBehaviorMatching :: "libs \<Rightarrow> GlobalLink option \<Rightarrow> go_error + bool" where
  "IsBehaviorMatching L behaviorLink = GlobalLinkEqual L behaviorLink (Some ServeAllBehavior)"

definition EnsureAdvertisementValid :: "libs \<Rightarrow> ProviderAdvertise option \<Rightarrow> go_error + unit" where
  "EnsureAdvertisementValid L advertisement =
     (let variant = GetVariantLink (GetVirtualService advertisement)
      in case CalculateMerkleRoot L (GetCids advertisement) of
           Inl e \<Rightarrow> Inl e
         | Inr expectedRoot \<Rightarrow>
             if expectedRoot \<noteq> GetName variant
             then Inl (Errorf ''merkle tree root not matching, expected %s got %s'')
             else Inr ())"

definition vsvc_cid_key :: "string \<Rightarrow> string" where "vsvc_cid_key h = ''vsvc:cid:'' @ h"
definition vsvc_detail_key :: "string \<Rightarrow> string" where "vsvc_detail_key h = ''vsvc:detail:'' @ h"
definition vsvc_instance_key :: "string \<Rightarrow> string" where "vsvc_instance_key h = ''vsvc:instance:'' @ h"
definition instance_key :: "string \<Rightarrow> string" where "instance_key did = ''instance:'' @ did"
definition cid_vsvc_key :: "string \<Rightarrow> string" where "cid_vsvc_key c = ''cid:vsvc:'' @ c"

text \<open>\<open>MarshalBinary\<close> and \<open>UnmarshalBinary\<close> of the two stored messages, which \<open>Set\<close> and \<open>Scan\<close> call.\<close>

definition MarshalBinary_VirtualService :: "libs \<Rightarrow> VirtualService option \<Rightarrow> go_error + bytes" where
  "MarshalBinary_VirtualService L msg = Marshal_VirtualService L msg"

definition MarshalBinary_ProviderAdvertise :: "libs \<Rightarrow> ProviderAdvertise option \<Rightarrow> go_error + bytes" where
  "MarshalBinary_ProviderAdvertise L msg = Marshal_ProviderAdvertise L msg"

definition UnmarshalBinary_VirtualService :: "libs \<Rightarrow> bytes \<Rightarrow> go_error + VirtualService" where
  "UnmarshalBinary_VirtualService L b = Unmarshal_VirtualService L b"

definition UnmarshalBinary_ProviderAdvertise :: "libs \<Rightarrow> bytes \<Rightarrow> go_error + ProviderAdvertise" where
  "UnmarshalBinary_ProviderAdvertise L b = Unmarshal_ProviderAdvertise L b"

text \<open>\<open>Set\<close> with a message as value: the client marshals it and fails if that fails.\<close>

definition set_marshalled ::
    "'r redis_client \<Rightarrow> string \<Rightarrow> go_error + bytes \<Rightarrow> int \<Rightarrow> 'r \<Rightarrow> (go_error + unit) \<times> 'r" where
  "set_marshalled R k m d s = (case m of Inl e \<Rightarrow> (Inl e, s) | Inr b \<Rightarrow> rSet R k b d s)"

text \<open>
  \<open>now\<close> is in nanoseconds; the score is \<open>UnixMilli\<close> as a \<open>float64\<close>, which holds it exactly. The map
  of the CIDs has each of them once.
\<close>

definition registerVirtualService ::
    "libs \<Rightarrow> 'r redis_client \<Rightarrow> int \<Rightarrow> ProviderAdvertise option \<Rightarrow> 'r \<Rightarrow> (go_error + unit) \<times> 'r" where
  "registerVirtualService L R now advertisement s =
     (case HashMessage L (Marshal_VirtualService L (GetVirtualService advertisement)) of
        Inl e \<Rightarrow> (Inl e, s)
      | Inr virtualServiceHash \<Rightarrow>
          let cidMap = map (\<lambda>c. (c, ''1'')) (remdups (GetCids advertisement));
              cidKey = vsvc_cid_key virtualServiceHash
          in case rHSet R cidKey cidMap s of
               (Inl e, s1) \<Rightarrow> (Inl e, s1)
             | (Inr _, s1) \<Rightarrow>
          (case rExpire R cidKey DEFAULT_TTL s1 of
             (Inl e, s2) \<Rightarrow> (Inl e, s2)
           | (Inr _, s2) \<Rightarrow>
          (case set_marshalled R (vsvc_detail_key virtualServiceHash)
                  (MarshalBinary_VirtualService L (GetVirtualService advertisement)) DEFAULT_TTL s2 of
             (Inl e, s3) \<Rightarrow> (Inl e, s3)
           | (Inr _, s3) \<Rightarrow>
          let score = now div Millisecond;
              scoreKey = vsvc_instance_key virtualServiceHash
          in case rZAddGT R scoreKey (real_of_int score) (GetDid (GetProviderInstance advertisement)) s3 of
               (Inl e, s4) \<Rightarrow> (Inl e, s4)
             | (Inr _, s4) \<Rightarrow>
          (case rExpire R scoreKey DEFAULT_TTL s4 of
             (Inl e, s5) \<Rightarrow> (Inl e, s5)
           | (Inr _, s5) \<Rightarrow>
               set_marshalled R (instance_key (GetDid (GetProviderInstance advertisement)))
                 (MarshalBinary_ProviderAdvertise L advertisement) DEFAULT_TTL s5))))"

definition registerOneCid :: "'r redis_client \<Rightarrow> string \<Rightarrow> string \<Rightarrow> 'r \<Rightarrow> (go_error + unit) \<times> 'r" where
  "registerOneCid R virtualServiceHash c s =
     (let cidKey = cid_vsvc_key c
      in case rHSet R cidKey [(virtualServiceHash, ''1'')] s of
           (Inl e, s1) \<Rightarrow> (Inl e, s1)
         | (Inr _, s1) \<Rightarrow> rHExpire R cidKey DEFAULT_TTL virtualServiceHash s1)"

definition registerCid ::
    "libs \<Rightarrow> 'r redis_client \<Rightarrow> ProviderAdvertise option \<Rightarrow> 'r \<Rightarrow> (go_error + unit) \<times> 'r" where
  "registerCid L R advertisement s =
     (case HashMessage L (Marshal_VirtualService L (GetVirtualService advertisement)) of
        Inl e \<Rightarrow> (Inl e, s)
      | Inr virtualServiceHash \<Rightarrow> seq_list (registerOneCid R virtualServiceHash) (GetCids advertisement) s)"

definition Register ::
    "libs \<Rightarrow> 'r redis_client \<Rightarrow> int \<Rightarrow> ProviderAdvertise option \<Rightarrow> 'r \<Rightarrow> (go_error + unit) \<times> 'r" where
  "Register L R now advertisement s =
     (case registerVirtualService L R now advertisement s of
        (Inl e, s1) \<Rightarrow> (Inl e, s1)
      | (Inr _, s1) \<Rightarrow> registerCid L R advertisement s1)"

subsection \<open>Keys\<close>

lemmas index_key_defs = vsvc_cid_key_def vsvc_detail_key_def vsvc_instance_key_def instance_key_def cid_vsvc_key_def

lemma index_keys_distinct [simp, key_simps]:
  "vsvc_cid_key a \<noteq> vsvc_detail_key b" "vsvc_cid_key a \<noteq> vsvc_instance_key b" "vsvc_cid_key a \<noteq> instance_key b"
  "vsvc_cid_key a \<noteq> cid_vsvc_key b" "vsvc_detail_key a \<noteq> vsvc_cid_key b" "vsvc_detail_key a \<noteq> vsvc_instance_key b"
  "vsvc_detail_key a \<noteq> instance_key b" "vsvc_detail_key a \<noteq> cid_vsvc_key b" "vsvc_instance_key a \<noteq> vsvc_cid_key b"
  "vsvc_instance_key a \<noteq> vsvc_detail_key b" "vsvc_instance_key a \<noteq> instance_key b" "vsvc_instance_key a \<noteq> cid_vsvc_key b"
  "instance_key a \<noteq> vsvc_cid_key b" "instance_key a \<noteq> vsvc_detail_key b" "instance_key a \<noteq> vsvc_instance_key b"
  "instance_key a \<noteq> cid_vsvc_key b" "cid_vsvc_key a \<noteq> vsvc_cid_key b" "cid_vsvc_key a \<noteq> vsvc_detail_key b"
  "cid_vsvc_key a \<noteq> vsvc_instance_key b" "cid_vsvc_key a \<noteq> instance_key b"
  by (simp_all add: index_key_defs)

lemma index_keys_inj [simp, key_simps]:
  "vsvc_cid_key a = vsvc_cid_key b \<longleftrightarrow> a = b" "vsvc_detail_key a = vsvc_detail_key b \<longleftrightarrow> a = b"
  "vsvc_instance_key a = vsvc_instance_key b \<longleftrightarrow> a = b" "instance_key a = instance_key b \<longleftrightarrow> a = b"
  "cid_vsvc_key a = cid_vsvc_key b \<longleftrightarrow> a = b"
  by (simp_all add: index_key_defs)

text \<open>The keys an advertisement is written to.\<close>

definition index_key :: "string \<Rightarrow> bool" where
  "index_key k \<longleftrightarrow> HasPrefix k ''vsvc:'' \<or> HasPrefix k ''instance:'' \<or> HasPrefix k ''cid:vsvc:''"

lemma index_key_simps [simp]:
  "index_key (vsvc_cid_key a)" "index_key (vsvc_detail_key a)" "index_key (vsvc_instance_key a)"
  "index_key (instance_key a)" "index_key (cid_vsvc_key a)" "\<not> index_key (value_key a)"
  by (simp_all add: index_key_def index_key_defs value_key_def)

subsection \<open>What registering does\<close>

lemma DEFAULT_TTL_simps [simp]: "0 \<le> DEFAULT_TTL" "expire_secs DEFAULT_TTL = 604800"
  by (simp_all add: DEFAULT_TTL_def expire_secs_def Second_def)

definition index_ttl :: int where "index_ttl = 604800 * 1000"

lemma set_expiry_DEFAULT [simp]: "set_expiry t DEFAULT_TTL = Some (t + index_ttl)"
  by (simp add: set_expiry_def DEFAULT_TTL_def duration_defs index_ttl_def)

text \<open>The state of a key that holds a hash or nothing, and one that holds a sorted set or nothing.\<close>

definition hash_at :: "keyspace \<Rightarrow> string \<Rightarrow> hash_field list \<Rightarrow> int option \<Rightarrow> bool" where
  "hash_at ks k hm e \<longleftrightarrow> (ks k = None \<and> hm = [] \<and> e = None) \<or> ks k = Some (RHash hm, e)"

definition zset_at :: "keyspace \<Rightarrow> string \<Rightarrow> (real \<times> string) list \<Rightarrow> int option \<Rightarrow> bool" where
  "zset_at ks k zs e \<longleftrightarrow> (ks k = None \<and> zs = [] \<and> e = None) \<or> ks k = Some (RZSet zs, e)"

context redis_contract
begin

lemma hset_step:
  assumes "up s" and "hash_at (view s) k hm e" and "fvs \<noteq> []" and "distinct (map fst fvs)"
  shows "\<exists>n. fst (rHSet R k fvs s) = Inr n"
    and "view (snd (rHSet R k fvs s)) = (view s)(k \<mapsto> (RHash (hset_fields fvs hm), e))"
  using hset_hash [OF assms(1,3,4), of k hm e] assms(2) by (auto simp: hash_at_def)

lemma zadd_step:
  assumes "up s" and "zset_at (view s) k zs e"
  shows "\<exists>n. fst (rZAddGT R k sc x s) = Inr n"
    and "view (snd (rZAddGT R k sc x s)) = (view s)(k \<mapsto> (RZSet (zadd_gt sc x zs), e))"
  using zadd_zset [OF assms(1), of k zs e sc x] assms(2) by (auto simp: zset_at_def)

lemma expire_step:
  assumes "up s" and "view s k = Some (v, e)"
  shows "fst (rExpire R k DEFAULT_TTL s) = Inr True"
    and "view (snd (rExpire R k DEFAULT_TTL s)) = (view s)(k \<mapsto> (v, Some (clock s + index_ttl)))"
  using expire_some [OF assms, of DEFAULT_TTL] by (auto simp: index_ttl_def)

lemma set_step:
  assumes "up s"
  shows "fst (rSet R k b DEFAULT_TTL s) = Inr ()"
    and "view (snd (rSet R k b DEFAULT_TTL s)) = (view s)(k \<mapsto> (RStr b, Some (clock s + index_ttl)))"
  using set_ok [OF assms, of DEFAULT_TTL k b] by auto

lemma registerVirtualService_effect:
  fixes advertisement :: "ProviderAdvertise option" and L :: libs and now :: int
  assumes u: "up s" and h: "HashMessage L (Marshal_VirtualService L (GetVirtualService advertisement)) = Inr h"
    and c: "GetCids advertisement \<noteq> []"
    and m: "Marshal_VirtualService L (GetVirtualService advertisement) = Inr vb" "Marshal_ProviderAdvertise L advertisement = Inr ab"
    and k: "hash_at (view s) (vsvc_cid_key h) hm e" "zset_at (view s) (vsvc_instance_key h) zs e'"
  defines "did \<equiv> GetDid (GetProviderInstance advertisement)" and "t \<equiv> Some (clock s + index_ttl)"
    and "s' \<equiv> snd (registerVirtualService L R now advertisement s)"
  shows "fst (registerVirtualService L R now advertisement s) = Inr () \<and> up s' \<and> clock s' = clock s \<and>
    view s' = (view s)
      (vsvc_cid_key h \<mapsto> (RHash (hset_fields (map (\<lambda>c. (c, ''1'')) (remdups (GetCids advertisement))) hm), t),
       vsvc_detail_key h \<mapsto> (RStr vb, t),
       vsvc_instance_key h \<mapsto> (RZSet (zadd_gt (real_of_int (now div Millisecond)) did zs), t),
       instance_key did \<mapsto> (RStr ab, t))"
proof -
  let ?cm = "map (\<lambda>c. (c, ''1'')) (remdups (GetCids advertisement))" and ?sc = "real_of_int (now div Millisecond)"
  define s1 where "s1 = snd (rHSet R (vsvc_cid_key h) ?cm s)"
  have d: "?cm \<noteq> []" "distinct (map fst ?cm)" using c by (simp_all add: comp_def)
  note hs = hset_step [OF u k(1) d, folded s1_def]
  have u1: "up s1" "clock s1 = clock s" using hset_healthy [OF u] by (simp_all add: s1_def)
  define s2 where "s2 = snd (rExpire R (vsvc_cid_key h) DEFAULT_TTL s1)"
  have "view s1 (vsvc_cid_key h) = Some (RHash (hset_fields ?cm hm), e)" by (simp add: hs(2))
  note es = expire_step [OF u1(1) this, folded s2_def]
  have u2: "up s2" "clock s2 = clock s" using expire_healthy [OF u1(1)] u1(2) by (simp_all add: s2_def)
  define s3 where "s3 = snd (rSet R (vsvc_detail_key h) vb DEFAULT_TTL s2)"
  note ss = set_step [OF u2(1), of "vsvc_detail_key h" vb, folded s3_def]
  have u3: "up s3" "clock s3 = clock s" using set_healthy [OF u2(1)] u2(2) by (simp_all add: s3_def)
  have "zset_at (view s3) (vsvc_instance_key h) zs e'"
    using k(2) by (simp add: zset_at_def ss(2) es(2) hs(2))
  note zs = zadd_step [OF u3(1) this, of ?sc did]
  define s4 where "s4 = snd (rZAddGT R (vsvc_instance_key h) ?sc did s3)"
  note zs = zs [folded s4_def]
  have u4: "up s4" "clock s4 = clock s" using zadd_healthy [OF u3(1)] u3(2) by (simp_all add: s4_def)
  define s5 where "s5 = snd (rExpire R (vsvc_instance_key h) DEFAULT_TTL s4)"
  have "view s4 (vsvc_instance_key h) = Some (RZSet (zadd_gt ?sc did zs), e')" by (simp add: zs(2))
  note fs = expire_step [OF u4(1) this, folded s5_def]
  have u5: "up s5" "clock s5 = clock s" using expire_healthy [OF u4(1)] u4(2) by (simp_all add: s5_def)
  note ks = set_step [OF u5(1), of "instance_key did" ab]
  have eq: "registerVirtualService L R now advertisement s = rSet R (instance_key did) ab DEFAULT_TTL s5"
    using hs(1) zs(1)
    by (auto simp: registerVirtualService_def h [unfolded m(1)] set_marshalled_def MarshalBinary_VirtualService_def case_prod_beta Let_def
        MarshalBinary_ProviderAdvertise_def m did_def [symmetric] es(1) ss(1) fs(1)
        s1_def [symmetric] s2_def [symmetric] s3_def [symmetric] s4_def [symmetric] s5_def [symmetric])
  have "view s' = (view s)
      (vsvc_cid_key h \<mapsto> (RHash (hset_fields ?cm hm), t), vsvc_detail_key h \<mapsto> (RStr vb, t),
       vsvc_instance_key h \<mapsto> (RZSet (zadd_gt ?sc did zs), t), instance_key did \<mapsto> (RStr ab, t))"
    unfolding s'_def eq ks(2) fs(2) zs(2) ss(2) es(2) hs(2) u1 u2 u3 u4 u5 t_def by simp
  moreover have "up s'" "clock s' = clock s" using set_healthy [OF u5(1)] u5(2) by (simp_all add: s'_def eq)
  ultimately show ?thesis using ks(1) by (simp add: eq)
qed

lemma registerOneCid_effect:
  fixes h :: string
  assumes u: "up s" and k: "hash_at (view s) (cid_vsvc_key c) hm e"
  defines "s' \<equiv> snd (registerOneCid R h c s)"
  shows "fst (registerOneCid R h c s) = Inr () \<and> up s' \<and> clock s' = clock s \<and>
    view s' = (view s)(cid_vsvc_key c \<mapsto> (RHash (hexpire_field (clock s + index_ttl) h (hset_field h ''1'' hm)), e))"
proof -
  define s1 where "s1 = snd (rHSet R (cid_vsvc_key c) [(h, ''1'')] s)"
  note hs = hset_step [OF u k, of "[(h, ''1'')]", folded s1_def, simplified]
  have u1: "up s1" "clock s1 = clock s" using hset_healthy [OF u] by (simp_all add: s1_def)
  have "view s1 (cid_vsvc_key c) = Some (RHash (hset_field h ''1'' hm), e)" by (simp add: hs(2))
  note x = hexpire_hash [OF u1(1) this, of DEFAULT_TTL h, simplified]
  have eq: "registerOneCid R h c s = rHExpire R (cid_vsvc_key c) DEFAULT_TTL h s1"
    using hs(1) by (auto simp: registerOneCid_def case_prod_beta Let_def s1_def)
  have "up s'" "clock s' = clock s" using hexpire_healthy [OF u1(1)] u1(2) by (simp_all add: s'_def eq)
  with x show ?thesis by (simp add: eq s'_def hs(2) u1(2) index_ttl_def)
qed

end

text \<open>A CID's hash has the field of a virtual service.\<close>

definition has_vsvc :: "keyspace \<Rightarrow> string \<Rightarrow> string \<Rightarrow> bool" where
  "has_vsvc ks c h \<longleftrightarrow> (\<exists>hm e v x. ks (cid_vsvc_key c) = Some (RHash hm, e) \<and> (h, v, x) \<in> set hm)"

lemma hset_has_field: "(h, ''1'', Some t) \<in> set (hexpire_field t h (hset_field h ''1'' hm))"
  by (auto simp: hexpire_field_def hset_field_def)

context redis_contract
begin

lemma registerCids_effect:
  assumes "up s" and "\<forall>c \<in> set cids. \<exists>hm e. hash_at (view s) (cid_vsvc_key c) hm e"
  shows "fst (seq_list (registerOneCid R h) cids s) = Inr () \<and>
    (let s' = snd (seq_list (registerOneCid R h) cids s)
     in up s' \<and> clock s' = clock s \<and> (\<forall>k. (\<forall>c \<in> set cids. k \<noteq> cid_vsvc_key c) \<longrightarrow> view s' k = view s k) \<and>
        (\<forall>c. has_vsvc (view s) c h \<or> c \<in> set cids \<longrightarrow> has_vsvc (view s') c h))"
  using assms
proof (induction cids arbitrary: s)
  case Nil
  then show ?case by simp
next
  case (Cons c cids)
  obtain hm e where k: "hash_at (view s) (cid_vsvc_key c) hm e" using Cons.prems(2) by auto
  define s1 where "s1 = snd (registerOneCid R h c s)"
  note x = registerOneCid_effect [OF Cons.prems(1) k, of h, folded s1_def]
  have st: "registerOneCid R h c s = (Inr (), s1)" using x by (auto simp: s1_def intro: prod_eqI)
  have v: "view s1 = (view s)(cid_vsvc_key c \<mapsto> (RHash (hexpire_field (clock s + index_ttl) h (hset_field h ''1'' hm)), e))"
    and u1: "up s1" "clock s1 = clock s" using x by blast+
  have "\<forall>c' \<in> set cids. \<exists>hm e. hash_at (view s1) (cid_vsvc_key c') hm e"
  proof
    fix c' assume "c' \<in> set cids"
    with Cons.prems(2) show "\<exists>hm e. hash_at (view s1) (cid_vsvc_key c') hm e"
      by (cases "c' = c") (auto simp: hash_at_def v)
  qed
  note IH = Cons.IH [OF u1(1) this, unfolded Let_def]
  have keep: "has_vsvc (view s1) c' h" if "has_vsvc (view s) c' h \<or> c' = c" for c'
    using that hset_has_field [of h "clock s + index_ttl" hm] by (cases "c' = c") (auto simp: has_vsvc_def v)
  have frame: "(\<forall>c' \<in> set (c # cids). k \<noteq> cid_vsvc_key c') \<Longrightarrow>
      view (snd (seq_list (registerOneCid R h) cids s1)) k = view s k" for k
    using IH v by simp
  show ?case
    unfolding seq_list.simps st prod.case sum.case Let_def
    using IH u1(2) keep frame by (metis set_ConsD)
qed

lemma Register_effect:
  fixes advertisement :: "ProviderAdvertise option" and L :: libs and now :: int
  assumes u: "up s" and h: "HashMessage L (Marshal_VirtualService L (GetVirtualService advertisement)) = Inr h"
    and c: "GetCids advertisement \<noteq> []"
    and m: "Marshal_VirtualService L (GetVirtualService advertisement) = Inr vb" "Marshal_ProviderAdvertise L advertisement = Inr ab"
    and k: "hash_at (view s) (vsvc_cid_key h) hm e" "zset_at (view s) (vsvc_instance_key h) zs e'"
    and ch: "\<forall>c \<in> set (GetCids advertisement). \<exists>hm e. hash_at (view s) (cid_vsvc_key c) hm e"
  defines "did \<equiv> GetDid (GetProviderInstance advertisement)" and "t \<equiv> Some (clock s + index_ttl)"
    and "s' \<equiv> snd (Register L R now advertisement s)"
  shows "fst (Register L R now advertisement s) = Inr ()" and "up s'" and "clock s' = clock s"
    and "view s' (vsvc_detail_key h) = Some (RStr vb, t)"
    and "view s' (vsvc_instance_key h) = Some (RZSet (zadd_gt (real_of_int (now div Millisecond)) did zs), t)"
    and "view s' (instance_key did) = Some (RStr ab, t)"
    and "\<forall>c \<in> set (GetCids advertisement). has_vsvc (view s') c h"
    and "\<And>h'. h' \<noteq> h \<Longrightarrow> view s' (vsvc_instance_key h') = view s (vsvc_instance_key h')"
proof -
  define s1 where "s1 = snd (registerVirtualService L R now advertisement s)"
  note v = registerVirtualService_effect [OF u h c m k, of now, folded s1_def did_def]
  have "\<exists>hm e. hash_at (view s1) (cid_vsvc_key c) hm e" if "c \<in> set (GetCids advertisement)" for c
    using ch that v by (auto simp: hash_at_def)
  with v registerCids_effect [of s1 "GetCids advertisement" h]
  have x: "fst (seq_list (registerOneCid R h) (GetCids advertisement) s1) = Inr ()"
    "up (snd (seq_list (registerOneCid R h) (GetCids advertisement) s1))"
    "clock (snd (seq_list (registerOneCid R h) (GetCids advertisement) s1)) = clock s1"
    "\<And>k. (\<forall>c \<in> set (GetCids advertisement). k \<noteq> cid_vsvc_key c) \<Longrightarrow>
       view (snd (seq_list (registerOneCid R h) (GetCids advertisement) s1)) k = view s1 k"
    "\<forall>c \<in> set (GetCids advertisement). has_vsvc (view (snd (seq_list (registerOneCid R h) (GetCids advertisement) s1))) c h"
    by (auto simp: Let_def)
  have eq: "Register L R now advertisement s = seq_list (registerOneCid R h) (GetCids advertisement) s1"
    using v by (simp add: Register_def registerCid_def h case_prod_beta s1_def)
  from x v show "fst (Register L R now advertisement s) = Inr ()" "up s'" "clock s' = clock s"
    "view s' (vsvc_detail_key h) = Some (RStr vb, t)"
    "view s' (vsvc_instance_key h) = Some (RZSet (zadd_gt (real_of_int (now div Millisecond)) did zs), t)"
    "view s' (instance_key did) = Some (RStr ab, t)" "\<forall>c \<in> set (GetCids advertisement). has_vsvc (view s') c h"
    "\<And>h'. h' \<noteq> h \<Longrightarrow> view s' (vsvc_instance_key h') = view s (vsvc_instance_key h')"
    by (simp_all add: s'_def eq t_def)
qed

end

subsection \<open>What registering leaves alone\<close>

text \<open>A step that keeps the connection healthy and changes index keys only, whatever its outcome.\<close>

definition only_index :: "('r \<Rightarrow> keyspace) \<Rightarrow> ('r \<Rightarrow> int) \<Rightarrow> ('r \<Rightarrow> bool) \<Rightarrow> 'r \<Rightarrow> 'r \<Rightarrow> bool" where
  "only_index view clock up s s' \<longleftrightarrow>
     up s' \<and> clock s' = clock s \<and> (\<forall>k. \<not> index_key k \<longrightarrow> view s' k = view s k)"

lemma only_index_trans:
  "only_index view clock up a b \<Longrightarrow> only_index view clock up b c \<Longrightarrow> only_index view clock up a c"
  by (simp add: only_index_def)

lemma only_index_refl: "up s \<Longrightarrow> only_index view clock up s s"
  by (simp add: only_index_def)

lemma only_index_up: "only_index view clock up a b \<Longrightarrow> up b"
  by (simp add: only_index_def)

context redis_contract
begin

lemma only_index_ops:
  assumes "up s" and "index_key k"
  shows "only_index view clock up s (snd (rHSet R k fvs s))" and "only_index view clock up s (snd (rExpire R k d s))"
    and "only_index view clock up s (snd (rSet R k b d s))" and "only_index view clock up s (snd (rZAddGT R k sc x s))"
    and "only_index view clock up s (snd (rHExpire R k d f s))" and "only_index view clock up s (snd (set_marshalled R k mb d s))"
proof -
  have n: "k' \<noteq> k" if "\<not> index_key k'" for k' using that assms(2) by auto
  show "only_index view clock up s (snd (rHSet R k fvs s))" "only_index view clock up s (snd (rExpire R k d s))"
    "only_index view clock up s (snd (rSet R k b d s))" "only_index view clock up s (snd (rZAddGT R k sc x s))"
    "only_index view clock up s (snd (rHExpire R k d f s))" "only_index view clock up s (snd (set_marshalled R k mb d s))"
    using assms(1)
    by (auto simp: only_index_def set_marshalled_def frames [OF assms(1) n] expire_frame [OF assms(1) n] split: sum.split)
qed

text \<open>The next command of a chain, when the previous one succeeded.\<close>

lemma only_index_chain:
  assumes "only_index view clock up a (snd p)" and "\<And>x b. up b \<Longrightarrow> only_index view clock up b (snd (f x b))"
  shows "only_index view clock up a (snd (case p of (Inl e, b) \<Rightarrow> (Inl e, b) | (Inr x, b) \<Rightarrow> f x b))"
proof (cases p)
  case (Pair r b)
  with assms(1) have "only_index view clock up a b" by simp
  with Pair show ?thesis
    using only_index_trans assms(2) only_index_up by (cases r) fastforce+
qed

lemma registerVirtualService_frame: "up s \<Longrightarrow> only_index view clock up s (snd (registerVirtualService L R now ad s))"
  unfolding registerVirtualService_def Let_def
  by (cases "HashMessage L (Marshal_VirtualService L (GetVirtualService ad))")
     (auto intro!: only_index_chain only_index_ops only_index_refl)

lemma registerOneCid_frame: "up s \<Longrightarrow> only_index view clock up s (snd (registerOneCid R h c s))"
  unfolding registerOneCid_def Let_def by (auto intro!: only_index_chain only_index_ops)

lemma registerCid_frame:
  assumes "up s"
  shows "only_index view clock up s (snd (registerCid L R ad s))"
proof (cases "HashMessage L (Marshal_VirtualService L (GetVirtualService ad))")
  case (Inl e)
  with assms show ?thesis by (simp add: registerCid_def only_index_refl)
next
  case (Inr h)
  have "only_index view clock up s (snd (seq_list (registerOneCid R h) (GetCids ad) s))"
    using only_index_refl [of up s view clock, OF assms]
    by (rule seq_list_invariant [where I = "only_index view clock up s"])
       (blast intro: only_index_trans registerOneCid_frame only_index_up)
  with Inr show ?thesis by (simp add: registerCid_def)
qed

lemma Register_frame: "up s \<Longrightarrow> only_index view clock up s (snd (Register L R now ad s))"
  unfolding Register_def by (intro only_index_chain registerVirtualService_frame registerCid_frame)

end

subsection \<open>The types of the index keys\<close>

text \<open>
  The hash of a virtual service and a canonical CID have no slash. The keys made from such strings
  hold values of one type each. The restriction matters: a stream may be created under any name
  with the form of a stream name inside, and such names have slashes.
\<close>

definition plain :: "string \<Rightarrow> bool" where
  "plain x \<longleftrightarrow> CHR ''/'' \<notin> set x"

definition key_typed :: "string \<Rightarrow> rval \<Rightarrow> bool" where
  "key_typed k x \<longleftrightarrow>
     (\<forall>h. plain h \<longrightarrow> k = vsvc_cid_key h \<or> k = cid_vsvc_key h \<longrightarrow> (\<exists>m. x = RHash m)) \<and>
     (\<forall>h. plain h \<longrightarrow> k = vsvc_instance_key h \<longrightarrow> (\<exists>zs. x = RZSet zs))"

definition index_wf :: "keyspace \<Rightarrow> bool" where
  "index_wf ks \<longleftrightarrow> (\<forall>k x e. ks k = Some (x, e) \<longrightarrow> key_typed k x)"

lemma key_typed_simps [simp]:
  "key_typed (vsvc_cid_key h) (RHash m)" "key_typed (cid_vsvc_key h) (RHash m)" "key_typed (vsvc_instance_key h) (RZSet zs)"
  "key_typed (vsvc_detail_key h) x" "key_typed (instance_key h) x"
  by (simp_all add: key_typed_def)

lemma index_wf_empty [simp]: "index_wf Map.empty"
  by (simp add: index_wf_def)

lemma index_wfD: "index_wf ks \<Longrightarrow> ks k = Some (x, e) \<Longrightarrow> key_typed k x"
  by (auto simp: index_wf_def)

lemma index_wf_update:
  assumes "index_wf ks" and "\<And>k x e. ks' k = Some (x, e) \<Longrightarrow> (\<exists>e'. ks k = Some (x, e')) \<or> key_typed k x"
  shows "index_wf ks'"
  unfolding index_wf_def
proof (intro allI impI)
  fix k x e assume "ks' k = Some (x, e)"
  from assms(2) [OF this] index_wfD [OF assms(1)] show "key_typed k x" by blast
qed

lemma key_typedD:
  "key_typed (vsvc_cid_key h) x \<Longrightarrow> plain h \<Longrightarrow> \<exists>m. x = RHash m"
  "key_typed (cid_vsvc_key h) x \<Longrightarrow> plain h \<Longrightarrow> \<exists>m. x = RHash m"
  "key_typed (vsvc_instance_key h) x \<Longrightarrow> plain h \<Longrightarrow> \<exists>zs. x = RZSet zs"
  by (auto simp: key_typed_def)

lemma index_wf_purge:
  assumes w: "index_wf ks"
  shows "index_wf (purge t ks)"
  unfolding index_wf_def
proof (intro allI impI)
  fix k x e assume p: "purge t ks k = Some (x, e)"
  then obtain y where y: "ks k = Some (y, e)" "live_val t y = Some x"
    by (auto simp: purge_def split: option.splits if_splits)
  have "key_typed k y" using w y(1) by (auto simp: index_wf_def)
  with y(2) show "key_typed k x" by (cases y) (auto simp: key_typed_def Let_def split: if_splits)
qed

lemma index_wf_at:
  assumes "index_wf ks" and "plain h"
  shows "\<exists>hm e. hash_at ks (vsvc_cid_key h) hm e" and "\<exists>hm e. hash_at ks (cid_vsvc_key h) hm e"
    and "\<exists>zs e. zset_at ks (vsvc_instance_key h) zs e"
proof -
  have c: "ks k = None \<or> (\<exists>x e. ks k = Some (x, e) \<and> key_typed k x)" for k
    using index_wfD [OF assms(1), of k] by (cases "ks k") auto
  show "\<exists>hm e. hash_at ks (vsvc_cid_key h) hm e"
    using c [of "vsvc_cid_key h"] key_typedD(1) [OF _ assms(2)] unfolding hash_at_def by blast
  show "\<exists>hm e. hash_at ks (cid_vsvc_key h) hm e"
    using c [of "cid_vsvc_key h"] key_typedD(2) [OF _ assms(2)] unfolding hash_at_def by blast
  show "\<exists>zs e. zset_at ks (vsvc_instance_key h) zs e"
    using c [of "vsvc_instance_key h"] key_typedD(3) [OF _ assms(2)] unfolding zset_at_def by blast
qed

context redis_contract
begin

definition typed_state :: "'r \<Rightarrow> bool" where
  "typed_state s \<longleftrightarrow> up s \<and> index_wf (view s)"

lemma typed_step:
  assumes "typed_state s" and "up s'" and "\<And>k'. k' \<noteq> k \<Longrightarrow> view s' k' = view s k'"
    and "\<And>x e. view s' k = Some (x, e) \<Longrightarrow> (\<exists>e'. view s k = Some (x, e')) \<or> key_typed k x"
  shows "typed_state s'"
proof -
  have "index_wf (view s)" using assms(1) by (simp add: typed_state_def)
  then have "index_wf (view s')"
  proof (rule index_wf_update)
    fix k' x e assume "view s' k' = Some (x, e)"
    with assms(3,4) show "(\<exists>e'. view s k' = Some (x, e')) \<or> key_typed k' x" by (cases "k' = k") auto
  qed
  with assms(2) show ?thesis by (simp add: typed_state_def)
qed

lemma typed_keep:
  assumes "typed_state s" and "up s'" and "\<And>k'. k' \<noteq> k \<Longrightarrow> view s' k' = view s k'"
    and "view s' k = view s k \<or> view s' k = None \<or> (\<exists>x e. view s' k = Some (x, e) \<and> key_typed k x)"
  shows "typed_state s'"
proof (rule typed_step [OF assms(1-3)])
  fix x e assume "view s' k = Some (x, e)"
  with assms(4) show "(\<exists>e'. view s k = Some (x, e')) \<or> key_typed k x" by (elim disjE exE conjE) simp_all
qed

lemma typed_up: "typed_state s \<Longrightarrow> up s"
  by (simp add: typed_state_def)

lemma typed_expire:
  assumes t: "typed_state s"
  shows "typed_state (snd (rExpire R k d s))"
proof -
  have u: "up s" by (rule typed_up [OF t])
  show ?thesis
    using expire_healthy [OF u] expire_frame [OF u] expire_value [OF u] by (intro typed_step [OF t, where k = k]) blast+
qed

lemma typed_hset:
  assumes t: "typed_state s" and k: "\<And>m. key_typed k (RHash m)"
  shows "typed_state (snd (rHSet R k fvs s))"
  by (rule typed_keep [OF t conjunct1 [OF hset_healthy [OF typed_up [OF t]]] hset_frame [OF typed_up [OF t]]])
     (use hset_key [OF typed_up [OF t], of k fvs] k in auto)

lemma typed_set:
  assumes t: "typed_state s" and k: "\<And>m. key_typed k (RStr m)"
  shows "typed_state (snd (rSet R k b d s))"
  by (rule typed_keep [OF t conjunct1 [OF set_healthy [OF typed_up [OF t]]] set_frame [OF typed_up [OF t]]])
     (use set_key [OF typed_up [OF t], of k b d] k in auto)

lemma typed_zadd:
  assumes t: "typed_state s" and k: "\<And>m. key_typed k (RZSet m)"
  shows "typed_state (snd (rZAddGT R k sc mb s))"
  by (rule typed_keep [OF t conjunct1 [OF zadd_healthy [OF typed_up [OF t]]] zadd_frame [OF typed_up [OF t]]])
     (use zadd_key [OF typed_up [OF t], of k sc mb] k in auto)

lemma typed_hexpire:
  assumes t: "typed_state s" and k: "\<And>m. key_typed k (RHash m)"
  shows "typed_state (snd (rHExpire R k d f s))"
  by (rule typed_keep [OF t conjunct1 [OF hexpire_healthy [OF typed_up [OF t]]] hexpire_frame [OF typed_up [OF t]]])
     (use hexpire_key [OF typed_up [OF t], of k d f] k in auto)

lemma typed_set_marshalled:
  "typed_state s \<Longrightarrow> (\<And>b. key_typed k (RStr b)) \<Longrightarrow> typed_state (snd (set_marshalled R k mb d s))"
  by (simp add: set_marshalled_def typed_set split: sum.split)

lemmas typed_ops = typed_expire typed_hset typed_zadd typed_hexpire typed_set_marshalled key_typed_simps
lemmas typed_case = seq_case [where I = typed_state]

lemma registerVirtualService_typed:
  assumes "typed_state s"
  shows "typed_state (snd (registerVirtualService L R now ad s))"
proof (cases "HashMessage L (Marshal_VirtualService L (GetVirtualService ad))")
  case (Inl e)
  with assms show ?thesis by (simp add: registerVirtualService_def)
next
  case (Inr h)
  show ?thesis
    unfolding registerVirtualService_def Inr sum.case Let_def
    by (intro typed_case typed_ops assms)
qed

lemma registerOneCid_typed: "typed_state s \<Longrightarrow> typed_state (snd (registerOneCid R h c s))"
  unfolding registerOneCid_def Let_def by (intro typed_case typed_ops)

lemma registerCid_typed: "typed_state s \<Longrightarrow> typed_state (snd (registerCid L R ad s))"
  unfolding registerCid_def
  by (auto intro: seq_list_invariant [where I = typed_state] registerOneCid_typed split: sum.split)

lemma Register_typed: "typed_state s \<Longrightarrow> typed_state (snd (Register L R now ad s))"
  unfolding Register_def by (intro typed_case registerVirtualService_typed registerCid_typed)

end

end
