(* ===== verification/Index.thy ===== *)
theory Index
  imports Virtual_Service "HOL-Library.Multiset"
begin

section \<open>The index of providers (\<open>internal/api/index.go\<close>)\<close>

text \<open>
  Registering an advertisement and the three searches: by virtual service, by CID, and the routing
  interface, which is the search by CID with the providers only. \<open>sort.Slice\<close> does not promise
  which of two equal elements comes first, so it is a parameter, with \<open>sorts_by_score\<close> as what it
  promises.
\<close>

subsection \<open>The code\<close>

record MerkleTreeFileServing =
  mIsBehaviorMatching :: "GlobalLink option \<Rightarrow> go_error + bool"
  mEnsureAdvertisementValid :: "ProviderAdvertise option \<Rightarrow> go_error + unit"

text \<open>The interface's third method changes the store, so it is passed separately.\<close>

fun registerLoop ::
    "(MerkleTreeFileServing \<times> (ProviderAdvertise option \<Rightarrow> 'r \<Rightarrow> (go_error + unit) \<times> 'r)) list \<Rightarrow>
     ProviderAdvertise option \<Rightarrow> 'r \<Rightarrow> unit result \<times> 'r" where
  "registerLoop [] advertisement s =
     (Err (Status InvalidArgument ''no processor matches required behavior''), s)"
| "registerLoop ((p, register) # ps) advertisement s =
     (case mIsBehaviorMatching p (GetBehaviorLink (GetVirtualService advertisement)) of
        Inl e \<Rightarrow> (Err (Status InvalidArgument ''behavior link not matching: %s''), s)
      | Inr matching \<Rightarrow>
          if \<not> matching then registerLoop ps advertisement s
          else
            (case mEnsureAdvertisementValid p advertisement of
               Inl e \<Rightarrow> (Err (Status InvalidArgument ''advertisement is not valid: %s''), s)
             | Inr _ \<Rightarrow>
                 (case register advertisement s of
                    (Inl e, s1) \<Rightarrow> (Err (Status Internal ''failed to register: %s''), s1)
                  | (Inr _, s1) \<Rightarrow> (Ok (), s1))))"

definition NewServeAllFileServing :: "libs \<Rightarrow> MerkleTreeFileServing" where
  "NewServeAllFileServing L =
     \<lparr>mIsBehaviorMatching = IsBehaviorMatching L, mEnsureAdvertisementValid = EnsureAdvertisementValid L\<rparr>"

definition RegisterInstance ::
    "libs \<Rightarrow> 'r redis_client \<Rightarrow> int \<Rightarrow> RegisterInstanceRequest \<Rightarrow> 'r \<Rightarrow> unit result \<times> 'r" where
  "RegisterInstance L R now req s =
     registerLoop [(NewServeAllFileServing L, Register L R now)] (ri_Advertisement req) s"

record AdWithScore =
  score :: real
  ad :: ProviderAdvertise

text \<open>The loop over the members of the sorted set.\<close>

fun instanceLoop ::
    "libs \<Rightarrow> 'r redis_client \<Rightarrow> int \<Rightarrow> Z list \<Rightarrow> AdWithScore list \<Rightarrow> 'r \<Rightarrow> AdWithScore list result \<times> 'r" where
  "instanceLoop L R instanceCount [] instances s = (Ok instances, s)"
| "instanceLoop L R instanceCount (z # zs) instances s =
     (case Member z of
        AnyOther \<Rightarrow> (Panic ''interface conversion'', s)
      | AnyString did \<Rightarrow>
          (case rGet R (instance_key did) s of
             (Inl e, s1) \<Rightarrow> instanceLoop L R instanceCount zs instances s1
           | (Inr b, s1) \<Rightarrow>
               (case UnmarshalBinary_ProviderAdvertise L b of
                  Inl e \<Rightarrow> instanceLoop L R instanceCount zs instances s1
                | Inr a \<Rightarrow>
                    let instances' = instances @ [\<lparr>score = Score z, ad = a\<rparr>]
                    in if int (length instances') = instanceCount then (Ok instances', s1)
                       else instanceLoop L R instanceCount zs instances' s1)))"

definition searchInstances ::
    "libs \<Rightarrow> 'r redis_client \<Rightarrow> VirtualService option \<Rightarrow> int \<Rightarrow> 'r \<Rightarrow> AdWithScore list result \<times> 'r" where
  "searchInstances L R vsvc instanceCount s =
     (case HashMessage L (Marshal_VirtualService L vsvc) of
        Inl e \<Rightarrow> (Err (Status Internal ''failed to hash virtual service: %s''), s)
      | Inr vHash \<Rightarrow>
          (case rZRangeWithScores R (vsvc_instance_key vHash) 0 instanceCount s of
             (Inl e, s1) \<Rightarrow> (Err (Status Internal ''failed to get instances: %s''), s1)
           | (Inr zs, s1) \<Rightarrow> instanceLoop L R instanceCount zs [] s1))"

definition defaultVirtualServiceCount :: int where "defaultVirtualServiceCount = 100"
definition defaultInstanceCount :: int where "defaultInstanceCount = 100"

definition SearchInstance ::
    "libs \<Rightarrow> 'r redis_client \<Rightarrow> SearchInstanceRequest \<Rightarrow> 'r \<Rightarrow> SearchInstanceResponse result \<times> 'r" where
  "SearchInstance L R req s =
     (case searchInstances L R (si_VirtualService req) defaultInstanceCount s of
        (Panic m, s1) \<Rightarrow> (Panic m, s1)
      | (Err e, s1) \<Rightarrow> (Err (Status Internal ''failed to search instance: %s''), s1)
      | (Ok batchInstances, s1) \<Rightarrow>
          (Ok \<lparr>sir_VirtualService = si_VirtualService req, sir_InstancePriceInfo = map ad batchInstances\<rparr>, s1))"

text \<open>
  The scan. The iterator stops at the first failing fetch: after \<open>Next\<close> has returned true its
  \<open>Err()\<close> is \<open>nil\<close>, after \<open>Next\<close> has returned false it is the error, if any.
\<close>

definition iterErr :: "bool \<Rightarrow> go_error option \<Rightarrow> go_error option" where
  "iterErr advanced err = (if advanced then None else err)"

fun scanLoop ::
    "libs \<Rightarrow> 'r redis_client \<Rightarrow> go_error option \<Rightarrow> string list \<Rightarrow> VirtualService list \<Rightarrow> 'r \<Rightarrow>
     (go_error + VirtualService list) \<times> 'r" where
  "scanLoop L R err [] virtualServices s = (Inr virtualServices, s)"
| "scanLoop L R err [vHash] virtualServices s =
     (case iterErr True err of
        Some e \<Rightarrow>
          (Inl (if e = RedisNil then Status NotFound ''not found'' else Status Internal ''failed to scan: %s''), s)
      | None \<Rightarrow> (Inr virtualServices, s))"
| "scanLoop L R err (vHash # _ # rest) virtualServices s =
     (case iterErr True err of
        Some e \<Rightarrow>
          (Inl (if e = RedisNil then Status NotFound ''not found'' else Status Internal ''failed to scan: %s''), s)
      | None \<Rightarrow>
          (case rGet R (vsvc_detail_key vHash) s of
             (Inl e, s1) \<Rightarrow> scanLoop L R err rest virtualServices s1
           | (Inr b, s1) \<Rightarrow>
               (case UnmarshalBinary_VirtualService L b of
                  Inl e \<Rightarrow> scanLoop L R err rest virtualServices s1
                | Inr vsvc \<Rightarrow> scanLoop L R err rest (virtualServices @ [vsvc]) s1)))"

fun batchLoop ::
    "libs \<Rightarrow> 'r redis_client \<Rightarrow> VirtualService list \<Rightarrow> AdWithScore list \<Rightarrow> 'r \<Rightarrow> AdWithScore list result \<times> 'r" where
  "batchLoop L R [] instances s = (Ok instances, s)"
| "batchLoop L R (vsvc # vsvcs) instances s =
     (case searchInstances L R (Some vsvc) defaultInstanceCount s of
        (Panic m, s1) \<Rightarrow> (Panic m, s1)
      | (Err e, s1) \<Rightarrow> batchLoop L R vsvcs instances s1
      | (Ok batchInstances, s1) \<Rightarrow> batchLoop L R vsvcs (instances @ batchInstances) s1)"

text \<open>The last loop counts from \<open>i = 0\<close> and returns after the element with \<open>i\<close> equal to the count.\<close>

fun retLoop :: "int \<Rightarrow> AdWithScore list \<Rightarrow> ProviderAdvertise list \<Rightarrow> ProviderAdvertise list" where
  "retLoop i [] ret = ret"
| "retLoop i (x # xs) ret =
     (let ret' = ret @ [ad x] in if i = defaultInstanceCount then ret' else retLoop (i + 1) xs ret')"

definition doSearchCid ::
    "libs \<Rightarrow> 'r redis_client \<Rightarrow> (AdWithScore list \<Rightarrow> AdWithScore list) \<Rightarrow> SearchCidRequest \<Rightarrow> 'r \<Rightarrow>
     SearchCidResponse result \<times> 'r" where
  "doSearchCid L R sortSlice req s =
     (case NormalizeCidToV1 L (sc_Cid req) of
        Inl e \<Rightarrow> (Err e, s)
      | Inr cidV1 \<Rightarrow>
          (case rHScan R (cid_vsvc_key cidV1) defaultVirtualServiceCount s of
             ((items, err), s1) \<Rightarrow>
               (case scanLoop L R err items [] s1 of
                  (Inl e, s2) \<Rightarrow> (Err e, s2)
                | (Inr virtualServices, s2) \<Rightarrow>
                    if length virtualServices = 0
                    then (Err (Status NotFound ''no virtual services with details found for cid %s''), s2)
                    else
                      (case batchLoop L R virtualServices [] s2 of
                         (Panic m, s3) \<Rightarrow> (Panic m, s3)
                       | (Err e, s3) \<Rightarrow> (Err e, s3)
                       | (Ok instances, s3) \<Rightarrow>
                           (Ok \<lparr>scr_VirtualServices = virtualServices,
                                scr_StorageInstances = retLoop 0 (sortSlice instances) []\<rparr>, s3)))))"

definition SearchCid ::
    "libs \<Rightarrow> 'r redis_client \<Rightarrow> (AdWithScore list \<Rightarrow> AdWithScore list) \<Rightarrow> SearchCidRequest \<Rightarrow> 'r \<Rightarrow>
     SearchCidResponse result \<times> 'r" where
  "SearchCid L R sortSlice req s = doSearchCid L R sortSlice req s"

definition DelegatedRouting ::
    "libs \<Rightarrow> 'r redis_client \<Rightarrow> (AdWithScore list \<Rightarrow> AdWithScore list) \<Rightarrow> DelegatedRoutingRequest \<Rightarrow> 'r \<Rightarrow>
     DelegatedRoutingResponse result \<times> 'r" where
  "DelegatedRouting L R sortSlice req s =
     (case doSearchCid L R sortSlice \<lparr>sc_Cid = dr_Cid req\<rparr> s of
        (Panic m, s1) \<Rightarrow> (Panic m, s1)
      | (Err e, s1) \<Rightarrow> (Err e, s1)
      | (Ok searchCidResponse, s1) \<Rightarrow>
          (Ok \<lparr>drr_Providers = map (\<lambda>a. GetProviderInstance (Some a)) (scr_StorageInstances searchCidResponse)\<rparr>, s1))"

text \<open>\<open>log.Fatalf\<close> ends the process.\<close>

definition MustEncodeMultihash :: "libs \<Rightarrow> cid \<Rightarrow> string result" where
  "MustEncodeMultihash L c =
     (case base58_Decode L (multihash_B58String L (cid_Hash c)) of
        Inl e \<Rightarrow> Panic ''failed to decode base58: %s''
      | Inr mhBytes \<Rightarrow> Ok (base64_EncodeToString mhBytes))"

subsection \<open>The sort\<close>

definition sorts_by_score :: "(AdWithScore list \<Rightarrow> AdWithScore list) \<Rightarrow> bool" where
  "sorts_by_score f \<longleftrightarrow> (\<forall>xs. mset (f xs) = mset xs \<and> sorted (map score (f xs)))"

lemma sorts_by_score_set: "sorts_by_score f \<Longrightarrow> set (f xs) = set xs"
  unfolding sorts_by_score_def by (metis mset_eq_setD)

lemma sorts_by_score_sort_key: "sorts_by_score (sort_key score)"
  by (simp add: sorts_by_score_def)

lemma retLoop_take:
  assumes "0 \<le> i" and "i \<le> defaultInstanceCount"
  shows "retLoop i xs ret = ret @ map ad (take (nat (defaultInstanceCount - i + 1)) xs)"
  using assms
proof (induction xs arbitrary: i ret)
  case Nil
  then show ?case by simp
next
  case (Cons x xs)
  show ?case
  proof (cases "i = defaultInstanceCount")
    case True
    then show ?thesis by simp
  next
    case False
    then have "nat (defaultInstanceCount - i + 1) = Suc (nat (defaultInstanceCount - (i + 1) + 1))"
      using Cons.prems by simp
    with False Cons show ?thesis by simp
  qed
qed

subsection \<open>The loops, read off the store\<close>

text \<open>The advertisement stored for a member, and the virtual service stored for a hash, if any.\<close>

definition stored_ad :: "libs \<Rightarrow> keyspace \<Rightarrow> Z \<Rightarrow> AdWithScore list" where
  "stored_ad L ks z =
     (case Member z of
        AnyOther \<Rightarrow> []
      | AnyString did \<Rightarrow>
          (case ks (instance_key did) of
             Some (RStr b, _) \<Rightarrow>
               (case UnmarshalBinary_ProviderAdvertise L b of Inl _ \<Rightarrow> [] | Inr a \<Rightarrow> [\<lparr>score = Score z, ad = a\<rparr>])
           | _ \<Rightarrow> []))"

definition stored_vsvc :: "libs \<Rightarrow> keyspace \<Rightarrow> string \<Rightarrow> VirtualService list" where
  "stored_vsvc L ks h =
     (case ks (vsvc_detail_key h) of
        Some (RStr b, _) \<Rightarrow> (case UnmarshalBinary_VirtualService L b of Inl _ \<Rightarrow> [] | Inr v \<Rightarrow> [v])
      | _ \<Rightarrow> [])"

lemma length_stored_ad: "length (stored_ad L ks z) \<le> 1"
  by (simp add: stored_ad_def split: redis_any.split option.split prod.split rval.split sum.split)

lemma length_stored_ads: "length (concat (map (stored_ad L ks) zs)) \<le> length zs"
proof (induction zs)
  case Nil
  then show ?case by simp
next
  case (Cons z zs)
  then show ?case using length_stored_ad [of L ks z] by simp
qed

context redis_contract
begin

text \<open>\<open>Get\<close> on a healthy connection: the string, or an error for anything else.\<close>

lemma get_cases:
  assumes "up s"
  obtains (str) v e where "view s k = Some (RStr v, e)" and "fst (rGet R k s) = Inr v"
  | (err) x where "\<nexists>v e. view s k = Some (RStr v, e)" and "fst (rGet R k s) = Inl x"
proof (cases "view s k")
  case None
  with get_none [OF assms None] show ?thesis by (intro err) auto
next
  case (Some p)
  then obtain val e where p: "view s k = Some (val, e)" by (cases p) simp
  show ?thesis
  proof (cases "\<exists>v. val = RStr v")
    case True
    with p get_str [OF assms] show ?thesis by (blast intro: str)
  next
    case False
    then obtain m where "fst (rGet R k s) = Inl (LibErr m)" using get_wrongtype [OF assms p] by blast
    moreover have "\<nexists>v e. view s k = Some (RStr v, e)" using p False by simp
    ultimately show ?thesis by (rule err [rotated])
  qed
qed

lemma instanceLoop_reads:
  "up s \<Longrightarrow> up (snd (instanceLoop L R n zs acc s)) \<and> clock (snd (instanceLoop L R n zs acc s)) = clock s \<and>
     view (snd (instanceLoop L R n zs acc s)) = view s"
proof (induction zs arbitrary: acc s)
  case Nil
  then show ?case by simp
next
  case (Cons z zs)
  then show ?case
    by (auto simp: case_prod_beta Let_def split: redis_any.split sum.split)
qed

lemma instanceLoop_spec:
  assumes "up s" and "\<forall>z \<in> set zs. \<exists>x. Member z = AnyString x" and "int (length acc) < n"
  shows "fst (instanceLoop L R n zs acc s) = Ok (take (nat n) (acc @ concat (map (stored_ad L (view s)) zs)))"
  using assms
proof (induction zs arbitrary: acc s)
  case Nil
  then show ?case by simp
next
  case (Cons z zs)
  obtain did where did: "Member z = AnyString did" using Cons.prems(2) by auto
  let ?s1 = "snd (rGet R (instance_key did) s)"
  have s1: "up ?s1" "view ?s1 = view s" using Cons.prems(1) by simp_all
  have IH: "int (length acc') < n \<Longrightarrow> fst (instanceLoop L R n zs acc' ?s1) =
      Ok (take (nat n) (acc' @ concat (map (stored_ad L (view s)) zs)))" for acc'
    using Cons.IH [OF s1(1)] Cons.prems(2) s1(2) by simp
  show ?case
  proof (cases rule: get_cases [OF Cons.prems(1), of "instance_key did", case_names str err])
    case (str v e)
    show ?thesis
    proof (cases "UnmarshalBinary_ProviderAdvertise L v")
      case (Inl x)
      then have "stored_ad L (view s) z = []" using str did by (simp add: stored_ad_def)
      with Inl str did IH [OF Cons.prems(3)] show ?thesis by (simp add: case_prod_beta)
    next
      case (Inr a)
      then have st: "stored_ad L (view s) z = [\<lparr>score = Score z, ad = a\<rparr>]" using str did by (simp add: stored_ad_def)
      show ?thesis
      proof (cases "int (length acc) + 1 = n")
        case True
        then have "nat n = Suc (length acc)" by simp
        with True str did Inr st show ?thesis by (simp add: case_prod_beta Let_def)
      next
        case False
        with Cons.prems(3) have "int (length (acc @ [\<lparr>score = Score z, ad = a\<rparr>])) < n" by simp
        from IH [OF this] False str did Inr st show ?thesis by (simp add: case_prod_beta Let_def add.commute)
      qed
    qed
  next
    case (err x)
    then have "stored_ad L (view s) z = []"
      using did by (auto simp: stored_ad_def split: option.split prod.split rval.split)
    with err did IH [OF Cons.prems(3)] show ?thesis by (simp add: case_prod_beta)
  qed
qed

lemma searchInstances_reads:
  "up s \<Longrightarrow> up (snd (searchInstances L R v n s)) \<and> clock (snd (searchInstances L R v n s)) = clock s \<and>
     view (snd (searchInstances L R v n s)) = view s"
  using instanceLoop_reads by (auto simp: searchInstances_def case_prod_beta split: sum.split)

lemma searchInstances_spec:
  assumes "up s" and "HashMessage L (Marshal_VirtualService L v) = Inr h"
    and "zset_at (view s) (vsvc_instance_key h) zs e" and "0 < n"
  shows "fst (searchInstances L R v n s) = Ok (take (nat n) (concat (map (stored_ad L (view s))
    (map (\<lambda>(sc, x). \<lparr>Score = sc, Member = AnyString x\<rparr>) (take (nat (n + 1)) zs)))))"
proof -
  let ?zs = "map (\<lambda>(sc, x). \<lparr>Score = sc, Member = AnyString x\<rparr>) (take (nat (n + 1)) zs)"
  let ?r = "rZRangeWithScores R (vsvc_instance_key h) 0 n s"
  have r: "fst ?r = Inr ?zs"
    using assms(3) zrange_none [OF assms(1), of "vsvc_instance_key h" 0 n] zrange_zset [OF assms(1), of "vsvc_instance_key h" zs e 0 n] assms(4)
    by (auto simp: zset_at_def)
  have "up (snd ?r)" "view (snd ?r) = view s" using assms(1) by simp_all
  moreover have "\<forall>z \<in> set ?zs. \<exists>x. Member z = AnyString x" by auto
  ultimately show ?thesis
    using instanceLoop_spec [of "snd ?r" ?zs "[]" n L] assms(2,4) r by (simp add: searchInstances_def case_prod_beta)
qed

text \<open>A search returns at most the number asked for, and never panics.\<close>

lemma searchInstances_bound:
  assumes "up s" and "0 < n"
  shows "(\<exists>e. fst (searchInstances L R v n s) = Err e) \<or>
    (\<exists>xs. fst (searchInstances L R v n s) = Ok xs \<and> int (length xs) \<le> n)"
proof (cases "HashMessage L (Marshal_VirtualService L v)")
  case (Inl e)
  then show ?thesis by (simp add: searchInstances_def)
next
  case (Inr h)
  let ?r = "rZRangeWithScores R (vsvc_instance_key h) 0 n s"
  show ?thesis
  proof (cases "fst ?r")
    case (Inl e)
    with Inr show ?thesis by (simp add: searchInstances_def case_prod_beta)
  next
    case (Inr zs)
    have "\<forall>z \<in> set zs. \<exists>x. Member z = AnyString x" using zrange_string [OF assms(1) Inr] by blast
    from instanceLoop_spec [OF _ this, of "snd ?r" "[]" n L] assms Inr \<open>HashMessage _ _ = Inr h\<close> show ?thesis
      by (simp add: searchInstances_def case_prod_beta)
  qed
qed

lemma scanLoop_reads:
  "up s \<Longrightarrow> up (snd (scanLoop L R err items acc s)) \<and> clock (snd (scanLoop L R err items acc s)) = clock s \<and>
     view (snd (scanLoop L R err items acc s)) = view s"
proof (induction items arbitrary: acc s rule: induct_list012)
  case (3 h x items)
  have "up (snd (rGet R (vsvc_detail_key h) s))" using 3(3) by simp
  note IH = 3(1) [OF this]
  from 3(3) show ?case
    by (auto simp: IH iterErr_def case_prod_beta split: sum.split)
qed (simp_all add: iterErr_def)

lemma scanLoop_spec:
  assumes "up s"
  shows "fst (scanLoop L R err (scan_items fvs) acc s) = Inr (acc @ concat (map (\<lambda>fv. stored_vsvc L (view s) (fst fv)) fvs))"
  using assms
proof (induction fvs arbitrary: acc s)
  case Nil
  then show ?case by simp
next
  case (Cons fv fvs)
  obtain h x where fv: "fv = (h, x)" by (cases fv)
  let ?s1 = "snd (rGet R (vsvc_detail_key h) s)"
  have IH: "fst (scanLoop L R err (scan_items fvs) acc' ?s1) =
      Inr (acc' @ concat (map (\<lambda>fv. stored_vsvc L (view s) (fst fv)) fvs))" for acc'
    using Cons.IH [of ?s1] Cons.prems by simp
  show ?case
  proof (cases rule: get_cases [OF Cons.prems, of "vsvc_detail_key h", case_names str err])
    case (str v e)
    then have "stored_vsvc L (view s) h = (case UnmarshalBinary_VirtualService L v of Inl _ \<Rightarrow> [] | Inr w \<Rightarrow> [w])"
      by (simp add: stored_vsvc_def)
    with str fv IH show ?thesis
      by (cases "UnmarshalBinary_VirtualService L v") (simp_all add: iterErr_def case_prod_beta)
  next
    case (err y)
    then have "stored_vsvc L (view s) h = []" by (auto simp: stored_vsvc_def split: option.split prod.split rval.split)
    with err fv IH show ?thesis by (simp add: iterErr_def case_prod_beta)
  qed
qed

lemma batchLoop_reads:
  "up s \<Longrightarrow> up (snd (batchLoop L R vs acc s)) \<and> clock (snd (batchLoop L R vs acc s)) = clock s \<and>
     view (snd (batchLoop L R vs acc s)) = view s"
proof (induction vs arbitrary: acc s)
  case Nil
  then show ?case by simp
next
  case (Cons v vs)
  then show ?case
    using searchInstances_reads [OF Cons.prems, of L "Some v" defaultInstanceCount]
    by (cases "searchInstances L R (Some v) defaultInstanceCount s";
        cases "fst (searchInstances L R (Some v) defaultInstanceCount s)") auto
qed

text \<open>
  The batches together: the loop always ends with a list, which keeps what it had and holds what a
  search for each of the virtual services finds.
\<close>

lemma batchLoop_collects:
  assumes "up s" and "\<And>s'. up s' \<Longrightarrow> view s' = view s \<Longrightarrow>
      \<exists>xs. fst (searchInstances L R (Some v) defaultInstanceCount s') = Ok xs \<and> x \<in> set xs"
  shows "\<exists>xs. fst (batchLoop L R vs acc s) = Ok xs \<and> set acc \<subseteq> set xs \<and> (v \<in> set vs \<longrightarrow> x \<in> set xs)"
  using assms
proof (induction vs arbitrary: acc s)
  case Nil
  then show ?case by simp
next
  case (Cons w vs)
  let ?r = "searchInstances L R (Some w) defaultInstanceCount s"
  have s1: "up (snd ?r)" "view (snd ?r) = view s" using searchInstances_reads [OF Cons.prems(1)] by simp_all
  have IH: "\<exists>xs. fst (batchLoop L R vs acc' (snd ?r)) = Ok xs \<and> set acc' \<subseteq> set xs \<and> (v \<in> set vs \<longrightarrow> x \<in> set xs)" for acc'
    using Cons.IH [OF s1(1)] Cons.prems(2) s1(2) by simp
  consider e where "fst ?r = Err e" | ys where "fst ?r = Ok ys"
    using searchInstances_bound [OF Cons.prems(1), of defaultInstanceCount L "Some w"] by (auto simp: defaultInstanceCount_def)
  then show ?case
  proof cases
    case 1
    then have "v \<noteq> w" using Cons.prems by fastforce
    with 1 IH [of acc] show ?thesis by (auto simp: case_prod_beta)
  next
    case 2
    have "v = w \<Longrightarrow> x \<in> set ys" using Cons.prems 2 by fastforce
    with 2 IH [of "acc @ ys"] show ?thesis by (auto simp: case_prod_beta)
  qed
qed

end

subsection \<open>Registering, then searching\<close>

lemma zadd_gt_mem: "\<exists>sc'. (sc', x) \<in> set (zadd_gt sc x zs)"
proof (cases "zscore x zs")
  case None
  then show ?thesis by (auto simp: zadd_gt_def set_insort_key)
next
  case (Some old)
  then have "find (\<lambda>z. snd z = x) zs \<noteq> None" by (auto simp: zscore_def)
  then obtain z where "z \<in> set zs" "snd z = x" by (auto simp: find_None_iff)
  then have "(fst z, x) \<in> set zs" by auto
  with Some show ?thesis by (auto simp: zadd_gt_def set_insort_key)
qed

lemma zadd_gt_length: "length (zadd_gt sc x zs) \<le> Suc (length zs)"
  by (simp add: zadd_gt_def le_SucI split: option.split)

lemma purge_zset:
  "ks k = Some (RZSet zs, e) \<Longrightarrow> unexpired t e \<Longrightarrow> purge t ks k = Some (RZSet zs, e)"
  by (simp add: purge_def)

text \<open>
  An advertisement the service accepts, with the messages that are stored for it. As it was received
  over the wire, no exchange in it is \<open>nil\<close>.
\<close>

definition acceptable :: "libs \<Rightarrow> ProviderAdvertise \<Rightarrow> string \<Rightarrow> bytes \<Rightarrow> bytes \<Rightarrow> bool" where
  "acceptable L a h vb ab \<longleftrightarrow>
     IsBehaviorMatching L (GetBehaviorLink (pa_VirtualService a)) = Inr True \<and>
     EnsureAdvertisementValid L (Some a) = Inr () \<and> pa_Cids a \<noteq> [] \<and> None \<notin> set (pa_Exchanges a) \<and>
     Marshal_VirtualService L (pa_VirtualService a) = Inr vb \<and> Marshal_ProviderAdvertise L (Some a) = Inr ab \<and>
     h = base58_Encode L (sha256 vb)"

text \<open>The keys an advertisement is written to hold the types the service writes, or nothing.\<close>

definition index_typed :: "keyspace \<Rightarrow> string \<Rightarrow> string list \<Rightarrow> bool" where
  "index_typed ks h cids \<longleftrightarrow>
     (\<exists>hm e. hash_at ks (vsvc_cid_key h) hm e) \<and> (\<exists>zs e. zset_at ks (vsvc_instance_key h) zs e) \<and>
     (\<forall>c \<in> set cids. \<exists>hm e. hash_at ks (cid_vsvc_key c) hm e)"

lemma registerLoop_serve_all:
  "acceptable L a h vb ab \<Longrightarrow>
     RegisterInstance L R now \<lparr>ri_Advertisement = Some a\<rparr> s =
       (case Register L R now (Some a) s of
          (Inl e, s1) \<Rightarrow> (Err (Status Internal ''failed to register: %s''), s1) | (Inr _, s1) \<Rightarrow> (Ok (), s1))"
  by (simp add: RegisterInstance_def NewServeAllFileServing_def acceptable_def)

context redis_contract
begin

lemma RegisterInstance_typed: "typed_state s \<Longrightarrow> typed_state (snd (RegisterInstance L R now \<lparr>ri_Advertisement = a\<rparr> s))"
  using Register_typed [of s L now a]
  by (auto simp: RegisterInstance_def NewServeAllFileServing_def case_prod_beta split: sum.split)

lemma RegisterInstance_effect:
  fixes a :: ProviderAdvertise and L :: libs and now :: int
  assumes u: "up s" and a: "acceptable L a h vb ab" and t: "index_typed (view s) h (pa_Cids a)"
    and z: "zset_at (view s) (vsvc_instance_key h) zs e"
  defines "s' \<equiv> snd (RegisterInstance L R now \<lparr>ri_Advertisement = Some a\<rparr> s)"
    and "did \<equiv> GetDid (pa_ProviderInstance a)" and "till \<equiv> Some (clock s + index_ttl)"
  shows "fst (RegisterInstance L R now \<lparr>ri_Advertisement = Some a\<rparr> s) = Ok ()" and "up s'" and "clock s' = clock s"
    and "view s' (vsvc_detail_key h) = Some (RStr vb, till)"
    and "view s' (vsvc_instance_key h) = Some (RZSet (zadd_gt (real_of_int (now div Millisecond)) did zs), till)"
    and "view s' (instance_key did) = Some (RStr ab, till)"
    and "\<forall>c \<in> set (pa_Cids a). has_vsvc (view s') c h"
    and "\<And>h'. h' \<noteq> h \<Longrightarrow> view s' (vsvc_instance_key h') = view s (vsvc_instance_key h')"
proof -
  obtain hm e1 where k: "hash_at (view s) (vsvc_cid_key h) hm e1" using t by (auto simp: index_typed_def)
  have c: "\<forall>c \<in> set (GetCids (Some a)). \<exists>hm e. hash_at (view s) (cid_vsvc_key c) hm e"
    using t by (simp add: index_typed_def)
  have m: "HashMessage L (Marshal_VirtualService L (GetVirtualService (Some a))) = Inr h" "GetCids (Some a) \<noteq> []"
    "Marshal_VirtualService L (GetVirtualService (Some a)) = Inr vb" "Marshal_ProviderAdvertise L (Some a) = Inr ab"
    using a by (simp_all add: acceptable_def HashMessage_def)
  note r = Register_effect [where now = now, OF u m k z c]
  have eq: "RegisterInstance L R now \<lparr>ri_Advertisement = Some a\<rparr> s = (Ok (), snd (Register L R now (Some a) s))"
    unfolding registerLoop_serve_all [OF a] using r(1) by (simp add: case_prod_beta)
  show "fst (RegisterInstance L R now \<lparr>ri_Advertisement = Some a\<rparr> s) = Ok ()" by (simp add: eq)
  from r(2-8) show "up s'" "clock s' = clock s" "view s' (vsvc_detail_key h) = Some (RStr vb, till)"
    "view s' (vsvc_instance_key h) = Some (RZSet (zadd_gt (real_of_int (now div Millisecond)) did zs), till)"
    "view s' (instance_key did) = Some (RStr ab, till)" "\<forall>c \<in> set (pa_Cids a). has_vsvc (view s') c h"
    "\<And>h'. h' \<noteq> h \<Longrightarrow> view s' (vsvc_instance_key h') = view s (vsvc_instance_key h')"
    by (simp_all add: s'_def eq did_def till_def)
qed

text \<open>A search finds the advertisement stored for a member of a set that is not too large.\<close>

lemma searchInstances_finds:
  assumes "up s" and "HashMessage L (Marshal_VirtualService L v) = Inr h"
    and "view s (vsvc_instance_key h) = Some (RZSet zs, e)" and "int (length zs) \<le> n" and "0 < n"
    and "(sc, did) \<in> set zs" and "view s (instance_key did) = Some (RStr b, e')"
    and "Unmarshal_ProviderAdvertise L b = Inr a"
  shows "\<exists>xs. fst (searchInstances L R v n s) = Ok xs \<and> \<lparr>score = sc, ad = a\<rparr> \<in> set xs"
proof -
  let ?z = "\<lambda>(sc, x). \<lparr>Score = sc, Member = AnyString x\<rparr>"
  let ?xs = "concat (map (stored_ad L (view s)) (map ?z zs))"
  have "zset_at (view s) (vsvc_instance_key h) zs e" using assms(3) by (simp add: zset_at_def)
  note sp = searchInstances_spec [OF assms(1,2) this assms(5)]
  have "take (nat (n + 1)) zs = zs" using assms(4) by simp
  moreover have "length ?xs \<le> nat n" using length_stored_ads [of L "view s" "map ?z zs"] assms(4) by simp
  ultimately have "fst (searchInstances L R v n s) = Ok ?xs" using sp by simp
  moreover have "stored_ad L (view s) (?z (sc, did)) = [\<lparr>score = sc, ad = a\<rparr>]"
    using assms(7,8) by (simp add: stored_ad_def UnmarshalBinary_ProviderAdvertise_def)
  then have "\<lparr>score = sc, ad = a\<rparr> \<in> set ?xs" using assms(6) by force
  ultimately show ?thesis by blast
qed

lemma SearchInstance_finds:
  assumes "\<exists>xs. fst (searchInstances L R v defaultInstanceCount s) = Ok xs \<and> \<lparr>score = sc, ad = a\<rparr> \<in> set xs"
  shows "\<exists>resp. fst (SearchInstance L R \<lparr>si_VirtualService = v\<rparr> s) = Ok resp \<and> a \<in> set (sir_InstancePriceInfo resp)"
proof -
  obtain xs where "fst (searchInstances L R v defaultInstanceCount s) = Ok xs" "\<lparr>score = sc, ad = a\<rparr> \<in> set xs"
    using assms by blast
  moreover from this(2) have "a \<in> ad ` set xs" by force
  ultimately show ?thesis by (simp add: SearchInstance_def case_prod_beta)
qed

end

text \<open>The answer of a search by CID: the first hundred and one of the sorted instances.\<close>

lemma retLoop_all: "retLoop 0 xs [] = map ad (take 101 xs)"
  using retLoop_take [of 0 xs "[]"] by (simp add: defaultInstanceCount_def)

text \<open>
  What the store holds for a virtual service: the advertisements of the providers with the lowest scores, in the
  order of the sorted set, a hundred at most.
\<close>

definition found :: "libs \<Rightarrow> keyspace \<Rightarrow> VirtualService option \<Rightarrow> AdWithScore list" where
  "found L ks v =
     (case HashMessage L (Marshal_VirtualService L v) of
        Inl e \<Rightarrow> []
      | Inr h \<Rightarrow>
          (case ks (vsvc_instance_key h) of
             Some (RZSet zs, _) \<Rightarrow>
               take 100 (concat (map (stored_ad L ks) (map (\<lambda>(sc, x). \<lparr>Score = sc, Member = AnyString x\<rparr>) (take 101 zs))))
           | _ \<Rightarrow> []))"

text \<open>The alphabet of base58 has no slash.\<close>

definition base58_plain :: "libs \<Rightarrow> bool" where
  "base58_plain L \<longleftrightarrow> (\<forall>b. plain (base58_Encode L b))"

context redis_contract
begin

text \<open>With well-typed index keys, and hashes that are segments of a key, a search is \<open>found\<close>.\<close>

lemma searchInstances_found:
  assumes "up s" and "index_wf (view s)" and "base58_plain L"
  shows "fst (searchInstances L R v defaultInstanceCount s) =
    (case HashMessage L (Marshal_VirtualService L v) of
       Inl e \<Rightarrow> Err (Status Internal ''failed to hash virtual service: %s'')
     | Inr h \<Rightarrow> Ok (found L (view s) v))"
proof (cases "HashMessage L (Marshal_VirtualService L v)")
  case (Inl e)
  then show ?thesis by (simp add: searchInstances_def)
next
  case h: (Inr h)
  then have "plain h" using assms(3) by (auto simp: HashMessage_def base58_plain_def split: sum.splits)
  then obtain zs e where z: "zset_at (view s) (vsvc_instance_key h) zs e" using index_wf_at(3) [OF assms(2)] by blast
  then have "found L (view s) v = take 100 (concat (map (stored_ad L (view s)) (map (\<lambda>(sc, x). \<lparr>Score = sc, Member = AnyString x\<rparr>) (take 101 zs))))"
    using h by (auto simp: found_def zset_at_def)
  with searchInstances_spec [OF assms(1) h z, of defaultInstanceCount] h show ?thesis
    by (simp add: defaultInstanceCount_def)
qed

lemma batchLoop_found:
  assumes "up s" and "index_wf (view s)" and "base58_plain L"
  shows "fst (batchLoop L R vs acc s) = Ok (acc @ concat (map (\<lambda>v. found L (view s) (Some v)) vs))"
  using assms(1,2)
proof (induction vs arbitrary: acc s)
  case Nil
  then show ?case by simp
next
  case (Cons w vs)
  let ?r = "searchInstances L R (Some w) defaultInstanceCount s"
  have s1: "up (snd ?r)" "view (snd ?r) = view s" using searchInstances_reads [OF Cons.prems(1)] by simp_all
  have IH: "fst (batchLoop L R vs acc' (snd ?r)) = Ok (acc' @ concat (map (\<lambda>v. found L (view s) (Some v)) vs))" for acc'
    using Cons.IH [OF s1(1)] Cons.prems(2) s1(2) by simp
  have "HashMessage L (Marshal_VirtualService L (Some w)) = Inl e \<Longrightarrow> found L (view s) (Some w) = []" for e by (simp add: found_def)
  with searchInstances_found [OF Cons.prems assms(3), of "Some w"] IH show ?case
    by (auto simp: case_prod_beta split: sum.splits)
qed

lemma batchLoop_Ok: "up s \<Longrightarrow> \<exists>xs. fst (batchLoop L R vs acc s) = Ok xs"
proof (induction vs arbitrary: acc s)
  case Nil
  then show ?case by simp
next
  case (Cons w vs)
  let ?r = "searchInstances L R (Some w) defaultInstanceCount s"
  have s1: "up (snd ?r)" using searchInstances_reads [OF Cons.prems] by simp
  from Cons.IH [OF s1] searchInstances_bound [OF Cons.prems, of defaultInstanceCount L "Some w"] show ?case
    by (auto simp: case_prod_beta defaultInstanceCount_def)
qed

lemma doSearchCid_calm:
  assumes "up s"
  shows "fst (doSearchCid L R f req s) \<noteq> Panic m"
proof (cases "NormalizeCidToV1 L (sc_Cid req)")
  case (Inl e)
  then show ?thesis by (simp add: doSearchCid_def)
next
  case (Inr c)
  let ?r = "rHScan R (cid_vsvc_key c) defaultVirtualServiceCount s"
  let ?q = "scanLoop L R (snd (fst ?r)) (fst (fst ?r)) [] (snd ?r)"
  have "up (snd ?q)" using scanLoop_reads assms by simp
  from batchLoop_Ok [OF this, of L "projr (fst ?q)" "[]"] Inr show ?thesis
    by (cases "fst ?q") (auto simp: doSearchCid_def case_prod_beta)
qed

lemma doSearchCid_shape:
  assumes "up s" and "index_wf (view s)" and "base58_plain L"
  shows "(\<exists>e. fst (doSearchCid L R f req s) = Err e) \<or>
    (\<exists>resp. fst (doSearchCid L R f req s) = Ok resp \<and> scr_VirtualServices resp \<noteq> [] \<and>
       scr_StorageInstances resp =
         map ad (take 101 (f (concat (map (\<lambda>v. found L (view s) (Some v)) (scr_VirtualServices resp))))))"
proof (cases "NormalizeCidToV1 L (sc_Cid req)")
  case (Inl e)
  then show ?thesis by (simp add: doSearchCid_def)
next
  case (Inr c)
  let ?r = "rHScan R (cid_vsvc_key c) defaultVirtualServiceCount s"
  let ?q = "scanLoop L R (snd (fst ?r)) (fst (fst ?r)) [] (snd ?r)"
  have u: "up (snd ?q)" "view (snd ?q) = view s" using scanLoop_reads assms(1) by simp_all
  show ?thesis
  proof (cases "fst ?q")
    case (Inl e)
    with Inr show ?thesis by (simp add: doSearchCid_def case_prod_beta)
  next
    case vs: (Inr vs)
    have "fst (batchLoop L R vs [] (snd ?q)) = Ok (concat (map (\<lambda>v. found L (view s) (Some v)) vs))"
      using batchLoop_found [OF u(1) _ assms(3), of vs "[]"] u(2) assms(2) by simp
    with Inr vs show ?thesis by (auto simp: doSearchCid_def case_prod_beta retLoop_all)
  qed
qed

lemma doSearchCid_finds:
  assumes u: "up s" and c: "NormalizeCidToV1 L c = Inr c'" and h: "has_vsvc (view s) c' h"
    and v: "stored_vsvc L (view s) h = [v]" and f: "sorts_by_score f"
    and b: "\<And>s'. up s' \<Longrightarrow> view s' = view s \<Longrightarrow>
      \<exists>xs. fst (searchInstances L R (Some v) defaultInstanceCount s') = Ok xs \<and> x \<in> set xs"
  shows "\<exists>resp. fst (doSearchCid L R f \<lparr>sc_Cid = c\<rparr> s) = Ok resp \<and> v \<in> set (scr_VirtualServices resp) \<and>
    (ad x \<in> set (scr_StorageInstances resp) \<or> length (scr_StorageInstances resp) = 101)"
proof -
  obtain hm e w t where hm: "view s (cid_vsvc_key c') = Some (RHash hm, e)" "(h, w, t) \<in> set hm"
    using h by (auto simp: has_vsvc_def)
  let ?r = "rHScan R (cid_vsvc_key c') defaultVirtualServiceCount s"
  obtain fvs where r: "fst ?r = (scan_items fvs, None)" and fvs: "set fvs = (\<lambda>(f, v, x). (f, v)) ` set hm"
    using hscan_hash [OF u hm(1), of defaultVirtualServiceCount] by blast
  let ?s1 = "snd ?r"
  have s1: "up ?s1" "view ?s1 = view s" using u by simp_all
  let ?vs = "concat (map (\<lambda>fv. stored_vsvc L (view s) (fst fv)) fvs)"
  have sc: "fst (scanLoop L R None (scan_items fvs) [] ?s1) = Inr ?vs"
    using scanLoop_spec [OF s1(1), of L None fvs "[]"] s1(2) by simp
  have "(h, w) \<in> set fvs" using hm(2) fvs by force
  then have vs: "v \<in> set ?vs" using v by force
  then have ne: "length ?vs \<noteq> 0" by (metis length_0_conv list.set(1) empty_iff)
  let ?s2 = "snd (scanLoop L R None (scan_items fvs) [] ?s1)"
  have s2: "up ?s2" "view ?s2 = view s" using scanLoop_reads [OF s1(1)] s1(2) by simp_all
  obtain xs where xs: "fst (batchLoop L R ?vs [] ?s2) = Ok xs" "x \<in> set xs"
    using batchLoop_collects [OF s2(1), of L v x ?vs "[]"] b s2(2) vs by auto
  have eq: "fst (doSearchCid L R f \<lparr>sc_Cid = c\<rparr> s) =
      Ok \<lparr>scr_VirtualServices = ?vs, scr_StorageInstances = map ad (take 101 (f xs))\<rparr>"
    using c r sc ne xs(1) by (simp add: doSearchCid_def case_prod_beta retLoop_all del: concat_eq_Nil_conv length_concat)
  have "ad x \<in> ad ` set (take 101 (f xs)) \<or> length (take 101 (f xs)) = 101"
  proof (cases "length (f xs) \<le> 101")
    case True
    with xs(2) sorts_by_score_set [OF f, of xs] show ?thesis by simp
  next
    case False
    then show ?thesis by simp
  qed
  with eq vs show ?thesis by (simp del: length_take)
qed

end

text \<open>Well-typed index keys are what an advertisement with plain names needs.\<close>

lemma index_wf_typed: "index_wf ks \<Longrightarrow> plain h \<Longrightarrow> \<forall>c \<in> set cids. plain c \<Longrightarrow> index_typed ks h cids"
  using index_wf_at by (auto simp: index_typed_def)

lemma acceptable_hash: "acceptable L a h vb ab \<Longrightarrow> HashMessage L (Marshal_VirtualService L (pa_VirtualService a)) = Inr h"
  by (simp add: acceptable_def HashMessage_def)

lemma acceptable_unmarshal:
  "acceptable L a h vb ab \<Longrightarrow> proto_roundtrip L \<Longrightarrow> Unmarshal_ProviderAdvertise L ab = Inr a"
  by (simp add: acceptable_def proto_roundtrip_def)

subsection \<open>Properties\<close>

text \<open>
  C18. A registered provider is found. An advertisement with the right behaviour and a matching
  Merkle root is accepted, and until the index entry's time to live has passed a search for its
  virtual service returns it, byte for byte as it was registered, as long as the service has fewer
  than a hundred providers.
\<close>

theorem register_then_search:
  assumes "redis_contract R view clock up" and "proto_roundtrip L" and "up s"
    and "acceptable L a h vb ab" and "index_typed (view s) h (pa_Cids a)"
    and "zset_at (view s) (vsvc_instance_key h) zs e" and "length zs < 100"
    and "RegisterInstance L R now \<lparr>ri_Advertisement = Some a\<rparr> s = (r, s1)"
    and "elapse view clock up s1 s2" and "clock s2 < clock s + index_ttl"
  shows "r = Ok () \<and> (\<exists>resp. fst (SearchInstance L R \<lparr>si_VirtualService = pa_VirtualService a\<rparr> s2) = Ok resp \<and>
    a \<in> set (sir_InstancePriceInfo resp))"
proof -
  let ?did = "GetDid (pa_ProviderInstance a)" and ?zs = "zadd_gt (real_of_int (now div Millisecond)) (GetDid (pa_ProviderInstance a)) zs"
  note reg = redis_contract.RegisterInstance_effect [where now = now, OF assms(1,3,4,5,6), unfolded assms(8) fst_conv snd_conv]
  have t: "unexpired (clock s2) (Some (clock s + index_ttl))" using assms(10) by (simp add: unexpired_def)
  have u: "up s2" and p: "view s2 = purge (clock s2) (view s1)" using assms(9) by (simp_all add: elapse_def)
  have v: "view s2 (vsvc_instance_key h) = Some (RZSet ?zs, Some (clock s + index_ttl))"
    "view s2 (instance_key ?did) = Some (RStr ab, Some (clock s + index_ttl))"
    using reg(5,6) t by (simp_all add: p purge_str purge_zset)
  obtain sc where sc: "(sc, ?did) \<in> set ?zs" using zadd_gt_mem by blast
  have n: "int (length ?zs) \<le> defaultInstanceCount" "0 < defaultInstanceCount"
    using zadd_gt_length [of "real_of_int (now div Millisecond)" ?did zs] assms(7) by (simp_all add: defaultInstanceCount_def)
  note f = redis_contract.searchInstances_finds [OF assms(1) u acceptable_hash [OF assms(4)] v(1) n sc v(2)
      acceptable_unmarshal [OF assms(4,2)]]
  from reg(1) redis_contract.SearchInstance_finds [OF assms(1) f] show ?thesis by simp
qed

lemma demo_root: "unhex ''aa'' = [CHR 0x00]" "hex [CHR 0x00] = ''aa''" "unhex ''ab'' = [CHR 0x01]" "hex [CHR 0x01] = ''ab''"
  by code_simp+

lemma demo_acceptable:
  "acceptable demo_libs demo_A (hex (sha256 ''va'')) ''va'' ''aa''"
  "acceptable demo_libs demo_B (hex (sha256 ''vb'')) ''vb'' ''ab''"
  by (simp_all add: acceptable_def demo_A_def demo_B_def demo_ad_def IsBehaviorMatching_def GlobalLinkEqual_def HashMessage_def
      EnsureAdvertisementValid_def CalculateMerkleRoot_def demo_libs_def demo_Marshal_GL_def demo_Marshal_VS_def demo_Marshal_PA_def
      demo_vsvc_def demo_link_def ServeAllBehavior_def SERVE_ALL_BEHAVIOR_NAME_def SERVE_ALL_BEHAVIOR_MAINTAINER_def
      SERVE_ALL_BEHAVIOR_VERSION_def demo_cid_Decode_def demo_cid_String_def demo_Root_def demo_root del: hex.simps unhex.simps)

definition demo_empty :: mem where
  "demo_empty = \<lparr>mclock = 0, mkeys = Map.empty\<rparr>"

lemma demo_empty_ok: "mup demo_empty" "index_typed (mkeys demo_empty) h cids" "zset_at (mkeys demo_empty) k [] None"
  "index_wf (mkeys demo_empty)" "mkeys demo_empty = Map.empty" "mclock demo_empty = 0"
  by (auto simp: demo_empty_def mup_def index_typed_def hash_at_def zset_at_def)

theorem register_then_search_witness:
  "\<exists>s1 resp. RegisterInstance demo_libs mem_redis 0 \<lparr>ri_Advertisement = Some demo_A\<rparr> demo_empty = (Ok (), s1) \<and>
     fst (SearchInstance demo_libs mem_redis \<lparr>si_VirtualService = pa_VirtualService demo_A\<rparr>
       \<lparr>mclock = 1, mkeys = purge 1 (mkeys s1)\<rparr>) = Ok resp \<and> demo_A \<in> set (sir_InstancePriceInfo resp)"
proof -
  obtain r s1 where r: "RegisterInstance demo_libs mem_redis 0 \<lparr>ri_Advertisement = Some demo_A\<rparr> demo_empty = (r, s1)"
    by (cases "RegisterInstance demo_libs mem_redis 0 \<lparr>ri_Advertisement = Some demo_A\<rparr> demo_empty")
  have c: "mclock s1 = 0"
    using mem.RegisterInstance_effect(3) [where now = 0, OF demo_empty_ok(1) demo_acceptable(1) demo_empty_ok(2,3)] r
    by (simp add: demo_empty_ok)
  have e: "elapse mkeys mclock mup s1 \<lparr>mclock = 1, mkeys = purge 1 (mkeys s1)\<rparr>"
    using c by (auto simp: elapse_def mup_def purge_def unexpired_def split: option.splits if_splits)
  from register_then_search [OF mem.redis_contract_axioms demo_proto_roundtrip demo_empty_ok(1) demo_acceptable(1)
      demo_empty_ok(2,3) _ r e] r
  show ?thesis by (simp add: demo_empty_ok index_ttl_def)
qed

text \<open>
  C19. A registered provider is found by each CID it serves. After a successful registration, for a virtual service
  that had fewer than a hundred providers, a search for one of the advertised CIDs, in its canonical form, lists
  the virtual service, and the advertisement is among the answers unless the services of the CID have so many
  providers together that the answer is full.
\<close>

theorem register_then_search_cid:
  fixes now :: int
  assumes "redis_contract R view clock up" and "proto_roundtrip L" and "sorts_by_score f" and "up s"
    and "acceptable L a h vb ab" and "pa_VirtualService a = Some v" and "index_typed (view s) h (pa_Cids a)"
    and "zset_at (view s) (vsvc_instance_key h) zs e" and "length zs < 100"
    and "c \<in> set (pa_Cids a)" and "NormalizeCidToV1 L c = Inr c"
  defines "s1 \<equiv> snd (RegisterInstance L R now \<lparr>ri_Advertisement = Some a\<rparr> s)"
  shows "\<exists>resp. fst (SearchCid L R f \<lparr>sc_Cid = c\<rparr> s1) = Ok resp \<and> v \<in> set (scr_VirtualServices resp) \<and>
    (a \<in> set (scr_StorageInstances resp) \<or> length (scr_StorageInstances resp) = 101)"
proof -
  let ?did = "GetDid (pa_ProviderInstance a)" and ?zs = "zadd_gt (real_of_int (now div Millisecond)) (GetDid (pa_ProviderInstance a)) zs"
  note reg = redis_contract.RegisterInstance_effect [where now = now, OF assms(1,4,5,7,8), folded s1_def]
  have u: "up s1" by (rule reg(2))
  have k: "has_vsvc (view s1) c h" using reg(7) assms(10) by simp
  have "Unmarshal_VirtualService L vb = Inr v"
    using assms(2,5,6) by (auto simp: acceptable_def proto_roundtrip_def)
  then have sv: "stored_vsvc L (view s1) h = [v]"
    using reg(4) by (simp add: stored_vsvc_def UnmarshalBinary_VirtualService_def)
  obtain sc where sc: "(sc, ?did) \<in> set ?zs" using zadd_gt_mem by blast
  have n: "int (length ?zs) \<le> defaultInstanceCount" "0 < defaultInstanceCount"
    using zadd_gt_length [of "real_of_int (now div Millisecond)" ?did zs] assms(9) by (simp_all add: defaultInstanceCount_def)
  have b: "\<exists>xs. fst (searchInstances L R (Some v) defaultInstanceCount s') = Ok xs \<and> \<lparr>score = sc, ad = a\<rparr> \<in> set xs"
    if s': "up s'" "view s' = view s1" for s'
    using redis_contract.searchInstances_finds [OF assms(1) s'(1) acceptable_hash [OF assms(5), unfolded assms(6)] _ n sc _
        acceptable_unmarshal [OF assms(5,2)]] reg(5,6) s'(2) by simp
  from redis_contract.doSearchCid_finds [OF assms(1) u assms(11) k sv assms(3) b] show ?thesis
    by (simp add: SearchCid_def)
qed

theorem register_then_search_cid_witness:
  "\<exists>resp. fst (SearchCid demo_libs mem_redis (sort_key score) \<lparr>sc_Cid = ''raa''\<rparr>
       (snd (RegisterInstance demo_libs mem_redis 0 \<lparr>ri_Advertisement = Some demo_A\<rparr> demo_empty))) = Ok resp \<and>
     demo_vsvc ''raa'' \<in> set (scr_VirtualServices resp)"
proof -
  have n: "NormalizeCidToV1 demo_libs ''raa'' = Inr ''raa''"
    by (simp add: NormalizeCidToV1_def demo_libs_def demo_cid_Decode_def demo_cid_String_def demo_root del: unhex.simps hex.simps)
  have a: "pa_VirtualService demo_A = Some (demo_vsvc ''raa'')" "''raa'' \<in> set (pa_Cids demo_A)"
    by (simp_all add: demo_A_def demo_ad_def)
  from register_then_search_cid [OF mem.redis_contract_axioms demo_proto_roundtrip sorts_by_score_sort_key demo_empty_ok(1)
      demo_acceptable(1) a(1) demo_empty_ok(2,3) _ a(2) n, of 0]
  show ?thesis by auto
qed




text \<open>
  C38. A provider's later advertisement replaces its earlier one everywhere. The advertisement is
  stored by the provider's DID alone, so when one provider registers a first and then a second
  virtual service, a search for the first returns the advertisement of the second, and nothing
  else when the provider is the only one.
\<close>

theorem later_advertisement_replaces:
  assumes "redis_contract R view clock up" and "proto_roundtrip L" and "up s" and "index_wf (view s)"
    and "acceptable L a h vb ab" and "acceptable L b h' vb' ab'" and "plain h" and "plain h'"
    and "\<forall>c \<in> set (pa_Cids a). plain c" and "\<forall>c \<in> set (pa_Cids b). plain c"
    and "GetDid (pa_ProviderInstance a) = GetDid (pa_ProviderInstance b)"
    and "view s (vsvc_instance_key h) = None"
  defines "s1 \<equiv> \<lambda>now. snd (RegisterInstance L R now \<lparr>ri_Advertisement = Some a\<rparr> s)"
  defines "s2 \<equiv> \<lambda>now now'. snd (RegisterInstance L R now' \<lparr>ri_Advertisement = Some b\<rparr> (s1 now))"
  shows "\<exists>resp. fst (SearchInstance L R \<lparr>si_VirtualService = pa_VirtualService a\<rparr> (s2 now now')) = Ok resp \<and>
    sir_InstancePriceInfo resp = [b]"
proof -
  let ?did = "GetDid (pa_ProviderInstance b)"
  have z: "zset_at (view s) (vsvc_instance_key h) [] None" using assms(12) by (simp add: zset_at_def)
  note r1 = redis_contract.RegisterInstance_effect [where now = now, OF assms(1,3,5) index_wf_typed [OF assms(4,7,9)] z]
  have z1: "view (s1 now) (vsvc_instance_key h) = Some (RZSet [(real_of_int (now div Millisecond), ?did)], Some (clock s + index_ttl))"
    using r1(5) assms(11) by (simp add: s1_def zadd_gt_def zscore_def)
  have "redis_contract.typed_state view up (s1 now)"
    using redis_contract.RegisterInstance_typed [OF assms(1), of s L now "Some a"] assms(3,4)
    by (simp add: s1_def redis_contract.typed_state_def [OF assms(1)])
  then have w1: "up (s1 now)" "index_wf (view (s1 now))" by (simp_all add: redis_contract.typed_state_def [OF assms(1)])
  obtain zs e where z': "zset_at (view (s1 now)) (vsvc_instance_key h') zs e" using index_wf_at(3) [OF w1(2) assms(8)] by blast
  note r2 = redis_contract.RegisterInstance_effect [where now = now', OF assms(1) w1(1) assms(6) index_wf_typed [OF w1(2) assms(8,10)] z',
      folded s2_def]
  have "\<exists>sc e. view (s2 now now') (vsvc_instance_key h) = Some (RZSet [(sc, ?did)], e)"
  proof (cases "h' = h")
    case True
    with z1 z' have "zs = [(real_of_int (now div Millisecond), ?did)]" by (simp add: zset_at_def)
    with r2(5) True show ?thesis by (auto simp: s2_def zadd_gt_def zscore_def)
  next
    case False
    with r2(8) [of h] z1 show ?thesis by (simp add: s2_def)
  qed
  then obtain sc e where z2: "zset_at (view (s2 now now')) (vsvc_instance_key h) [(sc, ?did)] e" by (auto simp: zset_at_def)
  have u2: "up (s2 now now')" using r2(2) by (simp add: s2_def)
  have st: "stored_ad L (view (s2 now now')) \<lparr>Score = sc, Member = AnyString ?did\<rparr> = [\<lparr>score = sc, ad = b\<rparr>]"
    using r2(6) acceptable_unmarshal [OF assms(6,2)] by (simp add: s2_def stored_ad_def UnmarshalBinary_ProviderAdvertise_def)
  from redis_contract.searchInstances_spec [OF assms(1) u2 acceptable_hash [OF assms(5)] z2, of defaultInstanceCount] st
  show ?thesis by (simp add: SearchInstance_def case_prod_beta defaultInstanceCount_def)
qed

theorem later_advertisement_replaces_witness:
  "\<exists>resp. fst (SearchInstance demo_libs mem_redis \<lparr>si_VirtualService = pa_VirtualService demo_A\<rparr>
      (snd (RegisterInstance demo_libs mem_redis 1 \<lparr>ri_Advertisement = Some demo_B\<rparr>
        (snd (RegisterInstance demo_libs mem_redis 0 \<lparr>ri_Advertisement = Some demo_A\<rparr> demo_empty))))) = Ok resp \<and>
    sir_InstancePriceInfo resp = [demo_B]"
proof -
  have p: "plain (hex x)" for x using hex_letters [of "CHR ''/''" x] by (auto simp: plain_def)
  have d: "\<forall>c \<in> set (pa_Cids demo_A). plain c" "\<forall>c \<in> set (pa_Cids demo_B). plain c"
    "GetDid (pa_ProviderInstance demo_A) = GetDid (pa_ProviderInstance demo_B)"
    by (simp_all add: demo_A_def demo_B_def demo_ad_def plain_def)
  from later_advertisement_replaces [OF mem.redis_contract_axioms demo_proto_roundtrip demo_empty_ok(1,4) demo_acceptable p p d]
  show ?thesis by (simp add: demo_empty_ok)
qed

end
