(* ===== verification/Server.thy ===== *)
theory Server
  imports Login Streams Index
begin

section \<open>The server (\<open>internal/api/server.go\<close>, \<open>cmd/pkv\<close>, the router of \<open>kvstore.connect.go\<close>)\<close>

text \<open>
  The parts put together: a request is routed by its procedure, passes the session interceptor
  unless authentication is disabled, then the validation interceptor, and reaches the handler of
  its message. A record holds what the service is run with: the packages, the Redis client, the
  sort and the validator.
\<close>

subsection \<open>The code\<close>

record Server =
  srv_config :: Config
  srv_sessionManager :: RedisSessionManager
  srv_authmanager :: StaticAuthManager
  srv_unitPrice :: int

definition NewServer :: "Config \<Rightarrow> (go_error + bytes) \<Rightarrow> Server result" where
  "NewServer conf randRead =
     (case NewRedisSessionManager randRead of
        Panic m \<Rightarrow> Panic m
      | Err e \<Rightarrow> Err e
      | Ok sm \<Rightarrow>
          Ok \<lparr>srv_config = conf, srv_sessionManager = sm,
              srv_authmanager = NewStaticAuthManager (cf_JwtSecret conf)
                [cf_QuotaAuthorityDid conf \<mapsto> cf_QuotaAuthorityPublicKey conf] ''did:example:pkv'',
              srv_unitPrice = 1\<rparr>)"

text \<open>
  \<open>wUnreadable\<close> is the error of the connect framework for a body that is not the message of its
  procedure, \<open>wValidate\<close> the verdict of \<open>protovalidate\<close>.
\<close>

record 'r world =
  wL :: libs
  wJ :: jwt_lib
  wR :: "'r redis_client"
  wSort :: "AdWithScore list \<Rightarrow> AdWithScore list"
  wValidate :: "message \<Rightarrow> go_error option"
  wUnreadable :: "AnyRequest \<Rightarrow> go_error"

fun lift_resp :: "('a \<Rightarrow> response) \<Rightarrow> 'a result \<times> 'r \<Rightarrow> response result \<times> 'r" where
  "lift_resp f (Ok x, s) = (Ok (f x), s)"
| "lift_resp f (Err e, s) = (Err e, s)"
| "lift_resp f (Panic m, s) = (Panic m, s)"

text \<open>
  The methods of the service, as the interface \<open>KvStoreServiceHandler\<close> lists them. Each takes the time
  of the call, its message and the state. An empty response message is \<open>unit\<close>.
\<close>

type_synonym ('a, 'b, 'r) rpc = "int \<Rightarrow> 'a \<Rightarrow> 'r \<Rightarrow> 'b result \<times> 'r"

record 'r KvStoreServiceHandler =
  hCreateValue :: "(CreateValueRequest, CreateValueResponse, 'r) rpc"
  hCreateStreamValue :: "(CreateStreamValueRequest, CreateStreamValueResponse, 'r) rpc"
  hGetValue :: "(GetValueRequest, GetValueResponse, 'r) rpc"
  hGetStreamValue :: "(GetStreamValueRequest, GetStreamValueResponse, 'r) rpc"
  hListStreamValues :: "(ListStreamValuesRequest, ListStreamValuesResponse, 'r) rpc"
  hProlongValue :: "(ProlongValueRequest, ProlongValueResponse, 'r) rpc"
  hSearchCid :: "(SearchCidRequest, SearchCidResponse, 'r) rpc"
  hSearchInstance :: "(SearchInstanceRequest, SearchInstanceResponse, 'r) rpc"
  hCreateSession :: "(CreateSessionRequest, CreateSessionResponse, 'r) rpc"
  hRegisterInstance :: "(RegisterInstanceRequest, unit, 'r) rpc"
  hPing :: "(PingRequest, PingResponse, 'r) rpc"
  hDelegatedRouting :: "(DelegatedRoutingRequest, DelegatedRoutingResponse, 'r) rpc"

text \<open>\<open>Server\<close> implements the interface.\<close>

definition server_methods :: "'r world \<Rightarrow> Server \<Rightarrow> string \<Rightarrow> 'r KvStoreServiceHandler" where
  "server_methods W srv uuid = \<lparr>
     hCreateValue = (\<lambda>now. CreateValue (wL W) (wR W)),
     hCreateStreamValue = CreateStreamValue (wL W) (wR W),
     hGetValue = (\<lambda>now. GetValue (wL W) (wR W)),
     hGetStreamValue = GetStreamValue (wR W) (VerifyAndParseJwt (wJ W) (srv_authmanager srv)),
     hListStreamValues = ListStreamValues (wR W) (VerifyAndParseJwt (wJ W) (srv_authmanager srv)),
     hProlongValue = (\<lambda>now. ProlongValue (wL W) (wR W)),
     hSearchCid = (\<lambda>now. SearchCid (wL W) (wR W) (wSort W)),
     hSearchInstance = (\<lambda>now. SearchInstance (wL W) (wR W)),
     hCreateSession = CreateSession (wJ W) (srv_config srv) (VerifyAndParseJwt (wJ W) (srv_authmanager srv))
       (sm_CreateSession (wL W) (wR W) (srv_sessionManager srv)) uuid,
     hRegisterInstance = RegisterInstance (wL W) (wR W),
     hPing = (\<lambda>now. Ping),
     hDelegatedRouting = (\<lambda>now. DelegatedRouting (wL W) (wR W) (wSort W))\<rparr>"

text \<open>\<open>UnimplementedKvStoreServiceHandler\<close> answers every method with an error.\<close>

definition unimplemented :: "string \<Rightarrow> ('a, 'b, 'r) rpc" where
  "unimplemented name now req s = (Err (Status Unimplemented (''kvstore.v1.KvStoreService.'' @ name @ '' is not implemented'')), s)"

definition UnimplementedKvStoreServiceHandler :: "'r KvStoreServiceHandler" where
  "UnimplementedKvStoreServiceHandler = \<lparr>
     hCreateValue = unimplemented ''CreateValue'',
     hCreateStreamValue = unimplemented ''CreateStreamValue'',
     hGetValue = unimplemented ''GetValue'',
     hGetStreamValue = unimplemented ''GetStreamValue'',
     hListStreamValues = unimplemented ''ListStreamValues'',
     hProlongValue = unimplemented ''ProlongValue'',
     hSearchCid = unimplemented ''SearchCid'',
     hSearchInstance = unimplemented ''SearchInstance'',
     hCreateSession = unimplemented ''CreateSession'',
     hRegisterInstance = unimplemented ''RegisterInstance'',
     hPing = unimplemented ''Ping'',
     hDelegatedRouting = unimplemented ''DelegatedRouting''\<rparr>"

text \<open>
  The handler of one procedure (\<open>connect.NewUnaryHandler\<close>): the framework reads the body as the
  message of the procedure, answers itself when that fails, and otherwise runs the interceptors
  around the method with a fresh context.
\<close>

definition unary_handler ::
    "('r unary \<Rightarrow> 'r unary) \<Rightarrow> (AnyRequest \<Rightarrow> go_error) \<Rightarrow> (message \<Rightarrow> 'a option) \<Rightarrow> ('b \<Rightarrow> response) \<Rightarrow>
     ('a, 'b, 'r) rpc \<Rightarrow> int \<Rightarrow> AnyRequest \<Rightarrow> 'r \<Rightarrow> response result \<times> 'r" where
  "unary_handler interceptors unreadable body wrap method now req s =
     (case body (AnyMsg req) of
        None \<Rightarrow> (Err (unreadable req), s)
      | Some m \<Rightarrow> interceptors (\<lambda>now ctxSession req s. lift_resp wrap (method now m s)) now None req s)"

definition body_CreateValue :: "message \<Rightarrow> CreateValueRequest option" where
  "body_CreateValue msg = (case msg of MCreateValue m \<Rightarrow> Some m | _ \<Rightarrow> None)"
definition body_CreateStreamValue :: "message \<Rightarrow> CreateStreamValueRequest option" where
  "body_CreateStreamValue msg = (case msg of MCreateStreamValue m \<Rightarrow> Some m | _ \<Rightarrow> None)"
definition body_GetValue :: "message \<Rightarrow> GetValueRequest option" where
  "body_GetValue msg = (case msg of MGetValue m \<Rightarrow> Some m | _ \<Rightarrow> None)"
definition body_GetStreamValue :: "message \<Rightarrow> GetStreamValueRequest option" where
  "body_GetStreamValue msg = (case msg of MGetStreamValue m \<Rightarrow> Some m | _ \<Rightarrow> None)"
definition body_ListStreamValues :: "message \<Rightarrow> ListStreamValuesRequest option" where
  "body_ListStreamValues msg = (case msg of MListStreamValues m \<Rightarrow> Some m | _ \<Rightarrow> None)"
definition body_ProlongValue :: "message \<Rightarrow> ProlongValueRequest option" where
  "body_ProlongValue msg = (case msg of MProlongValue m \<Rightarrow> Some m | _ \<Rightarrow> None)"
definition body_SearchCid :: "message \<Rightarrow> SearchCidRequest option" where
  "body_SearchCid msg = (case msg of MSearchCid m \<Rightarrow> Some m | _ \<Rightarrow> None)"
definition body_SearchInstance :: "message \<Rightarrow> SearchInstanceRequest option" where
  "body_SearchInstance msg = (case msg of MSearchInstance m \<Rightarrow> Some m | _ \<Rightarrow> None)"
definition body_CreateSession :: "message \<Rightarrow> CreateSessionRequest option" where
  "body_CreateSession msg = (case msg of MCreateSession m \<Rightarrow> Some m | _ \<Rightarrow> None)"
definition body_RegisterInstance :: "message \<Rightarrow> RegisterInstanceRequest option" where
  "body_RegisterInstance msg = (case msg of MRegisterInstance m \<Rightarrow> Some m | _ \<Rightarrow> None)"
definition body_Ping :: "message \<Rightarrow> PingRequest option" where
  "body_Ping msg = (case msg of MPing m \<Rightarrow> Some m | _ \<Rightarrow> None)"
definition body_DelegatedRouting :: "message \<Rightarrow> DelegatedRoutingRequest option" where
  "body_DelegatedRouting msg = (case msg of MDelegatedRouting m \<Rightarrow> Some m | _ \<Rightarrow> None)"

text \<open>The router: the path selects the handler.\<close>

definition NewKvStoreServiceHandler ::
    "('r unary \<Rightarrow> 'r unary) \<Rightarrow> (AnyRequest \<Rightarrow> go_error) \<Rightarrow> 'r KvStoreServiceHandler \<Rightarrow> int \<Rightarrow> AnyRequest \<Rightarrow> 'r \<Rightarrow>
     response result \<times> 'r" where
  "NewKvStoreServiceHandler interceptors unreadable svc now req s =
     (let path = Procedure req in
      if path = CreateValueProcedure then unary_handler interceptors unreadable body_CreateValue RCreateValue (hCreateValue svc) now req s
      else if path = CreateStreamValueProcedure then unary_handler interceptors unreadable body_CreateStreamValue RCreateStreamValue (hCreateStreamValue svc) now req s
      else if path = GetValueProcedure then unary_handler interceptors unreadable body_GetValue RGetValue (hGetValue svc) now req s
      else if path = GetStreamValueProcedure then unary_handler interceptors unreadable body_GetStreamValue RGetStreamValue (hGetStreamValue svc) now req s
      else if path = ListStreamValuesProcedure then unary_handler interceptors unreadable body_ListStreamValues RListStreamValues (hListStreamValues svc) now req s
      else if path = ProlongValueProcedure then unary_handler interceptors unreadable body_ProlongValue RProlongValue (hProlongValue svc) now req s
      else if path = SearchCidProcedure then unary_handler interceptors unreadable body_SearchCid RSearchCid (hSearchCid svc) now req s
      else if path = SearchInstanceProcedure then unary_handler interceptors unreadable body_SearchInstance RSearchInstance (hSearchInstance svc) now req s
      else if path = CreateSessionProcedure then unary_handler interceptors unreadable body_CreateSession RCreateSession (hCreateSession svc) now req s
      else if path = RegisterInstanceProcedure then unary_handler interceptors unreadable body_RegisterInstance (\<lambda>_. RRegisterInstance) (hRegisterInstance svc) now req s
      else if path = PingProcedure then unary_handler interceptors unreadable body_Ping RPing (hPing svc) now req s
      else if path = DelegatedRoutingProcedure then unary_handler interceptors unreadable body_DelegatedRouting RDelegatedRouting (hDelegatedRouting svc) now req s
      else (Err (LibErr ''404 page not found''), s))"

text \<open>\<open>main\<close>: the interceptors in their order, the first outermost.\<close>

definition interceptors :: "'r world \<Rightarrow> Server \<Rightarrow> 'r unary \<Rightarrow> 'r unary" where
  "interceptors W srv method =
     (if cf_DisableAuth (srv_config srv) then NewConnectValidationInterceptor (wValidate W) method
      else NewConnectUnarySessionInterceptor (sm_DeductSessionBalance (wR W)) GetPrice
             (VerifyAndParseJwt (wJ W) (srv_authmanager srv))
             (NewConnectValidationInterceptor (wValidate W) method))"

definition serve :: "'r world \<Rightarrow> Server \<Rightarrow> string \<Rightarrow> int \<Rightarrow> AnyRequest \<Rightarrow> 'r \<Rightarrow> response result \<times> 'r" where
  "serve W srv uuid now req s =
     NewKvStoreServiceHandler (interceptors W srv) (wUnreadable W) (server_methods W srv uuid) now req s"

subsection \<open>The service by message\<close>

text \<open>
  What the router does, said from the side of the message: the request's path must be the procedure
  of its message, and then the interceptors run around the method that takes the message.
\<close>

definition svc :: "'r world \<Rightarrow> Server \<Rightarrow> string \<Rightarrow> 'r unary" where
  "svc W srv uuid now ctxSession req s =
     (case AnyMsg req of
        MCreateValue m \<Rightarrow> lift_resp RCreateValue (CreateValue (wL W) (wR W) m s)
      | MCreateStreamValue m \<Rightarrow> lift_resp RCreateStreamValue (CreateStreamValue (wL W) (wR W) now m s)
      | MGetValue m \<Rightarrow> lift_resp RGetValue (GetValue (wL W) (wR W) m s)
      | MGetStreamValue m \<Rightarrow>
          lift_resp RGetStreamValue (GetStreamValue (wR W) (VerifyAndParseJwt (wJ W) (srv_authmanager srv)) now m s)
      | MListStreamValues m \<Rightarrow>
          lift_resp RListStreamValues (ListStreamValues (wR W) (VerifyAndParseJwt (wJ W) (srv_authmanager srv)) now m s)
      | MProlongValue m \<Rightarrow> lift_resp RProlongValue (ProlongValue (wL W) (wR W) m s)
      | MSearchCid m \<Rightarrow> lift_resp RSearchCid (SearchCid (wL W) (wR W) (wSort W) m s)
      | MSearchInstance m \<Rightarrow> lift_resp RSearchInstance (SearchInstance (wL W) (wR W) m s)
      | MCreateSession m \<Rightarrow>
          lift_resp RCreateSession
            (CreateSession (wJ W) (srv_config srv) (VerifyAndParseJwt (wJ W) (srv_authmanager srv))
               (sm_CreateSession (wL W) (wR W) (srv_sessionManager srv)) uuid now m s)
      | MRegisterInstance m \<Rightarrow> lift_resp (\<lambda>_. RRegisterInstance) (RegisterInstance (wL W) (wR W) now m s)
      | MPing m \<Rightarrow> lift_resp RPing (Ping m s)
      | MDelegatedRouting m \<Rightarrow> lift_resp RDelegatedRouting (DelegatedRouting (wL W) (wR W) (wSort W) m s))"

fun request_procedure :: "message \<Rightarrow> string" where
  "request_procedure (MCreateValue _) = CreateValueProcedure"
| "request_procedure (MCreateStreamValue _) = CreateStreamValueProcedure"
| "request_procedure (MGetValue _) = GetValueProcedure"
| "request_procedure (MGetStreamValue _) = GetStreamValueProcedure"
| "request_procedure (MListStreamValues _) = ListStreamValuesProcedure"
| "request_procedure (MProlongValue _) = ProlongValueProcedure"
| "request_procedure (MSearchCid _) = SearchCidProcedure"
| "request_procedure (MSearchInstance _) = SearchInstanceProcedure"
| "request_procedure (MCreateSession _) = CreateSessionProcedure"
| "request_procedure (MRegisterInstance _) = RegisterInstanceProcedure"
| "request_procedure (MPing _) = PingProcedure"
| "request_procedure (MDelegatedRouting _) = DelegatedRoutingProcedure"

definition procedures :: "string list" where
  "procedures = [CreateValueProcedure, CreateStreamValueProcedure, GetValueProcedure, GetStreamValueProcedure,
     ListStreamValuesProcedure, ProlongValueProcedure, SearchCidProcedure, SearchInstanceProcedure,
     CreateSessionProcedure, RegisterInstanceProcedure, PingProcedure, DelegatedRoutingProcedure]"

lemmas body_defs =
  body_CreateValue_def body_CreateStreamValue_def body_GetValue_def body_GetStreamValue_def
  body_ListStreamValues_def body_ProlongValue_def body_SearchCid_def body_SearchInstance_def
  body_CreateSession_def body_RegisterInstance_def body_Ping_def body_DelegatedRouting_def

lemma interceptors_cong:
  assumes "\<And>now cs s. f now cs req s = g now cs req s"
  shows "interceptors W srv f now cs req s = interceptors W srv g now cs req s"
proof -
  have "NewConnectValidationInterceptor validate f now cs req s = NewConnectValidationInterceptor validate g now cs req s"
    for validate now cs s
    using assms by (simp add: NewConnectValidationInterceptor_def split: option.split)
  then show ?thesis
    by (auto simp: interceptors_def interceptor_plan split: sum.split result.split prod.split)
qed

text \<open>The procedures are distinct, so comparing two of them is comparing their places in the list.\<close>

lemma distinct_procedures: "distinct procedures"
  by (simp add: procedures_def procedure_defs)

lemma procedure_place:
  "CreateValueProcedure = procedures ! 0" "CreateStreamValueProcedure = procedures ! 1" "GetValueProcedure = procedures ! 2"
  "GetStreamValueProcedure = procedures ! 3" "ListStreamValuesProcedure = procedures ! 4" "ProlongValueProcedure = procedures ! 5"
  "SearchCidProcedure = procedures ! 6" "SearchInstanceProcedure = procedures ! 7" "CreateSessionProcedure = procedures ! 8"
  "RegisterInstanceProcedure = procedures ! 9" "PingProcedure = procedures ! 10" "DelegatedRoutingProcedure = procedures ! 11"
  by (simp_all add: procedures_def)

lemma length_procedures: "length procedures = 12"
  by (simp add: procedures_def)

lemma procedure_eq: "i < 12 \<Longrightarrow> j < 12 \<Longrightarrow> procedures ! i = procedures ! j \<longleftrightarrow> i = j"
  using nth_eq_iff_index_eq [OF distinct_procedures] by (simp add: length_procedures)

lemma request_procedure_in [simp]: "request_procedure m \<in> set procedures"
  by (cases m) (simp_all add: procedures_def)

lemma serve_routes:
  assumes "Procedure req = request_procedure (AnyMsg req)"
  shows "serve W srv uuid now req s = interceptors W srv (svc W srv uuid) now None req s"
  using assms
  by (cases "AnyMsg req")
     (simp_all add: serve_def NewKvStoreServiceHandler_def unary_handler_def body_defs procedure_place procedure_eq,
      (rule interceptors_cong, simp add: svc_def server_methods_def)+)

lemma serve_unreadable:
  assumes "Procedure req \<in> set procedures" and "Procedure req \<noteq> request_procedure (AnyMsg req)"
  shows "serve W srv uuid now req s = (Err (wUnreadable W req), s)"
proof -
  obtain i where i: "i < 12" "Procedure req = procedures ! i"
    using assms(1) unfolding in_set_conv_nth length_procedures by metis
  from i(1) have "i = 0 \<or> i = 1 \<or> i = 2 \<or> i = 3 \<or> i = 4 \<or> i = 5 \<or> i = 6 \<or> i = 7 \<or> i = 8 \<or> i = 9 \<or> i = 10 \<or> i = 11"
    by arith
  with i(2) assms(2) show ?thesis
    by (cases "AnyMsg req")
       (auto simp: serve_def NewKvStoreServiceHandler_def unary_handler_def body_defs procedure_place procedure_eq)
qed

lemma serve_not_found:
  assumes "Procedure req \<notin> set procedures"
  shows "serve W srv uuid now req s = (Err (LibErr ''404 page not found''), s)"
  using assms by (simp add: serve_def NewKvStoreServiceHandler_def procedures_def)

lemma serve_by_message:
  "serve W srv uuid now req s =
     (if Procedure req \<notin> set procedures then (Err (LibErr ''404 page not found''), s)
      else if Procedure req \<noteq> request_procedure (AnyMsg req) then (Err (wUnreadable W req), s)
      else interceptors W srv (svc W srv uuid) now None req s)"
  using serve_routes serve_unreadable serve_not_found by metis

lemma snd_lift_resp [simp]: "snd (lift_resp f p) = snd p"
  by (cases p; cases "fst p") auto

subsection \<open>What a handler leaves as it is\<close>

text \<open>
  A step that keeps every session key as it is and the two invariants of the other keys. All
  handlers but \<open>CreateSession\<close> are such steps, as long as streams are created under \<open>accounts/\<close>
  and values are prolonged under \<open>values/\<close>.
\<close>

definition quiet :: "libs \<Rightarrow> ('r \<Rightarrow> keyspace) \<Rightarrow> ('r \<Rightarrow> bool) \<Rightarrow> 'r \<Rightarrow> 'r \<Rightarrow> bool" where
  "quiet L view up s s' \<longleftrightarrow>
     up s' \<and> (\<forall>i. view s' (session_key i) = view s (session_key i)) \<and>
     (values_intact L (view s) \<longrightarrow> values_intact L (view s')) \<and> (index_wf (view s) \<longrightarrow> index_wf (view s'))"

fun well_named :: "message \<Rightarrow> bool" where
  "well_named (MCreateStreamValue m) = HasPrefix (csv_Parent m) ''accounts/''"
| "well_named (MProlongValue m) = HasPrefix (pv_Name m) ''values/''"
| "well_named _ = True"

lemma quiet_same: "up s' \<Longrightarrow> view s' = view s \<Longrightarrow> quiet L view up s s'"
  by (simp add: quiet_def)

lemma session_key_other [simp]:
  "session_key i \<noteq> value_key c" "value_key c \<noteq> session_key i" "\<not> index_key (session_key i)" "\<not> HasPrefix (session_key i) ''accounts/''"
  "\<not> HasPrefix (session_key i) ''values/''"
  by (simp_all add: session_key_def value_key_def index_key_def)

lemma key_typed_other:
  assumes "\<not> index_key k"
  shows "key_typed k x"
proof -
  have "k \<noteq> vsvc_cid_key h" "k \<noteq> cid_vsvc_key h" "k \<noteq> vsvc_instance_key h" for h using assms by auto
  then show ?thesis by (simp add: key_typed_def)
qed

lemma accounts_key:
  assumes "HasPrefix k ''accounts/''"
  shows "\<not> index_key k" and "k \<noteq> value_key c" and "k \<noteq> session_key i"
  using assms by (auto simp: index_key_def value_key_def session_key_def HasPrefix_iff)

context redis_contract
begin

lemma quiet_CreateValue:
  assumes u: "up s"
  shows "quiet L view up s (snd (CreateValue L R m s))"
proof -
  let ?s = "snd (CreateValue L R m s)"
  have c: "view ?s k = view s k \<or> (\<exists>c e. k = value_key c \<and> view ?s k = Some (RStr (cv_Value m), e))" for k
    using CreateValue_other [OF u, of L m] by blast
  have "index_wf (view ?s)" if "index_wf (view s)"
  proof (rule index_wf_update [OF that])
    fix k x e assume "view ?s k = Some (x, e)"
    with c [of k] show "(\<exists>e'. view s k = Some (x, e')) \<or> key_typed k x"
      by (elim disjE exE conjE) (auto intro: key_typed_other)
  qed
  moreover have "view ?s (session_key i) = view s (session_key i)" for i
    using c [of "session_key i"] by auto
  ultimately show ?thesis
    using CreateValue_other [OF u, of L m] CreateValue_intact [OF u] by (simp add: quiet_def)
qed

lemma quiet_ProlongValue:
  assumes u: "up s" and n: "HasPrefix (pv_Name m) ''values/''"
  shows "quiet L view up s (snd (ProlongValue L R m s))"
proof -
  let ?s = "snd (ProlongValue L R m s)"
  note o = ProlongValue_other [OF u, of L m]
  have "index_wf (view ?s)" if "index_wf (view s)"
    using o by (intro index_wf_update [OF that] disjI1) blast
  moreover have "view ?s (session_key i) = view s (session_key i)" for i
    using o n session_key_other(5) [of i] by metis
  ultimately show ?thesis using o ProlongValue_intact [OF u] by (simp add: quiet_def)
qed

lemma quiet_CreateStreamValue:
  assumes u: "up s" and n: "HasPrefix (csv_Parent m) ''accounts/''"
  shows "quiet L view up s (snd (CreateStreamValue L R now m s))"
proof -
  let ?s = "snd (CreateStreamValue L R now m s)"
  note o = CreateStreamValue_other [OF u, of L now m]
  note k = accounts_key [OF n]
  have f: "view ?s k = view s k" if "k \<noteq> csv_Parent m" for k using o that by blast
  have "index_wf (view ?s)" if w: "index_wf (view s)"
  proof (rule index_wf_update [OF w])
    fix k' x e assume "view ?s k' = Some (x, e)"
    then show "(\<exists>e'. view s k' = Some (x, e')) \<or> key_typed k' x"
      using f [of k'] key_typed_other [OF k(1)] by (cases "k' = csv_Parent m") auto
  qed
  moreover have "values_intact L (view ?s)" if w: "values_intact L (view s)"
    using f k(2) by (intro values_intactI [OF w] disjI1) metis
  ultimately show ?thesis using o f k(3) by (metis quiet_def)
qed

lemma quiet_RegisterInstance:
  assumes u: "up s"
  shows "quiet L view up s (snd (RegisterInstance L R now m s))"
proof -
  let ?r = "Register L R now (ri_Advertisement m) s"
  have r: "quiet L view up s (snd ?r)"
  proof -
    note f = Register_frame [OF u, of L now "ri_Advertisement m"]
    have "values_intact L (view (snd ?r))" if w: "values_intact L (view s)"
      using f by (intro values_intactI [OF w] disjI1) (auto simp: only_index_def)
    moreover have "index_wf (view (snd ?r))" if "index_wf (view s)"
      using Register_typed [of s L now "ri_Advertisement m"] u that by (simp add: typed_state_def)
    ultimately show ?thesis using f by (simp add: quiet_def only_index_def)
  qed
  moreover have "quiet L view up s s" using u by (simp add: quiet_def)
  ultimately show ?thesis
    by (auto simp: RegisterInstance_def NewServeAllFileServing_def case_prod_beta split: sum.split)
qed

lemma reads_streams:
  assumes "up s"
  shows "up (snd (ListStreamValues R verify now m s))" "view (snd (ListStreamValues R verify now m s)) = view s"
    and "up (snd (GetStreamValue R verify now m' s))" "view (snd (GetStreamValue R verify now m' s)) = view s"
  using assms
  by (auto simp: ListStreamValues_def GetStreamValue_def case_prod_beta Let_def split: sum.split result.split)

lemma reads_searches:
  assumes u: "up s"
  shows "up (snd (SearchInstance L R m s))" "view (snd (SearchInstance L R m s)) = view s"
    and "up (snd (doSearchCid L R f m' s))" "view (snd (doSearchCid L R f m' s)) = view s"
proof -
  show "up (snd (SearchInstance L R m s))" "view (snd (SearchInstance L R m s)) = view s"
    using searchInstances_reads [OF u] by (auto simp: SearchInstance_def case_prod_beta split: result.split)
  have h: "up (snd (rHScan R k n s))" "view (snd (rHScan R k n s)) = view s" for k n using u by simp_all
  have c: "up (snd (scanLoop L R err items [] (snd (rHScan R k n s))))"
    "view (snd (scanLoop L R err items [] (snd (rHScan R k n s)))) = view s" for err items k n
    using scanLoop_reads [OF h(1)] h(2) by simp_all
  have b: "up (snd (batchLoop L R vs [] (snd (scanLoop L R err items [] (snd (rHScan R k n s))))))"
    "view (snd (batchLoop L R vs [] (snd (scanLoop L R err items [] (snd (rHScan R k n s)))))) = view s" for vs err items k n
    using batchLoop_reads [OF c(1)] c(2) by simp_all
  show "up (snd (doSearchCid L R f m' s))" "view (snd (doSearchCid L R f m' s)) = view s"
    using u b c by (auto simp: doSearchCid_def case_prod_beta split: sum.split result.split)
qed

end

end
