(* ===== verification/Service.thy ===== *)
theory Service
  imports Server
begin

section \<open>Runs of the service\<close>

text \<open>
  A run is a sequence of requests, each with the answer the service gave, with time passing
  between them. This theory relates a run to the session calls its requests make and so to the
  ledger, and shows the invariant that all parts of the keyspace keep.
\<close>

subsection \<open>The session calls of a request\<close>

text \<open>The grant of a quota token that \<open>CreateSession\<close> accepts: its \<open>jti\<close>, quantity and lifetime.\<close>

definition quota_grant ::
    "(string \<Rightarrow> jwt_claims \<Rightarrow> bool \<Rightarrow> int \<Rightarrow> jwt_claims result) \<Rightarrow> int \<Rightarrow> CreateSessionRequest \<Rightarrow> (string \<times> int \<times> int) option" where
  "quota_grant verify now m =
     (case verify (cs_Jwt m) (CreateSessionClaims empty_create_claims) False now of
        Ok (CreateSessionClaims c) \<Rightarrow>
          (case cj_SessionJwtClaims c of
             None \<Rightarrow> None
           | Some sc \<Rightarrow>
               (case sj_RegisteredClaims sc of
                  None \<Rightarrow> None
                | Some r \<Rightarrow>
                    (case rc_ExpiresAt r of
                       None \<Rightarrow> None
                     | Some e \<Rightarrow>
                         if sj_Usage sc = JWT_USAGE_CREATE_SESSION \<and> 0 < cj_Quantity c \<and> now \<le> e
                         then Some (rc_ID r, cj_Quantity c, e - now) else None)))
      | _ \<Rightarrow> None)"

lemma CreateSession_state:
  "snd (CreateSession J conf verify create uuid now m s) =
     (case quota_grant verify now m of None \<Rightarrow> s | Some (jti, q, ttl) \<Rightarrow> snd (create jti q ttl s))"
  by (auto simp: CreateSession_def quota_grant_def GetExpirationTime_def
      split: result.split jwt_claims.split option.split prod.split sum.split)

definition login_calls :: "'r world \<Rightarrow> Server \<Rightarrow> int \<Rightarrow> message \<Rightarrow> session_call list" where
  "login_calls W srv now msg =
     (case msg of
        MCreateSession m \<Rightarrow>
          if wValidate W msg = None
          then (case quota_grant (VerifyAndParseJwt (wJ W) (srv_authmanager srv)) now m of
                  None \<Rightarrow> [] | Some (jti, q, ttl) \<Rightarrow> [CCreate jti q ttl])
          else []
      | _ \<Rightarrow> [])"

definition routed :: "AnyRequest \<Rightarrow> bool" where
  "routed req \<longleftrightarrow> Procedure req \<in> set procedures \<and> Procedure req = request_procedure (AnyMsg req)"

definition open_door :: "Server \<Rightarrow> AnyRequest \<Rightarrow> bool" where
  "open_door srv req \<longleftrightarrow> cf_DisableAuth (srv_config srv) \<or> free_of_charge req"

definition plan :: "'r world \<Rightarrow> Server \<Rightarrow> int \<Rightarrow> AnyRequest \<Rightarrow> response result + string \<times> int" where
  "plan W srv = gate_plan GetPrice (VerifyAndParseJwt (wJ W) (srv_authmanager srv))"

definition request_calls :: "'r world \<Rightarrow> Server \<Rightarrow> int \<Rightarrow> AnyRequest \<Rightarrow> session_call list" where
  "request_calls W srv now req =
     (if \<not> routed req then []
      else if open_door srv req then login_calls W srv now (AnyMsg req)
      else (case plan W srv now req of Inl _ \<Rightarrow> [] | Inr (i, p) \<Rightarrow> [CDeduct i p]))"

text \<open>The service, decision by decision.\<close>

lemma serve_plan:
  "serve W srv uuid now req s =
     (if \<not> routed req then
        (Err (if Procedure req \<in> set procedures then wUnreadable W req else LibErr ''404 page not found''), s)
      else if open_door srv req then NewConnectValidationInterceptor (wValidate W) (svc W srv uuid) now None req s
      else
        (case plan W srv now req of
           Inl r \<Rightarrow> (r, s)
         | Inr (i, p) \<Rightarrow>
             (case sm_DeductSessionBalance (wR W) i p s of
                (Panic m, s1) \<Rightarrow> (Panic m, s1)
              | (Err e, s1) \<Rightarrow> (Err (Status Internal ''failed to deduct: %s''), s1)
              | (Ok x, s1) \<Rightarrow>
                  NewConnectValidationInterceptor (wValidate W) (svc W srv uuid) now (Some x) req s1)))"
  by (auto simp: serve_by_message interceptors_def routed_def open_door_def plan_def interceptor_plan)

lemma validated_state:
  "snd (NewConnectValidationInterceptor validate method now cs req s) =
     (if validate (AnyMsg req) = None then snd (method now cs req s) else s)"
  by (auto simp: NewConnectValidationInterceptor_def protoValidation_def split: option.split)

lemma charged_not_login: "routed req \<Longrightarrow> \<not> open_door srv req \<Longrightarrow> AnyMsg req \<noteq> MCreateSession m"
  by (auto simp: routed_def open_door_def free_of_charge_def skipAuth_def)

subsection \<open>The invariant\<close>

text \<open>Session keys are created without an expiry and nothing gives them one.\<close>

definition sessions_permanent :: "keyspace \<Rightarrow> bool" where
  "sessions_permanent ks \<longleftrightarrow> (\<forall>i x e. ks (session_key i) = Some (x, e) \<longrightarrow> e = None)"

definition service_inv :: "libs \<Rightarrow> ('r \<Rightarrow> keyspace) \<Rightarrow> ('r \<Rightarrow> bool) \<Rightarrow> 'r \<Rightarrow> bool" where
  "service_inv L view up s \<longleftrightarrow>
     sessions_wf view up s \<and> sessions_permanent (view s) \<and> values_intact L (view s) \<and> index_wf (view s)"

lemma sessions_permanentD: "sessions_permanent ks \<Longrightarrow> ks (session_key i) = Some (x, e) \<Longrightarrow> e = None"
  by (auto simp: sessions_permanent_def)

text \<open>A session call touches session keys only, and gives none an expiry.\<close>

definition sessions_only :: "('r \<Rightarrow> keyspace) \<Rightarrow> 'r \<Rightarrow> 'r \<Rightarrow> bool" where
  "sessions_only view s s' \<longleftrightarrow>
     (\<forall>k. (\<forall>i. k \<noteq> session_key i) \<longrightarrow> view s' k = view s k) \<and>
     (sessions_permanent (view s) \<longrightarrow> sessions_permanent (view s'))"

lemma sessions_only_update:
  assumes "view s' = view s \<or> (\<exists>x. view s' = (view s)(session_key i \<mapsto> (x, None)))"
  shows "sessions_only view s s'"
  using assms by (auto simp: sessions_only_def sessions_permanent_def split: if_splits)

lemma quiet_session_led: "quiet L view up s s' \<Longrightarrow> session_led view s' = session_led view s"
  by (rule ext) (simp add: quiet_def session_led_def)

lemma quiet_inv: "quiet L view up s s' \<Longrightarrow> service_inv L view up s \<Longrightarrow> service_inv L view up s'"
  by (simp add: quiet_def service_inv_def sessions_wf_def sessions_permanent_def)

lemma sessions_only_inv:
  assumes o: "sessions_only view s s'" and w: "sessions_wf view up s'" and i: "service_inv L view up s"
  shows "service_inv L view up s'"
proof -
  have k: "view s' k = view s k" if "\<And>i. k \<noteq> session_key i" for k
    using o that by (auto simp: sessions_only_def)
  have "values_intact L (view s')"
    using i k by (auto simp: service_inv_def intro!: values_intactI [where ks = "view s"])
  moreover have "index_wf (view s')"
  proof (rule index_wf_update [of "view s"])
    show "index_wf (view s)" using i by (simp add: service_inv_def)
    fix q x e assume x: "view s' q = Some (x, e)"
    show "(\<exists>e'. view s q = Some (x, e')) \<or> key_typed q x"
    proof (cases "\<exists>i. q = session_key i")
      case True
      then show ?thesis by (auto intro: key_typed_other)
    next
      case False
      then have "view s' q = view s q" using k [of q] by blast
      with x show ?thesis by simp
    qed
  qed
  ultimately show ?thesis using o w i by (simp add: service_inv_def sessions_only_def)
qed

lemma elapse_session:
  assumes "elapse view clock up s s'" and "service_inv L view up s"
  shows "view s' (session_key i) = view s (session_key i)"
proof (cases "view s (session_key i)")
  case None
  with assms(1) show ?thesis by (simp add: elapse_def purge_None)
next
  case (Some p)
  obtain x e where p: "p = (x, e)" by (cases p)
  obtain b where x: "x = RStr (itoa b)"
    using assms(2) Some p by (auto simp: service_inv_def sessions_wf_def)
  have "e = None" using sessions_permanentD assms(2) Some p by (auto simp: service_inv_def)
  with Some p x have "purge t (view s) (session_key i) = Some (RStr (itoa b), None)" for t
    unfolding purge_str by (simp add: unexpired_def)
  with Some p x \<open>e = None\<close> assms(1) show ?thesis by (simp add: elapse_def)
qed

lemma elapse_inv:
  assumes e: "elapse view clock up s s'" and i: "service_inv L view up s"
  shows "service_inv L view up s'" and "session_led view s' = session_led view s"
proof -
  have "quiet L view up s s'"
    using e elapse_session [OF e i] values_intact_purge index_wf_purge by (simp add: quiet_def elapse_def)
  then show "service_inv L view up s'" "session_led view s' = session_led view s"
    using i by (auto intro: quiet_inv quiet_session_led)
qed

context redis_contract
begin

lemma setnx_sessions:
  assumes "up s"
  shows "sessions_only view s (snd (rSetNXGet R (session_key i) v s))"
proof (cases "view s (session_key i)")
  case None
  with setnx_none [OF assms None, of v] show ?thesis by (intro sessions_only_update) blast
next
  case (Some p)
  then show ?thesis
    using setnx_str [OF assms, of "session_key i"] setnx_wrongtype [OF assms, of "session_key i"]
    by (cases p) (intro sessions_only_update disjI1, metis)
qed

lemma create_sessions_only:
  assumes "up s"
  shows "sessions_only view s (snd (sm_CreateSession L R m jti q ttl s))"
proof -
  have "snd (sm_CreateSession L R m jti q ttl s) =
      snd (rSetNXGet R (session_key (hashToSessionId L m jti)) (itoa q) s)"
    by (auto simp: sm_CreateSession_def Let_def split: prod.split sum.split redis_any.split)
  with setnx_sessions [OF assms] show ?thesis by simp
qed

lemma decr_sessions:
  assumes w: "sessions_wf view up s" and p: "sessions_permanent (view s)" and a: "0 < a" "in_int64 a"
  shows "sessions_only view s (snd (rDecrBy R (session_key i) a s))"
proof -
  have u: "up s" using w by (simp add: sessions_wf_def)
  show ?thesis
  proof (cases "view s (session_key i)")
    case None
    have "in_int64 (- a)" using a by (simp add: in_int64_def int64_min_def int64_max_def)
    from decr_none [OF u None this] show ?thesis by (intro sessions_only_update disjI2) blast
  next
    case (Some q)
    obtain x e where q: "q = (x, e)" by (cases q)
    obtain b where b: "in_int64 b" "view s (session_key i) = Some (RStr (itoa b), None)"
      using Some q w sessions_permanentD [OF p, of i] by (auto simp: sessions_wf_def)
    show ?thesis
      using decr_int [OF u b(2,1), of a] decr_overflow [OF u b(2,1), of a]
      by (cases "in_int64 (b - a)") (auto intro: sessions_only_update)
  qed
qed

lemma deduct_sessions_only:
  assumes w: "sessions_wf view up s" and p: "sessions_permanent (view s)" and a: "in_int64 a"
  shows "sessions_only view s (snd (sm_DeductSessionBalance R i a s))"
proof (cases "a \<le> 0")
  case True
  then show ?thesis by (simp add: sm_DeductSessionBalance_def sessions_only_def)
next
  case False
  then have "snd (sm_DeductSessionBalance R i a s) = snd (rDecrBy R (session_key i) a s)"
    by (auto simp: sm_DeductSessionBalance_def case_prod_beta split: sum.split)
  with decr_sessions [OF w p _ a] False show ?thesis by simp
qed

text \<open>The two session calls under the whole invariant.\<close>

lemma create_inv:
  assumes i: "service_inv L' view up s" and q: "in_int64 q"
  shows "service_inv L' view up (snd (sm_CreateSession L R m jti q ttl s))"
  using i create_session_refines [OF _ q, of s L m jti ttl]
  by (intro sessions_only_inv [OF create_sessions_only _ i]) (auto simp: service_inv_def sessions_wf_def)

lemma deduct_inv:
  assumes i: "service_inv L view up s" and a: "in_int64 a"
  shows "service_inv L view up (snd (sm_DeductSessionBalance R j a s))"
  using i deduct_session_refines [OF _ a, of s j]
  by (intro sessions_only_inv [OF deduct_sessions_only [OF _ _ a] _ i]) (auto simp: service_inv_def)

text \<open>Every handler but \<open>CreateSession\<close> is quiet.\<close>

lemma svc_quiet:
  assumes W: "wR W = R" and u: "up s" and n: "well_named (AnyMsg req)" and l: "\<And>m. AnyMsg req \<noteq> MCreateSession m"
  shows "quiet (wL W) view up s (snd (svc W srv uuid now cs req s))"
proof (cases "AnyMsg req")
  case (MCreateSession m)
  with l show ?thesis by blast
next
  case (MGetValue m)
  with W u GetValue_reads [OF u] show ?thesis by (simp add: svc_def quiet_same)
next
  case (MDelegatedRouting m)
  with W u reads_searches(3,4) [OF u] show ?thesis
    by (auto simp: svc_def DelegatedRouting_def case_prod_beta intro!: quiet_same split: result.split)
next
  case (MSearchCid m)
  with W u reads_searches(3,4) [OF u] show ?thesis
    by (auto simp: svc_def SearchCid_def intro!: quiet_same)
qed (use W u n in \<open>simp_all add: svc_def quiet_CreateValue quiet_CreateStreamValue quiet_ProlongValue quiet_RegisterInstance
   quiet_same reads_streams reads_searches Ping_def\<close>)

end

subsection \<open>One request\<close>

text \<open>
  The world the service runs in: a Redis and a JWT package that meet their contracts, and tokens
  whose quantity is a 64-bit integer, as the claims' field is.
\<close>

locale service_world = token_redis "wR W" view clock up "wJ W" decode verifies
  for W :: "'r world" and view clock up decode verifies +
  assumes quantities: "jwt_int64 decode"
begin

lemma grant_ok:
  assumes "quota_grant (VerifyAndParseJwt (wJ W) am) now m = Some (jti, q, ttl)"
  shows "0 < q \<and> in_int64 q"
proof -
  from assms obtain c where v: "VerifyAndParseJwt (wJ W) am (cs_Jwt m) (CreateSessionClaims empty_create_claims) False now
      = Ok (CreateSessionClaims c)" and q: "cj_Quantity c = q" "0 < q"
    by (auto simp: quota_grant_def split: result.splits jwt_claims.splits option.splits if_splits)
  obtain t where "decode (cs_Jwt m) (CreateSessionClaims empty_create_claims) = Some t" "tk_Claims t = CreateSessionClaims c"
    using verify_exchange_sound [OF jwt v] by blast
  with quantities q show ?thesis unfolding jwt_int64_def by blast
qed

lemma plan_ok: "plan W srv now req = Inr (i, p) \<Longrightarrow> in_int64 p"
  by (auto simp: plan_def gate_plan_Inr intro: GetPrice_in_int64)

lemma request_calls_ok: "list_all call_ok (request_calls W srv now req)"
  by (auto simp: request_calls_def login_calls_def split: message.split option.split sum.split
      dest!: grant_ok plan_ok)

text \<open>The state after a handler behind the validation interceptor.\<close>

lemma handler_effect:
  fixes srv :: Server and uuid :: string and now :: int and cs :: "Session option"
  assumes i: "service_inv (wL W) view up s" and n: "well_named (AnyMsg req)"
  defines "s' \<equiv> snd (NewConnectValidationInterceptor (wValidate W) (svc W srv uuid) now cs req s)"
    and "cs' \<equiv> login_calls W srv now (AnyMsg req)"
  shows "service_inv (wL W) view up s' \<and>
    session_led view s' = foldl (\<lambda>l e. ledger_step e l) (session_led view s)
      (map (call_event (hashToSessionId (wL W) (srv_sessionManager srv))) cs')"
proof (cases "wValidate W (AnyMsg req) = None \<and> (\<exists>m. AnyMsg req = MCreateSession m)")
  case True
  then obtain m where v: "wValidate W (AnyMsg req) = None" and m: "AnyMsg req = MCreateSession m" by blast
  let ?g = "quota_grant (VerifyAndParseJwt (wJ W) (srv_authmanager srv)) now m"
  have s': "s' = (case ?g of None \<Rightarrow> s
      | Some (jti, q, ttl) \<Rightarrow> snd (sm_CreateSession (wL W) (wR W) (srv_sessionManager srv) jti q ttl s))"
    using v m by (simp add: s'_def validated_state svc_def CreateSession_state)
  show ?thesis
  proof (cases ?g)
    case None
    with s' i v m show ?thesis by (simp add: cs'_def login_calls_def)
  next
    case (Some g)
    obtain jti q ttl where g: "g = (jti, q, ttl)" by (cases g)
    have q: "in_int64 q" using grant_ok Some g by blast
    have w: "sessions_wf view up s" using i by (simp add: service_inv_def)
    from create_inv [OF i q] create_session_refines [OF w q] Some g s' v m show ?thesis
      by (simp add: cs'_def login_calls_def)
  qed
next
  case False
  have u: "up s" using i by (simp add: service_inv_def sessions_wf_def)
  have "cs' = []" using False by (auto simp: cs'_def login_calls_def split: message.split)
  moreover have "quiet (wL W) view up s s'"
  proof (cases "wValidate W (AnyMsg req) = None")
    case v: True
    with False have "AnyMsg req \<noteq> MCreateSession m" for m by blast
    from svc_quiet [OF refl u n this] v show ?thesis by (simp add: s'_def validated_state)
  next
    case v: False
    then have "s' = s" by (simp only: s'_def validated_state if_False)
    with u show ?thesis by (simp add: quiet_same)
  qed
  ultimately show ?thesis using i by (auto intro: quiet_inv dest: quiet_session_led)
qed

text \<open>
  The state after a request, and what it cost: the ledger moves by the session calls of the
  request, and a request that is charged and answered without an error was admitted.
\<close>

lemma serve_effect:
  fixes srv :: Server
  assumes i: "service_inv (wL W) view up s" and n: "well_named (AnyMsg req)" and r: "serve W srv uuid now req s = (r, s')"
  defines "es \<equiv> map (call_event (hashToSessionId (wL W) (srv_sessionManager srv))) (request_calls W srv now req)"
  shows "service_inv (wL W) view up s' \<and> session_led view s' = foldl (\<lambda>l e. ledger_step e l) (session_led view s) es \<and>
    (is_Ok r \<longrightarrow> routed req \<longrightarrow> \<not> open_door srv req \<longrightarrow> plan W srv now req = Inr (j, p) \<longrightarrow>
       fst (ledger_charge j p (session_led view s)))"
proof (cases "routed req \<and> \<not> open_door srv req \<and> (\<exists>q. plan W srv now req = Inr q)")
  case False
  have "s' = s \<and> es = [] \<or> es = map (call_event (hashToSessionId (wL W) (srv_sessionManager srv))) (login_calls W srv now (AnyMsg req)) \<and>
      s' = snd (NewConnectValidationInterceptor (wValidate W) (svc W srv uuid) now None req s)"
    using False r by (auto simp: serve_plan es_def request_calls_def split: sum.splits if_splits)
  with i handler_effect [OF i n, of srv uuid now None] False show ?thesis by auto
next
  case True
  then obtain k a where k: "plan W srv now req = Inr (k, a)" by auto
  let ?d = "sm_DeductSessionBalance (wR W) k a s"
  have a: "in_int64 a" by (rule plan_ok [OF k])
  have es: "es = [Charge k a]" using True k by (simp add: es_def request_calls_def)
  have w: "sessions_wf view up s" using i by (simp add: service_inv_def)
  note d = deduct_session_refines [OF w a, of k] deduct_inv [OF i a, of k]
  show ?thesis
  proof (cases "fst ?d")
    case (Ok x)
    have "login_calls W srv now (AnyMsg req) = []"
      using True charged_not_login [of req srv] by (auto simp: login_calls_def split: message.split)
    with handler_effect [OF d(2) n, of srv uuid now "Some x"] Ok r True k d es show ?thesis
      by (cases ?d) (auto simp: serve_plan)
  next
    case (Err e)
    with r True k d es show ?thesis by (cases ?d) (auto simp: serve_plan)
  next
    case (Panic m)
    with r True k d es show ?thesis by (cases ?d) (auto simp: serve_plan)
  qed
qed

end

subsection \<open>Runs\<close>

datatype event = Request string int AnyRequest "response result" | Elapse

inductive service_run ::
    "'r world \<Rightarrow> Server \<Rightarrow> ('r \<Rightarrow> keyspace) \<Rightarrow> ('r \<Rightarrow> int) \<Rightarrow> ('r \<Rightarrow> bool) \<Rightarrow> 'r \<Rightarrow> event list \<Rightarrow> 'r \<Rightarrow> bool"
  for W srv view clock up where
  run_nil: "service_run W srv view clock up s [] s"
| run_request: "service_run W srv view clock up s (Request uuid now req r # es) s''"
    if "serve W srv uuid now req s = (r, s')" and "service_run W srv view clock up s' es s''"
| run_elapse: "service_run W srv view clock up s (Elapse # es) s''"
    if "elapse view clock up s s'" and "service_run W srv view clock up s' es s''"

inductive_cases run_consE: "service_run W srv view clock up s (e # es) s'"

inductive_simps run_simps:
  "service_run W srv view clock up s [] s'"
  "service_run W srv view clock up s (Request uuid now req r # es) s'"
  "service_run W srv view clock up s (Elapse # es) s'"

text \<open>The requests of a run are well named; the calls they make; what they cost a session.\<close>

fun event_named :: "event \<Rightarrow> bool" where
  "event_named (Request uuid now req r) = well_named (AnyMsg req)"
| "event_named Elapse = True"

fun event_calls :: "'r world \<Rightarrow> Server \<Rightarrow> event \<Rightarrow> session_call list" where
  "event_calls W srv (Request uuid now req r) = request_calls W srv now req"
| "event_calls W srv Elapse = []"

definition calls_of :: "'r world \<Rightarrow> Server \<Rightarrow> event list \<Rightarrow> session_call list" where
  "calls_of W srv es = concat (map (event_calls W srv) es)"

fun event_cost :: "'r world \<Rightarrow> Server \<Rightarrow> string \<Rightarrow> event \<Rightarrow> int" where
  "event_cost W srv i (Request uuid now req r) =
     (if is_Ok r \<and> routed req \<and> \<not> open_door srv req
      then (case plan W srv now req of Inl _ \<Rightarrow> 0 | Inr (j, p) \<Rightarrow> if j = i then p else 0) else 0)"
| "event_cost W srv i Elapse = 0"

definition answered_cost :: "'r world \<Rightarrow> Server \<Rightarrow> string \<Rightarrow> event list \<Rightarrow> int" where
  "answered_cost W srv i es = sum_list (map (event_cost W srv i) es)"

lemma calls_of_simps [simp]: "calls_of W srv [] = []" "calls_of W srv (e # es) = event_calls W srv e @ calls_of W srv es"
  by (simp_all add: calls_of_def)

lemma answered_cost_simps [simp]:
  "answered_cost W srv i [] = 0" "answered_cost W srv i (e # es) = event_cost W srv i e + answered_cost W srv i es"
  by (simp_all add: answered_cost_def)

context service_world
begin

lemma event_effect:
  assumes "service_inv (wL W) view up s" and "event_named e" and "service_run W srv view clock up s [e] s'"
  shows "service_inv (wL W) view up s' \<and>
    session_led view s' = foldl (\<lambda>l e. ledger_step e l) (session_led view s)
      (map (call_event (hashToSessionId (wL W) (srv_sessionManager srv))) (event_calls W srv e)) \<and>
    event_cost W srv i e \<le> admitted i
      (map (call_event (hashToSessionId (wL W) (srv_sessionManager srv))) (event_calls W srv e)) (session_led view s)"
proof (cases e)
  case Elapse
  with assms elapse_inv [of view clock up s s' "wL W"] show ?thesis by (auto simp: run_simps)
next
  case (Request uuid now req r)
  then have r: "serve W srv uuid now req s = (r, s')" and n: "well_named (AnyMsg req)"
    using assms by (auto simp: run_simps)
  have "event_cost W srv i e \<le> admitted i
      (map (call_event (hashToSessionId (wL W) (srv_sessionManager srv))) (event_calls W srv e)) (session_led view s)"
  proof (cases "is_Ok r \<and> routed req \<and> \<not> open_door srv req \<and> (\<exists>q. plan W srv now req = Inr q)")
    case True
    then obtain j p where q: "plan W srv now req = Inr (j, p)" by auto
    with serve_effect [OF assms(1) n r, of j p] True have "fst (ledger_charge j p (session_led view s))" by blast
    with q True Request show ?thesis by (simp add: request_calls_def)
  next
    case False
    then have "event_cost W srv i e = 0" using Request by (auto split: sum.split)
    then show ?thesis using admitted_nonneg by simp
  qed
  with serve_effect [OF assms(1) n r] Request show ?thesis by simp
qed

lemma run_effect:
  assumes "service_run W srv view clock up s es s'" and "service_inv (wL W) view up s" and "list_all event_named es"
  shows "service_inv (wL W) view up s' \<and>
    session_led view s' = foldl (\<lambda>l e. ledger_step e l) (session_led view s)
      (map (call_event (hashToSessionId (wL W) (srv_sessionManager srv))) (calls_of W srv es)) \<and>
    answered_cost W srv i es \<le> admitted i
      (map (call_event (hashToSessionId (wL W) (srv_sessionManager srv))) (calls_of W srv es)) (session_led view s)"
  using assms
proof (induction es arbitrary: s)
  case Nil
  then show ?case by (simp add: run_simps)
next
  case (Cons e es)
  obtain s1 where r: "service_run W srv view clock up s [e] s1" "service_run W srv view clock up s1 es s'"
    using Cons.prems(1) by (cases e) (auto simp: run_simps)
  note e = event_effect [OF Cons.prems(2) _ r(1), of i]
  with Cons.prems(3) Cons.IH [OF r(2)] show ?case
    by (auto simp: admitted_append)
qed

lemma calls_ok: "list_all call_ok (calls_of W srv es)"
proof (induction es)
  case Nil
  then show ?case by simp
next
  case (Cons e es)
  then show ?case using request_calls_ok by (cases e) simp_all
qed

lemma run_spending:
  assumes "service_run W srv view clock up s es s'" and "service_inv (wL W) view up s" and "list_all event_named es"
    and "session_led view s i = None"
  shows "answered_cost W srv i es \<le>
    first_quantity (hashToSessionId (wL W) (srv_sessionManager srv)) i (calls_of W srv es)"
proof -
  from run_effect [OF assms(1-3), of i]
    admitted_le_first [where l = "session_led view s", OF calls_ok [of srv es] assms(4),
      of "hashToSessionId (wL W) (srv_sessionManager srv)"]
  show ?thesis by linarith
qed

text \<open>A \<open>GetValue\<close> answer comes from a state that keeps the invariant.\<close>

lemma serve_GetValue:
  assumes i: "service_inv (wL W) view up s" and v: "serve W srv uuid now req s = (Ok (RGetValue resp), s1)"
    and m: "AnyMsg req = MGetValue m"
  shows "\<exists>t. service_inv (wL W) view up t \<and> fst (GetValue (wL W) (wR W) m t) = Ok resp"
proof -
  have h: "fst (GetValue (wL W) (wR W) m t) = Ok resp"
    if "NewConnectValidationInterceptor (wValidate W) (svc W srv uuid) now cs req t = (Ok (RGetValue resp), s1)" for cs t
    using that m
    by (cases "GetValue (wL W) (wR W) m t"; cases "fst (GetValue (wL W) (wR W) m t)")
       (auto simp: NewConnectValidationInterceptor_def svc_def split: option.splits)
  show ?thesis
  proof (cases "open_door srv req")
    case True
    with v i h show ?thesis by (auto simp: serve_plan split: if_splits)
  next
    case False
    with v obtain j p x t where p: "plan W srv now req = Inr (j, p)" "sm_DeductSessionBalance (wR W) j p s = (Ok x, t)"
        "NewConnectValidationInterceptor (wValidate W) (svc W srv uuid) now (Some x) req t = (Ok (RGetValue resp), s1)"
      by (auto simp: serve_plan plan_def dest: gate_plan_Inl split: if_splits sum.splits prod.splits result.splits)
    have "service_inv (wL W) view up t" using deduct_inv [OF i plan_ok [OF p(1)], of j] p(2) by simp
    with h [OF p(3)] show ?thesis by blast
  qed
qed

text \<open>What \<open>GetValue\<close> answers in a run is the content its name identifies.\<close>

lemma run_content:
  assumes "service_run W srv view clock up s es s'" and "service_inv (wL W) view up s" and "list_all event_named es"
    and "cid_plain (wL W)" and "Request uuid now req (Ok (RGetValue resp)) \<in> set es" and "AnyMsg req = MGetValue m"
  shows "\<exists>c c' creq. gv_Name m = value_key c \<and> NormalizeCidToV1 (wL W) c = Inr c' \<and>
    cv_Value creq = gvr_Value resp \<and> calculateCid (wL W) creq = Ok c'"
  using assms(1-3,5)
proof (induction es arbitrary: s)
  case Nil
  then show ?case by simp
next
  case (Cons e es)
  obtain s1 where r: "service_run W srv view clock up s [e] s1" "service_run W srv view clock up s1 es s'"
    using Cons.prems(1) by (cases e) (auto simp: run_simps)
  show ?case
  proof (cases "Request uuid now req (Ok (RGetValue resp)) \<in> set es")
    case True
    with Cons.IH [OF r(2)] event_effect [OF Cons.prems(2) _ r(1)] Cons.prems(3) show ?thesis by simp
  next
    case False
    with Cons.prems(4) r(1) have v: "serve W srv uuid now req s = (Ok (RGetValue resp), s1)" by (auto simp: run_simps)
    obtain t where t: "service_inv (wL W) view up t" "fst (GetValue (wL W) (wR W) m t) = Ok resp"
      using serve_GetValue [OF Cons.prems(2) v assms(6)] by blast
    from t(1) have "up t" "values_intact (wL W) (view t)" by (simp_all add: service_inv_def sessions_wf_def)
    from GetValue_authentic [OF this assms(4) t(2)] show ?thesis .
  qed
qed

end

subsection \<open>Requests that stop before their handler\<close>

context service_world
begin

lemma no_own_token_stops:
  assumes "\<not> open_door srv req"
    and "\<And>tok c. bearer req = Some tok \<Longrightarrow> \<not> own_token decode verifies (srv_authmanager srv) tok c now"
  shows "\<exists>r. serve W srv uuid now req s = (r, s) \<and> \<not> is_Ok r"
proof (cases "plan W srv now req")
  case (Inl r)
  with assms(1) gate_plan_Inl [of GetPrice "VerifyAndParseJwt (wJ W) (srv_authmanager srv)" now req r] show ?thesis
    by (auto simp: serve_plan plan_def)
next
  case (Inr q)
  then obtain tok c where "bearer req = Some tok"
      "VerifyAndParseJwt (wJ W) (srv_authmanager srv) tok (SessionClaims empty_session_claims) True now = Ok (SessionClaims c)"
    by (cases q) (auto simp: plan_def gate_plan_Inr)
  with assms(2) verify_own_token [OF jwt] show ?thesis by blast
qed

lemma zero_price_stops:
  assumes "\<not> open_door srv req" and "GetPrice req = Inr p" and "p \<le> 0"
  shows "\<exists>r. serve W srv uuid now req s = (r, s) \<and> \<not> is_Ok r"
proof (cases "plan W srv now req")
  case (Inl r)
  with assms(1) gate_plan_Inl [of GetPrice "VerifyAndParseJwt (wJ W) (srv_authmanager srv)" now req r] show ?thesis
    by (auto simp: serve_plan plan_def)
next
  case (Inr q)
  then obtain i where "q = (i, p)" using assms(2) by (cases q) (auto simp: plan_def gate_plan_Inr)
  with Inr assms show ?thesis by (simp add: serve_plan sm_DeductSessionBalance_def)
qed

text \<open>A request that is charged and then fails validation.\<close>

lemma invalid_is_charged:
  assumes i: "service_inv (wL W) view up s" and r: "routed req" "\<not> open_door srv req"
    and p: "plan W srv now req = Inr (j, p)" "0 < p" "p \<le> bal (session_led view s) j"
    and v: "wValidate W (AnyMsg req) = Some e"
  shows "\<exists>s'. serve W srv uuid now req s = (Err (Status InvalidArgument ''failed to parse proto: %s''), s') \<and>
    session_led view s' = (session_led view s)(j \<mapsto> bal (session_led view s) j - p) \<and> sessions_only view s s'"
proof -
  have a: "in_int64 p" by (rule plan_ok [OF p(1)])
  have w: "sessions_wf view up s" "sessions_permanent (view s)" using i by (simp_all add: service_inv_def)
  obtain x s' where d: "sm_DeductSessionBalance (wR W) j p s = (Ok x, s')"
    using session_affordable [OF w(1) p(2,3)] by blast
  from session_admission [OF w(1) a, of j x] d have "session_led view s' = (session_led view s)(j \<mapsto> bal (session_led view s) j - p)" by simp
  moreover have "sessions_only view s s'" using deduct_sessions_only [OF w a, of j] d by simp
  ultimately show ?thesis
    using r p(1) v d by (simp add: serve_plan NewConnectValidationInterceptor_def protoValidation_def)
qed

text \<open>A session token is given out for a token of a trusted issuer only.\<close>

lemma session_answer_trusted:
  assumes i: "service_inv (wL W) view up s" and v: "serve W srv uuid now req s = (Ok (RCreateSession resp), s1)"
    and m: "AnyMsg req = MCreateSession m"
  shows "\<exists>t r q expireAt pk. decode (cs_Jwt m) (CreateSessionClaims empty_create_claims) = Some t \<and> tk_Method t = SigningMethodEd25519 \<and>
    quota_claims (tk_Claims t) now r q expireAt \<and> am_trustedIssuers (srv_authmanager srv) (rc_Issuer r) = Some pk \<and>
    verifies SigningMethodEd25519 (PublicKey pk) (cs_Jwt m) \<and> dates_valid r now"
proof -
  have o: "routed req" "open_door srv req"
    using v m charged_not_login [of req srv m] by (auto simp: serve_plan split: if_splits)
  let ?c = "CreateSession (wJ W) (srv_config srv) (VerifyAndParseJwt (wJ W) (srv_authmanager srv))
      (sm_CreateSession (wL W) (wR W) (srv_sessionManager srv)) uuid now m s"
  have "?c = (Ok resp, s1)"
    using v o m by (cases ?c; cases "fst ?c")
      (auto simp: serve_plan NewConnectValidationInterceptor_def svc_def split: option.splits)
  then obtain cl r q e where c: "VerifyAndParseJwt (wJ W) (srv_authmanager srv) (cs_Jwt m) (CreateSessionClaims empty_create_claims) False now = Ok cl"
      "quota_claims cl now r q e"
    unfolding CreateSession_Ok by blast
  have "registered_of cl = Some r" using c(2) by (auto simp: quota_claims_def)
  with verify_exchange_sound [OF jwt c(1)] c(2) show ?thesis by auto
qed

end

subsection \<open>A concrete world\<close>

definition demo_world :: "mem world" where
  "demo_world = \<lparr>wL = demo_libs, wJ = demo_jwt, wR = mem_redis, wSort = sort_key score, wValidate = (\<lambda>_. None),
     wUnreadable = (\<lambda>_. LibErr ''unmarshal message'')\<rparr>"

definition demo_server :: Server where
  "demo_server = \<lparr>srv_config = demo_login_config, srv_sessionManager = demo_salt, srv_authmanager = demo_auth, srv_unitPrice = 1\<rparr>"

interpretation demo: service_world demo_world mkeys mclock mup "table_decode demo_tokens" demo_verifies
  using mem_tokens.token_redis_axioms demo_jwt_int64
  by (simp add: demo_world_def service_world_def service_world_axioms_def)

lemma demo_world_simps [simp]: "wL demo_world = demo_libs" "wJ demo_world = demo_jwt" "wR demo_world = mem_redis"
    "wValidate demo_world m = None"
  by (simp_all add: demo_world_def)

lemma demo_server_simps [simp]: "srv_sessionManager demo_server = demo_salt" "srv_authmanager demo_server = demo_auth"
    "srv_config demo_server = demo_login_config"
  by (simp_all add: demo_server_def)

lemma demo_mem_inv: "service_inv demo_libs mkeys mup demo_mem"
  by (simp add: service_inv_def sessions_permanent_def) (simp add: demo_mem_def)

text \<open>The same without authentication.\<close>

definition demo_open_server :: Server where
  "demo_open_server = demo_server\<lparr>srv_config := demo_login_config\<lparr>cf_DisableAuth := True\<rparr>\<rparr>"

lemma demo_open_server_auth: "srv_authmanager demo_open_server = demo_auth"
  by (simp add: demo_open_server_def)

end
