(* ===== verification/Connect_Client.thy ===== *)
theory Connect_Client
  imports Service
begin

section \<open>The generated client (\<open>kvstoreconnect/kvstore.connect.go\<close>)\<close>

text \<open>
  The client of the service as the connect generator writes it: one endpoint per procedure, at the
  base URL followed by the procedure's path. \<open>connect.NewClient\<close> with the HTTP client behind it is a
  parameter: given a URL it sends a message with its \<open>Authorization\<close> header and yields the answer.
\<close>

subsection \<open>The code\<close>

text \<open>\<open>strings.TrimRight\<close> with a cutset of one character.\<close>

definition TrimRight :: "string \<Rightarrow> char \<Rightarrow> string" where
  "TrimRight s c = rev (dropWhile (\<lambda>x. x = c) (rev s))"

type_synonym 'r endpoint = "string list \<Rightarrow> message \<Rightarrow> 'r \<Rightarrow> response result \<times> 'r"

record 'r kvStoreServiceClient =
  c_createValue :: "'r endpoint"
  c_createStreamValue :: "'r endpoint"
  c_getValue :: "'r endpoint"
  c_getStreamValue :: "'r endpoint"
  c_listStreamValues :: "'r endpoint"
  c_prolongValue :: "'r endpoint"
  c_searchCid :: "'r endpoint"
  c_searchInstance :: "'r endpoint"
  c_createSession :: "'r endpoint"
  c_registerInstance :: "'r endpoint"
  c_ping :: "'r endpoint"
  c_delegatedRouting :: "'r endpoint"

definition NewKvStoreServiceClient :: "(string \<Rightarrow> 'r endpoint) \<Rightarrow> string \<Rightarrow> 'r kvStoreServiceClient" where
  "NewKvStoreServiceClient newClient baseURL0 =
     (let baseURL = TrimRight baseURL0 (CHR ''/'') in \<lparr>
        c_createValue = newClient (baseURL @ CreateValueProcedure),
        c_createStreamValue = newClient (baseURL @ CreateStreamValueProcedure),
        c_getValue = newClient (baseURL @ GetValueProcedure),
        c_getStreamValue = newClient (baseURL @ GetStreamValueProcedure),
        c_listStreamValues = newClient (baseURL @ ListStreamValuesProcedure),
        c_prolongValue = newClient (baseURL @ ProlongValueProcedure),
        c_searchCid = newClient (baseURL @ SearchCidProcedure),
        c_searchInstance = newClient (baseURL @ SearchInstanceProcedure),
        c_createSession = newClient (baseURL @ CreateSessionProcedure),
        c_registerInstance = newClient (baseURL @ RegisterInstanceProcedure),
        c_ping = newClient (baseURL @ PingProcedure),
        c_delegatedRouting = newClient (baseURL @ DelegatedRoutingProcedure)\<rparr>)"

text \<open>The methods: each calls its endpoint.\<close>

definition client_CreateValue :: "'r kvStoreServiceClient \<Rightarrow> string list \<Rightarrow> CreateValueRequest \<Rightarrow> 'r \<Rightarrow> response result \<times> 'r" where
  "client_CreateValue c header req = c_createValue c header (MCreateValue req)"
definition client_CreateStreamValue :: "'r kvStoreServiceClient \<Rightarrow> string list \<Rightarrow> CreateStreamValueRequest \<Rightarrow> 'r \<Rightarrow> response result \<times> 'r" where
  "client_CreateStreamValue c header req = c_createStreamValue c header (MCreateStreamValue req)"
definition client_GetValue :: "'r kvStoreServiceClient \<Rightarrow> string list \<Rightarrow> GetValueRequest \<Rightarrow> 'r \<Rightarrow> response result \<times> 'r" where
  "client_GetValue c header req = c_getValue c header (MGetValue req)"
definition client_GetStreamValue :: "'r kvStoreServiceClient \<Rightarrow> string list \<Rightarrow> GetStreamValueRequest \<Rightarrow> 'r \<Rightarrow> response result \<times> 'r" where
  "client_GetStreamValue c header req = c_getStreamValue c header (MGetStreamValue req)"
definition client_ListStreamValues :: "'r kvStoreServiceClient \<Rightarrow> string list \<Rightarrow> ListStreamValuesRequest \<Rightarrow> 'r \<Rightarrow> response result \<times> 'r" where
  "client_ListStreamValues c header req = c_listStreamValues c header (MListStreamValues req)"
definition client_ProlongValue :: "'r kvStoreServiceClient \<Rightarrow> string list \<Rightarrow> ProlongValueRequest \<Rightarrow> 'r \<Rightarrow> response result \<times> 'r" where
  "client_ProlongValue c header req = c_prolongValue c header (MProlongValue req)"
definition client_SearchCid :: "'r kvStoreServiceClient \<Rightarrow> string list \<Rightarrow> SearchCidRequest \<Rightarrow> 'r \<Rightarrow> response result \<times> 'r" where
  "client_SearchCid c header req = c_searchCid c header (MSearchCid req)"
definition client_SearchInstance :: "'r kvStoreServiceClient \<Rightarrow> string list \<Rightarrow> SearchInstanceRequest \<Rightarrow> 'r \<Rightarrow> response result \<times> 'r" where
  "client_SearchInstance c header req = c_searchInstance c header (MSearchInstance req)"
definition client_CreateSession :: "'r kvStoreServiceClient \<Rightarrow> string list \<Rightarrow> CreateSessionRequest \<Rightarrow> 'r \<Rightarrow> response result \<times> 'r" where
  "client_CreateSession c header req = c_createSession c header (MCreateSession req)"
definition client_RegisterInstance :: "'r kvStoreServiceClient \<Rightarrow> string list \<Rightarrow> RegisterInstanceRequest \<Rightarrow> 'r \<Rightarrow> response result \<times> 'r" where
  "client_RegisterInstance c header req = c_registerInstance c header (MRegisterInstance req)"
definition client_Ping :: "'r kvStoreServiceClient \<Rightarrow> string list \<Rightarrow> PingRequest \<Rightarrow> 'r \<Rightarrow> response result \<times> 'r" where
  "client_Ping c header req = c_ping c header (MPing req)"
definition client_DelegatedRouting :: "'r kvStoreServiceClient \<Rightarrow> string list \<Rightarrow> DelegatedRoutingRequest \<Rightarrow> 'r \<Rightarrow> response result \<times> 'r" where
  "client_DelegatedRouting c header req = c_delegatedRouting c header (MDelegatedRouting req)"

fun client_call :: "'r kvStoreServiceClient \<Rightarrow> string list \<Rightarrow> message \<Rightarrow> 'r \<Rightarrow> response result \<times> 'r" where
  "client_call c header (MCreateValue req) = client_CreateValue c header req"
| "client_call c header (MCreateStreamValue req) = client_CreateStreamValue c header req"
| "client_call c header (MGetValue req) = client_GetValue c header req"
| "client_call c header (MGetStreamValue req) = client_GetStreamValue c header req"
| "client_call c header (MListStreamValues req) = client_ListStreamValues c header req"
| "client_call c header (MProlongValue req) = client_ProlongValue c header req"
| "client_call c header (MSearchCid req) = client_SearchCid c header req"
| "client_call c header (MSearchInstance req) = client_SearchInstance c header req"
| "client_call c header (MCreateSession req) = client_CreateSession c header req"
| "client_call c header (MRegisterInstance req) = client_RegisterInstance c header req"
| "client_call c header (MPing req) = client_Ping c header req"
| "client_call c header (MDelegatedRouting req) = client_DelegatedRouting c header req"

lemmas client_defs =
  client_CreateValue_def client_CreateStreamValue_def client_GetValue_def
  client_GetStreamValue_def client_ListStreamValues_def client_ProlongValue_def
  client_SearchCid_def client_SearchInstance_def client_CreateSession_def
  client_RegisterInstance_def client_Ping_def client_DelegatedRouting_def

subsection \<open>Client and server agree\<close>

text \<open>A transport that delivers what is sent under a base URL to the service, and its answer back.\<close>

definition delivers :: "(string \<Rightarrow> 'r endpoint) \<Rightarrow> string \<Rightarrow> (AnyRequest \<Rightarrow> 'r \<Rightarrow> response result \<times> 'r) \<Rightarrow> bool" where
  "delivers newClient base service \<longleftrightarrow>
     (\<forall>path header m s. newClient (base @ path) header m s =
        service \<lparr>Procedure = path, AuthorizationHeader = header, AnyMsg = m\<rparr> s)"

lemma client_sends:
  assumes "delivers newClient (TrimRight baseURL (CHR ''/'')) service"
  shows "client_call (NewKvStoreServiceClient newClient baseURL) header m s =
    service \<lparr>Procedure = request_procedure m, AuthorizationHeader = header, AnyMsg = m\<rparr> s"
  using assms by (cases m) (simp_all add: NewKvStoreServiceClient_def Let_def client_defs delivers_def)

lemma TrimRight_id: "s = [] \<or> last s \<noteq> c \<Longrightarrow> TrimRight s c = s"
  by (cases s rule: rev_cases) (auto simp: TrimRight_def)

subsection \<open>Properties\<close>

text \<open>
  C27. Every method of the client reaches the method of the server that it is named after. Over a
  transport that delivers what is sent under the base URL, whether or not the URL was given with
  trailing slashes, a call runs the interceptors around the server's method for its message, with
  the caller's \<open>Authorization\<close> header; it is never answered by the router itself.
\<close>

theorem client_reaches_method:
  assumes "delivers newClient (TrimRight baseURL (CHR ''/'')) (serve W srv uuid now)"
  shows "client_call (NewKvStoreServiceClient newClient baseURL) header m s =
    interceptors W srv (svc W srv uuid) now None
      \<lparr>Procedure = request_procedure m, AuthorizationHeader = header, AnyMsg = m\<rparr> s"
  by (simp add: client_sends [OF assms] serve_routes)

theorem client_reaches_method_witness:
  "client_call
     (NewKvStoreServiceClient
       (\<lambda>url header m. serve demo_world demo_server ''uuid'' 0 \<lparr>Procedure = drop 8 url, AuthorizationHeader = header, AnyMsg = m\<rparr>)
       ''http://h/'') [] (MPing \<lparr>pi_Dummy = 0\<rparr>) demo_mem =
   (Ok (RPing \<lparr>pir_Pong = ''pong''\<rparr>), demo_mem)"
proof -
  let ?c = "\<lambda>url header m. serve demo_world demo_server ''uuid'' 0 \<lparr>Procedure = drop 8 url, AuthorizationHeader = header, AnyMsg = m\<rparr>"
  have "TrimRight ''http://h/'' (CHR ''/'') = ''http://h''" by code_simp
  then have "delivers ?c (TrimRight ''http://h/'' (CHR ''/'')) (serve demo_world demo_server ''uuid'' 0)"
    by (simp add: delivers_def)
  then have c: "client_call (NewKvStoreServiceClient ?c ''http://h/'') [] m demo_mem =
      interceptors demo_world demo_server (svc demo_world demo_server ''uuid'') 0 None
        \<lparr>Procedure = request_procedure m, AuthorizationHeader = [], AnyMsg = m\<rparr> demo_mem" for m
    by (rule client_reaches_method)
  show ?thesis unfolding c
    by (simp add: interceptors_def interceptor_plan free_of_charge_def skipAuth_def NewConnectValidationInterceptor_def
        protoValidation_def svc_def Ping_def)
qed

end
