(* ===== verification/Net_Url.thy ===== *)
theory Net_Url
  imports Go_Std
begin

section \<open>\<open>net/url\<close>\<close>

text \<open>
  Escaping and parsing of query strings, as the Go library documents them, on bytes. The login
  service, the mock identity provider and the gateway use them.
\<close>

subsection \<open>Escaping\<close>

text \<open>\<open>url.QueryEscape\<close> on bytes.\<close>

definition unreserved :: "char \<Rightarrow> bool" where
  "unreserved c \<longleftrightarrow>
     (let n = (of_char c :: nat) in
      48 \<le> n \<and> n \<le> 57 \<or> 65 \<le> n \<and> n \<le> 90 \<or> 97 \<le> n \<and> n \<le> 122) \<or> c \<in> set ''-_.~''"

definition upperhex :: "nat \<Rightarrow> char" where
  "upperhex n = ''0123456789ABCDEF'' ! n"

definition escape_char :: "char \<Rightarrow> string" where
  "escape_char c =
     (if unreserved c then [c] else if c = CHR '' '' then ''+''
      else [CHR ''%'', upperhex (of_char c div 16), upperhex (of_char c mod 16)])"

definition QueryEscape :: "string \<Rightarrow> string" where
  "QueryEscape s = concat (map escape_char s)"

text \<open>The value of a hexadecimal digit.\<close>

definition from_hex_char :: "char \<Rightarrow> nat option" where
  "from_hex_char c =
     (let n = (of_char c :: nat) in
      if 48 \<le> n \<and> n \<le> 57 then Some (n - 48)
      else if 97 \<le> n \<and> n \<le> 102 then Some (n - 87)
      else if 65 \<le> n \<and> n \<le> 70 then Some (n - 55)
      else None)"

text \<open>\<open>url.QueryUnescape\<close>.\<close>

fun QueryUnescape :: "string \<Rightarrow> go_error + string" where
  "QueryUnescape [] = Inr []"
| "QueryUnescape (c # cs) =
     (if c = CHR ''%'' then
        (case cs of
           a # b # rest \<Rightarrow>
             (case (from_hex_char a, from_hex_char b) of
                (Some h, Some l) \<Rightarrow>
                  (case QueryUnescape rest of Inl e \<Rightarrow> Inl e | Inr t \<Rightarrow> Inr (char_of (16 * h + l) # t))
              | _ \<Rightarrow> Inl (LibErr ''invalid URL escape''))
         | _ \<Rightarrow> Inl (LibErr ''invalid URL escape''))
      else
        (case QueryUnescape cs of
           Inl e \<Rightarrow> Inl e
         | Inr t \<Rightarrow> Inr ((if c = CHR ''+'' then CHR '' '' else c) # t)))"

text \<open>An identifier such as \<open>uuid.NewString()\<close> makes is escaped as itself.\<close>

lemma QueryEscape_plain: "list_all unreserved s \<Longrightarrow> QueryEscape s = s"
  by (induction s) (simp_all add: QueryEscape_def escape_char_def)

lemma from_hex_upperhex: "n < 16 \<Longrightarrow> from_hex_char (upperhex n) = Some n"
proof -
  have "list_all (\<lambda>n. from_hex_char (upperhex n) = Some n) [0..<16]" by code_simp
  then show "n < 16 \<Longrightarrow> from_hex_char (upperhex n) = Some n" by (simp add: list_all_iff)
qed

lemma nibbles: "of_char c div 16 < (16::nat)" "of_char c mod 16 < (16::nat)"
proof -
  have "(of_char c :: nat) < 16 * 16" by simp
  then show "of_char c div 16 < (16::nat)" by (rule less_mult_imp_div_less)
qed simp

lemma unreserved_plain: "unreserved c \<Longrightarrow> c \<noteq> CHR ''%'' \<and> c \<noteq> CHR ''+''"
  by (auto simp: unreserved_def Let_def)

text \<open>Escaping loses nothing.\<close>

lemma QueryUnescape_QueryEscape: "QueryUnescape (QueryEscape s) = Inr s"
proof (induction s)
  case Nil
  then show ?case by (simp add: QueryEscape_def)
next
  case (Cons c s)
  have "char_of (16 * (of_char c div 16) + of_char c mod 16 :: nat) = c" by simp
  then show ?case
    using Cons unreserved_plain [of c] by (auto simp: QueryEscape_def escape_char_def from_hex_upperhex nibbles)
qed

subsection \<open>Queries\<close>

text \<open>\<open>url.Values\<close>: the values of each key in order.\<close>

type_synonym url_Values = "string \<Rightarrow> string list"

text \<open>
  \<open>url.ParseQuery\<close>: pieces that have a semicolon or do not unescape are left out, and the first
  error is returned beside the values; an error about a semicolon replaces an earlier one.
\<close>

fun parsePieces :: "string list \<Rightarrow> url_Values \<Rightarrow> go_error option \<Rightarrow> url_Values \<times> go_error option" where
  "parsePieces [] m err = (m, err)"
| "parsePieces (piece # pieces) m err =
     (if CHR '';'' \<in> set piece then parsePieces pieces m (Some (Errorf ''invalid semicolon separator in query''))
      else if piece = '''' then parsePieces pieces m err
      else
        (case Cut piece (CHR ''='') of
           (key, value, _) \<Rightarrow>
             (case QueryUnescape key of
                Inl e \<Rightarrow> parsePieces pieces m (if err = None then Some e else err)
              | Inr key \<Rightarrow>
                  (case QueryUnescape value of
                     Inl e \<Rightarrow> parsePieces pieces m (if err = None then Some e else err)
                   | Inr value \<Rightarrow> parsePieces pieces (m(key := m key @ [value])) err))))"

definition ParseQuery :: "string \<Rightarrow> url_Values \<times> go_error option" where
  "ParseQuery query = parsePieces (Split query (CHR ''&'')) (\<lambda>_. []) None"

text \<open>One escaped parameter reads back.\<close>

lemma upperhex_plain: "n < 16 \<Longrightarrow> upperhex n \<notin> set '';&=''"
proof -
  have "list_all (\<lambda>n. upperhex n \<notin> set '';&='') [0..<16]" by code_simp
  then show "n < 16 \<Longrightarrow> upperhex n \<notin> set '';&=''" by (simp add: list_all_iff)
qed

lemma escape_char_plain: "x \<in> set (escape_char c) \<Longrightarrow> x \<notin> set '';&=''"
proof -
  have "upperhex (of_char c div 16) \<notin> set '';&=''" "upperhex (of_char c mod 16) \<notin> set '';&=''"
    using nibbles [of c] by (simp_all only: upperhex_plain not_False_eq_True)
  then show "x \<in> set (escape_char c) \<Longrightarrow> x \<notin> set '';&=''"
    by (auto simp: escape_char_def unreserved_def split: if_splits)
qed

lemma QueryEscape_chars: "c \<in> set (QueryEscape s) \<Longrightarrow> c \<noteq> CHR '';'' \<and> c \<noteq> CHR ''&'' \<and> c \<noteq> CHR ''=''"
  using escape_char_plain by (fastforce simp: QueryEscape_def)

lemma Cut_append: "c \<notin> set k \<Longrightarrow> Cut (k @ c # r) c = (k, r, True)"
proof -
  assume "c \<notin> set k"
  then have "takeWhile (\<lambda>x. x \<noteq> c) (k @ c # r) = k" "dropWhile (\<lambda>x. x \<noteq> c) (k @ c # r) = c # r"
    by (intro takeWhile_append_stop dropWhile_append_stop; auto)+
  then show ?thesis by (simp add: Cut_def)
qed

lemma parsePieces_param:
  assumes "k \<noteq> ''''" and "list_all unreserved k"
  shows "parsePieces ((k @ CHR ''='' # QueryEscape v) # pieces) m err = parsePieces pieces (m(k := m k @ [v])) err"
proof -
  have k: "QueryEscape k = k" by (rule QueryEscape_plain [OF assms(2)])
  have n: "c \<in> set k \<Longrightarrow> c \<noteq> CHR '';'' \<and> c \<noteq> CHR ''=''" for c
    using QueryEscape_chars [of c k] k by simp
  have "QueryUnescape k = Inr k" using QueryUnescape_QueryEscape [of k] k by simp
  moreover have "CHR '';'' \<notin> set (k @ CHR ''='' # QueryEscape v)" using n QueryEscape_chars [of _ v] by auto
  moreover have "Cut (k @ CHR ''='' # QueryEscape v) (CHR ''='') = (k, QueryEscape v, True)" using n by (intro Cut_append) blast
  ultimately show ?thesis using assms(1) by (simp add: QueryUnescape_QueryEscape)
qed

lemma param_no_sep: "list_all unreserved k \<Longrightarrow> CHR ''&'' \<notin> set (k @ CHR ''='' # QueryEscape v)"
  using QueryEscape_chars [of _ v] QueryEscape_chars [of _ k] QueryEscape_plain [of k] by auto

lemma ParseQuery_param:
  assumes "k \<noteq> ''''" and "list_all unreserved k"
  shows "ParseQuery (k @ CHR ''='' # QueryEscape v) = ((\<lambda>_. [])(k := [v]), None)"
  using parsePieces_param [OF assms] param_no_sep [OF assms(2)] by (simp add: ParseQuery_def Split_no_sep)

lemma ParseQuery_params:
  assumes "k \<noteq> ''''" "list_all unreserved k" and "k' \<noteq> ''''" "list_all unreserved k'" and "k' \<noteq> k"
  shows "ParseQuery ((k @ CHR ''='' # QueryEscape v) @ CHR ''&'' # (k' @ CHR ''='' # QueryEscape v')) =
    ((\<lambda>_. [])(k := [v], k' := [v']), None)"
  unfolding ParseQuery_def Split_append_sep [OF param_no_sep [OF assms(2)]] Split_no_sep [OF param_no_sep [OF assms(4)]]
    parsePieces_param [OF assms(1,2)] parsePieces_param [OF assms(3,4)]
  using assms(5) by simp

end
