(* ===== verification/Gateway.thy ===== *)
theory Gateway
  imports Connect_Client Net_Url
begin

section \<open>The REST gateway (\<open>kvstore.pb.gw.go\<close>, \<open>cmd/gateway\<close>)\<close>

text \<open>
  The gateway turns HTTP requests into calls of the service: a route is a method and a path template,
  its handler fills the message of a procedure from the body, the variables of the template and the
  query, and calls the service. There are two sets of handlers with the same routes: one calls a gRPC
  client, the other a server in the same process. The runtime of grpc-gateway is a parameter: its
  decoders, the filling of messages from query values, the annotation of contexts and the matching
  of paths. A context is the authorization metadata it carries. A handler either writes an error
  (\<open>runtime.HTTPError\<close>, here \<open>Err\<close>) or forwards a response message (\<open>Ok\<close>).
\<close>

subsection \<open>HTTP requests\<close>

record http_Request =
  hq_Method :: string
  hq_Path :: string
  hq_RawQuery :: string
  hq_ContentType :: string
  hq_Authorization :: "string list"
  hq_Body :: bytes

definition io_EOF :: go_error where "io_EOF = LibErr ''EOF''"

text \<open>The filter of fields that the query may not set, as the generator writes it.\<close>

record DoubleArray =
  da_Encoding :: "(string \<times> int) list"
  da_Base :: "int list"
  da_Check :: "int list"

record Pattern =
  pt_ops :: "int list"
  pt_pool :: "string list"
  pt_verb :: string

text \<open>
  The runtime. A decoder yields what it has read into its target, its error and the rest of the body.
  \<open>rt_postForm\<close> is the form in a body of a given content type (\<open>net/http\<close>), \<open>rt_Match\<close> selects one of the
  registered routes and binds the variables of its template.
\<close>

record gateway_runtime =
  Decode_bytes :: "bytes \<Rightarrow> bytes \<times> go_error option \<times> bytes"
  Decode_ProlongValue :: "bytes \<Rightarrow> ProlongValueRequest \<times> go_error option \<times> bytes"
  Decode_CreateSession :: "bytes \<Rightarrow> CreateSessionRequest \<times> go_error option \<times> bytes"
  Decode_RegisterInstance :: "bytes \<Rightarrow> RegisterInstanceRequest \<times> go_error option \<times> bytes"
  Populate_CreateValue :: "CreateValueRequest \<Rightarrow> url_Values \<Rightarrow> DoubleArray \<Rightarrow> go_error + CreateValueRequest"
  Populate_GetStreamValue :: "GetStreamValueRequest \<Rightarrow> url_Values \<Rightarrow> DoubleArray \<Rightarrow> go_error + GetStreamValueRequest"
  Populate_ListStreamValues :: "ListStreamValuesRequest \<Rightarrow> url_Values \<Rightarrow> DoubleArray \<Rightarrow> go_error + ListStreamValuesRequest"
  Populate_SearchCid :: "SearchCidRequest \<Rightarrow> url_Values \<Rightarrow> DoubleArray \<Rightarrow> go_error + SearchCidRequest"
  Populate_SearchInstance :: "SearchInstanceRequest \<Rightarrow> url_Values \<Rightarrow> DoubleArray \<Rightarrow> go_error + SearchInstanceRequest"
  Populate_Ping :: "PingRequest \<Rightarrow> url_Values \<Rightarrow> DoubleArray \<Rightarrow> go_error + PingRequest"
  runtime_String :: "string \<Rightarrow> go_error + string"
  AnnotateContext :: "http_Request \<Rightarrow> string \<Rightarrow> string \<Rightarrow> go_error + string list"
  AnnotateIncomingContext :: "http_Request \<Rightarrow> string \<Rightarrow> string \<Rightarrow> go_error + string list"
  rt_postForm :: "string \<Rightarrow> bytes \<Rightarrow> url_Values \<times> go_error option"
  rt_Match :: "(string \<times> Pattern) list \<Rightarrow> http_Request \<Rightarrow> (nat \<times> (string \<rightharpoonup> string)) option"

text \<open>\<open>http.Request.ParseForm\<close>: a body counts for the methods that have one, the query always.\<close>

definition ParseForm :: "gateway_runtime \<Rightarrow> http_Request \<Rightarrow> url_Values \<times> go_error option" where
  "ParseForm G req =
     (let (post, err) = (if hq_Method req \<in> {''POST'', ''PUT'', ''PATCH''} then rt_postForm G (hq_ContentType req) (hq_Body req)
                         else ((\<lambda>_. []), None));
          (query, e) = ParseQuery (hq_RawQuery req)
      in ((\<lambda>k. post k @ query k), if err = None then e else err))"

subsection \<open>The steps the generated handlers are made of\<close>

text \<open>\<open>marshaler.NewDecoder(req.Body).Decode\<close>, where the end of an empty body is no error.\<close>

definition decodeBody ::
    "(bytes \<Rightarrow> 'a \<times> go_error option \<times> bytes) \<Rightarrow> http_Request \<Rightarrow> (go_error + 'a) \<times> http_Request" where
  "decodeBody decode req =
     (case decode (hq_Body req) of
        (x, err, rest) \<Rightarrow>
          (case err of
             Some e \<Rightarrow> if e \<noteq> io_EOF then Inl (Status InvalidArgument ''%v'') else Inr x
           | None \<Rightarrow> Inr x,
           req\<lparr>hq_Body := rest\<rparr>))"

text \<open>\<open>io.Copy(io.Discard, req.Body)\<close>.\<close>

definition discardBody :: "http_Request \<Rightarrow> http_Request" where
  "discardBody req = req\<lparr>hq_Body := ''''\<rparr>"

definition pathParam :: "gateway_runtime \<Rightarrow> (string \<rightharpoonup> string) \<Rightarrow> string \<Rightarrow> go_error + string" where
  "pathParam G pathParams name =
     (case pathParams name of
        None \<Rightarrow> Inl (Status InvalidArgument ''missing parameter %s'')
      | Some val \<Rightarrow>
          (case runtime_String G val of
             Inl e \<Rightarrow> Inl (Status InvalidArgument ''type mismatch, parameter: %s, error: %v'')
           | Inr v \<Rightarrow> Inr v))"

definition queryParams ::
    "gateway_runtime \<Rightarrow> ('m \<Rightarrow> url_Values \<Rightarrow> DoubleArray \<Rightarrow> go_error + 'm) \<Rightarrow> DoubleArray \<Rightarrow> http_Request \<Rightarrow> 'm \<Rightarrow> go_error + 'm" where
  "queryParams G populate flt req protoReq =
     (case ParseForm G req of
        (_, Some e) \<Rightarrow> Inl (Status InvalidArgument ''%v'')
      | (form, None) \<Rightarrow>
          (case populate protoReq form flt of
             Inl e \<Rightarrow> Inl (Status InvalidArgument ''%v'')
           | Inr protoReq \<Rightarrow> Inr protoReq))"

subsection \<open>The service behind the gateway\<close>

text \<open>
  The interfaces \<open>KvStoreServiceClient\<close> and \<open>KvStoreServiceServer\<close> have the same methods. The first
  argument is the context.
\<close>

type_synonym ('a, 'r) call = "string list \<Rightarrow> 'a \<Rightarrow> 'r \<Rightarrow> response result \<times> 'r"

record 'r backend =
  b_CreateValue :: "(CreateValueRequest, 'r) call"
  b_CreateStreamValue :: "(CreateStreamValueRequest, 'r) call"
  b_GetValue :: "(GetValueRequest, 'r) call"
  b_GetStreamValue :: "(GetStreamValueRequest, 'r) call"
  b_ListStreamValues :: "(ListStreamValuesRequest, 'r) call"
  b_ProlongValue :: "(ProlongValueRequest, 'r) call"
  b_SearchCid :: "(SearchCidRequest, 'r) call"
  b_SearchInstance :: "(SearchInstanceRequest, 'r) call"
  b_CreateSession :: "(CreateSessionRequest, 'r) call"
  b_RegisterInstance :: "(RegisterInstanceRequest, 'r) call"
  b_Ping :: "(PingRequest, 'r) call"
  b_DelegatedRouting :: "(DelegatedRoutingRequest, 'r) call"

text \<open>The gRPC client of \<open>kvstore_grpc.pb.go\<close>: each method invokes its procedure on the connection.\<close>

type_synonym 'r ClientConn = "string \<Rightarrow> (message, 'r) call"

definition grpc_NewKvStoreServiceClient :: "'r ClientConn \<Rightarrow> 'r backend" where
  "grpc_NewKvStoreServiceClient cc = \<lparr>
     b_CreateValue = (\<lambda>ctx m. cc CreateValueProcedure ctx (MCreateValue m)),
     b_CreateStreamValue = (\<lambda>ctx m. cc CreateStreamValueProcedure ctx (MCreateStreamValue m)),
     b_GetValue = (\<lambda>ctx m. cc GetValueProcedure ctx (MGetValue m)),
     b_GetStreamValue = (\<lambda>ctx m. cc GetStreamValueProcedure ctx (MGetStreamValue m)),
     b_ListStreamValues = (\<lambda>ctx m. cc ListStreamValuesProcedure ctx (MListStreamValues m)),
     b_ProlongValue = (\<lambda>ctx m. cc ProlongValueProcedure ctx (MProlongValue m)),
     b_SearchCid = (\<lambda>ctx m. cc SearchCidProcedure ctx (MSearchCid m)),
     b_SearchInstance = (\<lambda>ctx m. cc SearchInstanceProcedure ctx (MSearchInstance m)),
     b_CreateSession = (\<lambda>ctx m. cc CreateSessionProcedure ctx (MCreateSession m)),
     b_RegisterInstance = (\<lambda>ctx m. cc RegisterInstanceProcedure ctx (MRegisterInstance m)),
     b_Ping = (\<lambda>ctx m. cc PingProcedure ctx (MPing m)),
     b_DelegatedRouting = (\<lambda>ctx m. cc DelegatedRoutingProcedure ctx (MDelegatedRouting m))\<rparr>"

subsection \<open>The handlers\<close>

text \<open>
  For each procedure, the handler that calls the gRPC client (\<open>request_\<close>) and the one that calls a server in
  the process (\<open>local_request_\<close>). The first kind drains the body of a request it does not decode.
\<close>

type_synonym 'r gateway_call = "string list \<Rightarrow> http_Request \<Rightarrow> (string \<rightharpoonup> string) \<Rightarrow> 'r \<Rightarrow> response result \<times> 'r"

definition filter_KvStoreService_CreateValue_0 :: DoubleArray where
  "filter_KvStoreService_CreateValue_0 = \<lparr>da_Encoding = [(''value'', 0)], da_Base = [1, 1, 0], da_Check = [0, 1, 2]\<rparr>"

definition request_KvStoreService_CreateValue_0 :: "gateway_runtime \<Rightarrow> 'r backend \<Rightarrow> 'r gateway_call" where
  "request_KvStoreService_CreateValue_0 G client ctx req pathParams s =
     (case decodeBody (Decode_bytes G) req of
        (Inl e, _) \<Rightarrow> (Err e, s)
      | (Inr value, req) \<Rightarrow>
          (case queryParams G (Populate_CreateValue G) filter_KvStoreService_CreateValue_0 req \<lparr>cv_Codec = 0, cv_Value = value, cv_Ttl = None\<rparr> of
             Inl e \<Rightarrow> (Err e, s)
           | Inr protoReq \<Rightarrow>
               b_CreateValue client ctx protoReq s))"

definition local_request_KvStoreService_CreateValue_0 :: "gateway_runtime \<Rightarrow> 'r backend \<Rightarrow> 'r gateway_call" where
  "local_request_KvStoreService_CreateValue_0 G server ctx req pathParams s =
     (case decodeBody (Decode_bytes G) req of
        (Inl e, _) \<Rightarrow> (Err e, s)
      | (Inr value, req) \<Rightarrow>
          (case queryParams G (Populate_CreateValue G) filter_KvStoreService_CreateValue_0 req \<lparr>cv_Codec = 0, cv_Value = value, cv_Ttl = None\<rparr> of
             Inl e \<Rightarrow> (Err e, s)
           | Inr protoReq \<Rightarrow>
               b_CreateValue server ctx protoReq s))"

definition request_KvStoreService_CreateStreamValue_0 :: "gateway_runtime \<Rightarrow> 'r backend \<Rightarrow> 'r gateway_call" where
  "request_KvStoreService_CreateStreamValue_0 G client ctx req pathParams s =
     (case decodeBody (Decode_bytes G) req of
        (Inl e, _) \<Rightarrow> (Err e, s)
      | (Inr value, req) \<Rightarrow>
          (case pathParam G pathParams ''parent'' of
             Inl e \<Rightarrow> (Err e, s)
           | Inr parent \<Rightarrow>
               b_CreateStreamValue client ctx \<lparr>csv_Parent = parent, csv_Value = value\<rparr> s))"

definition local_request_KvStoreService_CreateStreamValue_0 :: "gateway_runtime \<Rightarrow> 'r backend \<Rightarrow> 'r gateway_call" where
  "local_request_KvStoreService_CreateStreamValue_0 G server ctx req pathParams s =
     (case decodeBody (Decode_bytes G) req of
        (Inl e, _) \<Rightarrow> (Err e, s)
      | (Inr value, req) \<Rightarrow>
          (case pathParam G pathParams ''parent'' of
             Inl e \<Rightarrow> (Err e, s)
           | Inr parent \<Rightarrow>
               b_CreateStreamValue server ctx \<lparr>csv_Parent = parent, csv_Value = value\<rparr> s))"

definition request_KvStoreService_GetValue_0 :: "gateway_runtime \<Rightarrow> 'r backend \<Rightarrow> 'r gateway_call" where
  "request_KvStoreService_GetValue_0 G client ctx req pathParams s =
     (let req = discardBody req in
        (case pathParam G pathParams ''name'' of
           Inl e \<Rightarrow> (Err e, s)
         | Inr name \<Rightarrow>
             b_GetValue client ctx \<lparr>gv_Name = name\<rparr> s))"

definition local_request_KvStoreService_GetValue_0 :: "gateway_runtime \<Rightarrow> 'r backend \<Rightarrow> 'r gateway_call" where
  "local_request_KvStoreService_GetValue_0 G server ctx req pathParams s =
     (case pathParam G pathParams ''name'' of
        Inl e \<Rightarrow> (Err e, s)
      | Inr name \<Rightarrow>
          b_GetValue server ctx \<lparr>gv_Name = name\<rparr> s)"

definition filter_KvStoreService_GetStreamValue_0 :: DoubleArray where
  "filter_KvStoreService_GetStreamValue_0 = \<lparr>da_Encoding = [(''name'', 0)], da_Base = [1, 1, 0], da_Check = [0, 1, 2]\<rparr>"

definition request_KvStoreService_GetStreamValue_0 :: "gateway_runtime \<Rightarrow> 'r backend \<Rightarrow> 'r gateway_call" where
  "request_KvStoreService_GetStreamValue_0 G client ctx req pathParams s =
     (let req = discardBody req in
        (case pathParam G pathParams ''name'' of
           Inl e \<Rightarrow> (Err e, s)
         | Inr name \<Rightarrow>
             (case queryParams G (Populate_GetStreamValue G) filter_KvStoreService_GetStreamValue_0 req \<lparr>gs_Name = name, gs_AuthToken = ''''\<rparr> of
                Inl e \<Rightarrow> (Err e, s)
              | Inr protoReq \<Rightarrow>
                  b_GetStreamValue client ctx protoReq s)))"

definition local_request_KvStoreService_GetStreamValue_0 :: "gateway_runtime \<Rightarrow> 'r backend \<Rightarrow> 'r gateway_call" where
  "local_request_KvStoreService_GetStreamValue_0 G server ctx req pathParams s =
     (case pathParam G pathParams ''name'' of
        Inl e \<Rightarrow> (Err e, s)
      | Inr name \<Rightarrow>
          (case queryParams G (Populate_GetStreamValue G) filter_KvStoreService_GetStreamValue_0 req \<lparr>gs_Name = name, gs_AuthToken = ''''\<rparr> of
             Inl e \<Rightarrow> (Err e, s)
           | Inr protoReq \<Rightarrow>
               b_GetStreamValue server ctx protoReq s))"

definition filter_KvStoreService_ListStreamValues_0 :: DoubleArray where
  "filter_KvStoreService_ListStreamValues_0 = \<lparr>da_Encoding = [(''parent'', 0)], da_Base = [1, 1, 0], da_Check = [0, 1, 2]\<rparr>"

definition request_KvStoreService_ListStreamValues_0 :: "gateway_runtime \<Rightarrow> 'r backend \<Rightarrow> 'r gateway_call" where
  "request_KvStoreService_ListStreamValues_0 G client ctx req pathParams s =
     (let req = discardBody req in
        (case pathParam G pathParams ''parent'' of
           Inl e \<Rightarrow> (Err e, s)
         | Inr parent \<Rightarrow>
             (case queryParams G (Populate_ListStreamValues G) filter_KvStoreService_ListStreamValues_0 req \<lparr>ls_Parent = parent, ls_AuthToken = '''', ls_PageSize = 0, ls_PageToken = ''''\<rparr> of
                Inl e \<Rightarrow> (Err e, s)
              | Inr protoReq \<Rightarrow>
                  b_ListStreamValues client ctx protoReq s)))"

definition local_request_KvStoreService_ListStreamValues_0 :: "gateway_runtime \<Rightarrow> 'r backend \<Rightarrow> 'r gateway_call" where
  "local_request_KvStoreService_ListStreamValues_0 G server ctx req pathParams s =
     (case pathParam G pathParams ''parent'' of
        Inl e \<Rightarrow> (Err e, s)
      | Inr parent \<Rightarrow>
          (case queryParams G (Populate_ListStreamValues G) filter_KvStoreService_ListStreamValues_0 req \<lparr>ls_Parent = parent, ls_AuthToken = '''', ls_PageSize = 0, ls_PageToken = ''''\<rparr> of
             Inl e \<Rightarrow> (Err e, s)
           | Inr protoReq \<Rightarrow>
               b_ListStreamValues server ctx protoReq s))"

definition request_KvStoreService_ProlongValue_0 :: "gateway_runtime \<Rightarrow> 'r backend \<Rightarrow> 'r gateway_call" where
  "request_KvStoreService_ProlongValue_0 G client ctx req pathParams s =
     (case decodeBody (Decode_ProlongValue G) req of
        (Inl e, _) \<Rightarrow> (Err e, s)
      | (Inr protoReq, req) \<Rightarrow>
          (case pathParam G pathParams ''name'' of
             Inl e \<Rightarrow> (Err e, s)
           | Inr name \<Rightarrow>
               b_ProlongValue client ctx (protoReq\<lparr>pv_Name := name\<rparr>) s))"

definition local_request_KvStoreService_ProlongValue_0 :: "gateway_runtime \<Rightarrow> 'r backend \<Rightarrow> 'r gateway_call" where
  "local_request_KvStoreService_ProlongValue_0 G server ctx req pathParams s =
     (case decodeBody (Decode_ProlongValue G) req of
        (Inl e, _) \<Rightarrow> (Err e, s)
      | (Inr protoReq, req) \<Rightarrow>
          (case pathParam G pathParams ''name'' of
             Inl e \<Rightarrow> (Err e, s)
           | Inr name \<Rightarrow>
               b_ProlongValue server ctx (protoReq\<lparr>pv_Name := name\<rparr>) s))"

definition filter_KvStoreService_SearchCid_0 :: DoubleArray where
  "filter_KvStoreService_SearchCid_0 = \<lparr>da_Encoding = [], da_Base = [], da_Check = []\<rparr>"

definition request_KvStoreService_SearchCid_0 :: "gateway_runtime \<Rightarrow> 'r backend \<Rightarrow> 'r gateway_call" where
  "request_KvStoreService_SearchCid_0 G client ctx req pathParams s =
     (let req = discardBody req in
        (case queryParams G (Populate_SearchCid G) filter_KvStoreService_SearchCid_0 req \<lparr>sc_Cid = ''''\<rparr> of
           Inl e \<Rightarrow> (Err e, s)
         | Inr protoReq \<Rightarrow>
             b_SearchCid client ctx protoReq s))"

definition local_request_KvStoreService_SearchCid_0 :: "gateway_runtime \<Rightarrow> 'r backend \<Rightarrow> 'r gateway_call" where
  "local_request_KvStoreService_SearchCid_0 G server ctx req pathParams s =
     (case queryParams G (Populate_SearchCid G) filter_KvStoreService_SearchCid_0 req \<lparr>sc_Cid = ''''\<rparr> of
        Inl e \<Rightarrow> (Err e, s)
      | Inr protoReq \<Rightarrow>
          b_SearchCid server ctx protoReq s)"

definition filter_KvStoreService_SearchInstance_0 :: DoubleArray where
  "filter_KvStoreService_SearchInstance_0 = \<lparr>da_Encoding = [], da_Base = [], da_Check = []\<rparr>"

definition request_KvStoreService_SearchInstance_0 :: "gateway_runtime \<Rightarrow> 'r backend \<Rightarrow> 'r gateway_call" where
  "request_KvStoreService_SearchInstance_0 G client ctx req pathParams s =
     (let req = discardBody req in
        (case queryParams G (Populate_SearchInstance G) filter_KvStoreService_SearchInstance_0 req \<lparr>si_VirtualService = None\<rparr> of
           Inl e \<Rightarrow> (Err e, s)
         | Inr protoReq \<Rightarrow>
             b_SearchInstance client ctx protoReq s))"

definition local_request_KvStoreService_SearchInstance_0 :: "gateway_runtime \<Rightarrow> 'r backend \<Rightarrow> 'r gateway_call" where
  "local_request_KvStoreService_SearchInstance_0 G server ctx req pathParams s =
     (case queryParams G (Populate_SearchInstance G) filter_KvStoreService_SearchInstance_0 req \<lparr>si_VirtualService = None\<rparr> of
        Inl e \<Rightarrow> (Err e, s)
      | Inr protoReq \<Rightarrow>
          b_SearchInstance server ctx protoReq s)"

definition request_KvStoreService_CreateSession_0 :: "gateway_runtime \<Rightarrow> 'r backend \<Rightarrow> 'r gateway_call" where
  "request_KvStoreService_CreateSession_0 G client ctx req pathParams s =
     (case decodeBody (Decode_CreateSession G) req of
        (Inl e, _) \<Rightarrow> (Err e, s)
      | (Inr protoReq, req) \<Rightarrow>
          b_CreateSession client ctx protoReq s)"

definition local_request_KvStoreService_CreateSession_0 :: "gateway_runtime \<Rightarrow> 'r backend \<Rightarrow> 'r gateway_call" where
  "local_request_KvStoreService_CreateSession_0 G server ctx req pathParams s =
     (case decodeBody (Decode_CreateSession G) req of
        (Inl e, _) \<Rightarrow> (Err e, s)
      | (Inr protoReq, req) \<Rightarrow>
          b_CreateSession server ctx protoReq s)"

definition request_KvStoreService_RegisterInstance_0 :: "gateway_runtime \<Rightarrow> 'r backend \<Rightarrow> 'r gateway_call" where
  "request_KvStoreService_RegisterInstance_0 G client ctx req pathParams s =
     (case decodeBody (Decode_RegisterInstance G) req of
        (Inl e, _) \<Rightarrow> (Err e, s)
      | (Inr protoReq, req) \<Rightarrow>
          b_RegisterInstance client ctx protoReq s)"

definition local_request_KvStoreService_RegisterInstance_0 :: "gateway_runtime \<Rightarrow> 'r backend \<Rightarrow> 'r gateway_call" where
  "local_request_KvStoreService_RegisterInstance_0 G server ctx req pathParams s =
     (case decodeBody (Decode_RegisterInstance G) req of
        (Inl e, _) \<Rightarrow> (Err e, s)
      | (Inr protoReq, req) \<Rightarrow>
          b_RegisterInstance server ctx protoReq s)"

definition filter_KvStoreService_Ping_0 :: DoubleArray where
  "filter_KvStoreService_Ping_0 = \<lparr>da_Encoding = [], da_Base = [], da_Check = []\<rparr>"

definition request_KvStoreService_Ping_0 :: "gateway_runtime \<Rightarrow> 'r backend \<Rightarrow> 'r gateway_call" where
  "request_KvStoreService_Ping_0 G client ctx req pathParams s =
     (let req = discardBody req in
        (case queryParams G (Populate_Ping G) filter_KvStoreService_Ping_0 req \<lparr>pi_Dummy = 0\<rparr> of
           Inl e \<Rightarrow> (Err e, s)
         | Inr protoReq \<Rightarrow>
             b_Ping client ctx protoReq s))"

definition local_request_KvStoreService_Ping_0 :: "gateway_runtime \<Rightarrow> 'r backend \<Rightarrow> 'r gateway_call" where
  "local_request_KvStoreService_Ping_0 G server ctx req pathParams s =
     (case queryParams G (Populate_Ping G) filter_KvStoreService_Ping_0 req \<lparr>pi_Dummy = 0\<rparr> of
        Inl e \<Rightarrow> (Err e, s)
      | Inr protoReq \<Rightarrow>
          b_Ping server ctx protoReq s)"

definition request_KvStoreService_DelegatedRouting_0 :: "gateway_runtime \<Rightarrow> 'r backend \<Rightarrow> 'r gateway_call" where
  "request_KvStoreService_DelegatedRouting_0 G client ctx req pathParams s =
     (let req = discardBody req in
        (case pathParam G pathParams ''cid'' of
           Inl e \<Rightarrow> (Err e, s)
         | Inr cid \<Rightarrow>
             b_DelegatedRouting client ctx \<lparr>dr_Cid = cid\<rparr> s))"

definition local_request_KvStoreService_DelegatedRouting_0 :: "gateway_runtime \<Rightarrow> 'r backend \<Rightarrow> 'r gateway_call" where
  "local_request_KvStoreService_DelegatedRouting_0 G server ctx req pathParams s =
     (case pathParam G pathParams ''cid'' of
        Inl e \<Rightarrow> (Err e, s)
      | Inr cid \<Rightarrow>
          b_DelegatedRouting server ctx \<lparr>dr_Cid = cid\<rparr> s)"

subsection \<open>The routes\<close>

definition pattern_KvStoreService_CreateValue_0 :: Pattern where
  "pattern_KvStoreService_CreateValue_0 = \<lparr>pt_ops = [2, 0, 2, 1], pt_pool = [''v1'', ''values''], pt_verb = ''create''\<rparr>"
definition pattern_KvStoreService_CreateStreamValue_0 :: Pattern where
  "pattern_KvStoreService_CreateStreamValue_0 = \<lparr>pt_ops = [2, 0, 2, 1, 1, 0, 2, 2, 1, 0, 4, 4, 5, 3, 2, 4], pt_pool = [''v1'', ''accounts'', ''streams'', ''parent'', ''values''], pt_verb = ''create''\<rparr>"
definition pattern_KvStoreService_GetValue_0 :: Pattern where
  "pattern_KvStoreService_GetValue_0 = \<lparr>pt_ops = [2, 0, 2, 1, 1, 0, 4, 2, 5, 2], pt_pool = [''v1'', ''values'', ''name''], pt_verb = ''''\<rparr>"
definition pattern_KvStoreService_GetStreamValue_0 :: Pattern where
  "pattern_KvStoreService_GetStreamValue_0 = \<lparr>pt_ops = [2, 0, 2, 1, 1, 0, 2, 2, 1, 0, 2, 3, 1, 0, 4, 6, 5, 4], pt_pool = [''v1'', ''accounts'', ''streams'', ''values'', ''name''], pt_verb = ''''\<rparr>"
definition pattern_KvStoreService_ListStreamValues_0 :: Pattern where
  "pattern_KvStoreService_ListStreamValues_0 = \<lparr>pt_ops = [2, 0, 2, 1, 1, 0, 2, 2, 1, 0, 4, 4, 5, 3, 2, 4], pt_pool = [''v1'', ''accounts'', ''streams'', ''parent'', ''values''], pt_verb = ''''\<rparr>"
definition pattern_KvStoreService_ProlongValue_0 :: Pattern where
  "pattern_KvStoreService_ProlongValue_0 = \<lparr>pt_ops = [2, 0, 2, 1, 1, 0, 2, 2, 1, 0, 4, 4, 5, 3], pt_pool = [''v1'', ''accounts'', ''values'', ''name''], pt_verb = ''prolong''\<rparr>"
definition pattern_KvStoreService_SearchCid_0 :: Pattern where
  "pattern_KvStoreService_SearchCid_0 = \<lparr>pt_ops = [2, 0, 2, 1], pt_pool = [''v1'', ''searchCid''], pt_verb = ''''\<rparr>"
definition pattern_KvStoreService_SearchInstance_0 :: Pattern where
  "pattern_KvStoreService_SearchInstance_0 = \<lparr>pt_ops = [2, 0, 2, 1], pt_pool = [''v1'', ''SearchInstance''], pt_verb = ''''\<rparr>"
definition pattern_KvStoreService_CreateSession_0 :: Pattern where
  "pattern_KvStoreService_CreateSession_0 = \<lparr>pt_ops = [2, 0, 2, 1], pt_pool = [''v1'', ''sessions''], pt_verb = ''create''\<rparr>"
definition pattern_KvStoreService_RegisterInstance_0 :: Pattern where
  "pattern_KvStoreService_RegisterInstance_0 = \<lparr>pt_ops = [2, 0, 2, 1], pt_pool = [''v1'', ''instance''], pt_verb = ''register''\<rparr>"
definition pattern_KvStoreService_Ping_0 :: Pattern where
  "pattern_KvStoreService_Ping_0 = \<lparr>pt_ops = [2, 0, 2, 1], pt_pool = [''v1'', ''ping''], pt_verb = ''''\<rparr>"
definition pattern_KvStoreService_DelegatedRouting_0 :: Pattern where
  "pattern_KvStoreService_DelegatedRouting_0 = \<lparr>pt_ops = [2, 0, 2, 1, 2, 2, 1, 0, 4, 1, 5, 3], pt_pool = [''routing'', ''v1'', ''providers'', ''cid''], pt_verb = ''''\<rparr>"

text \<open>
  What every registered function does with its request: annotate the context with the procedure and
  the template, call, and write the error or forward the response.
\<close>

definition gateway_handler ::
    "(http_Request \<Rightarrow> string \<Rightarrow> string \<Rightarrow> go_error + string list) \<Rightarrow> string \<Rightarrow> string \<Rightarrow> 'r gateway_call \<Rightarrow>
     http_Request \<Rightarrow> (string \<rightharpoonup> string) \<Rightarrow> 'r \<Rightarrow> response result \<times> 'r" where
  "gateway_handler annotate rpc template call req pathParams s =
     (case annotate req rpc template of
        Inl e \<Rightarrow> (Err e, s)
      | Inr annotatedContext \<Rightarrow>
          (case call annotatedContext req pathParams s of
             (Panic m, s1) \<Rightarrow> (Panic m, s1)
           | (Err e, s1) \<Rightarrow> (Err e, s1)
           | (Ok resp, s1) \<Rightarrow> (Ok resp, s1)))"

type_synonym 'r route = "string \<times> Pattern \<times> (http_Request \<Rightarrow> (string \<rightharpoonup> string) \<Rightarrow> 'r \<Rightarrow> response result \<times> 'r)"

definition local_route_CreateValue :: "gateway_runtime \<Rightarrow> 'r backend \<Rightarrow> 'r route" where
  "local_route_CreateValue G server =
     (''POST'', pattern_KvStoreService_CreateValue_0, gateway_handler (AnnotateIncomingContext G) ''/kvstore.v1.KvStoreService/CreateValue'' ''/v1/values:create''
        (local_request_KvStoreService_CreateValue_0 G server))"

definition local_route_CreateStreamValue :: "gateway_runtime \<Rightarrow> 'r backend \<Rightarrow> 'r route" where
  "local_route_CreateStreamValue G server =
     (''POST'', pattern_KvStoreService_CreateStreamValue_0, gateway_handler (AnnotateIncomingContext G) ''/kvstore.v1.KvStoreService/CreateStreamValue'' ''/v1/{parent=accounts/*/streams/*}/values:create''
        (local_request_KvStoreService_CreateStreamValue_0 G server))"

definition local_route_GetValue :: "gateway_runtime \<Rightarrow> 'r backend \<Rightarrow> 'r route" where
  "local_route_GetValue G server =
     (''GET'', pattern_KvStoreService_GetValue_0, gateway_handler (AnnotateIncomingContext G) ''/kvstore.v1.KvStoreService/GetValue'' ''/v1/{name=values/*}''
        (local_request_KvStoreService_GetValue_0 G server))"

definition local_route_GetStreamValue :: "gateway_runtime \<Rightarrow> 'r backend \<Rightarrow> 'r route" where
  "local_route_GetStreamValue G server =
     (''GET'', pattern_KvStoreService_GetStreamValue_0, gateway_handler (AnnotateIncomingContext G) ''/kvstore.v1.KvStoreService/GetStreamValue'' ''/v1/{name=accounts/*/streams/*/values/*}''
        (local_request_KvStoreService_GetStreamValue_0 G server))"

definition local_route_ListStreamValues :: "gateway_runtime \<Rightarrow> 'r backend \<Rightarrow> 'r route" where
  "local_route_ListStreamValues G server =
     (''GET'', pattern_KvStoreService_ListStreamValues_0, gateway_handler (AnnotateIncomingContext G) ''/kvstore.v1.KvStoreService/ListStreamValues'' ''/v1/{parent=accounts/*/streams/*}/values''
        (local_request_KvStoreService_ListStreamValues_0 G server))"

definition local_route_ProlongValue :: "gateway_runtime \<Rightarrow> 'r backend \<Rightarrow> 'r route" where
  "local_route_ProlongValue G server =
     (''POST'', pattern_KvStoreService_ProlongValue_0, gateway_handler (AnnotateIncomingContext G) ''/kvstore.v1.KvStoreService/ProlongValue'' ''/v1/{name=accounts/*/values/*}:prolong''
        (local_request_KvStoreService_ProlongValue_0 G server))"

definition local_route_SearchCid :: "gateway_runtime \<Rightarrow> 'r backend \<Rightarrow> 'r route" where
  "local_route_SearchCid G server =
     (''GET'', pattern_KvStoreService_SearchCid_0, gateway_handler (AnnotateIncomingContext G) ''/kvstore.v1.KvStoreService/SearchCid'' ''/v1/searchCid''
        (local_request_KvStoreService_SearchCid_0 G server))"

definition local_route_SearchInstance :: "gateway_runtime \<Rightarrow> 'r backend \<Rightarrow> 'r route" where
  "local_route_SearchInstance G server =
     (''GET'', pattern_KvStoreService_SearchInstance_0, gateway_handler (AnnotateIncomingContext G) ''/kvstore.v1.KvStoreService/SearchInstance'' ''/v1/SearchInstance''
        (local_request_KvStoreService_SearchInstance_0 G server))"

definition local_route_CreateSession :: "gateway_runtime \<Rightarrow> 'r backend \<Rightarrow> 'r route" where
  "local_route_CreateSession G server =
     (''POST'', pattern_KvStoreService_CreateSession_0, gateway_handler (AnnotateIncomingContext G) ''/kvstore.v1.KvStoreService/CreateSession'' ''/v1/sessions:create''
        (local_request_KvStoreService_CreateSession_0 G server))"

definition local_route_RegisterInstance :: "gateway_runtime \<Rightarrow> 'r backend \<Rightarrow> 'r route" where
  "local_route_RegisterInstance G server =
     (''POST'', pattern_KvStoreService_RegisterInstance_0, gateway_handler (AnnotateIncomingContext G) ''/kvstore.v1.KvStoreService/RegisterInstance'' ''/v1/instance:register''
        (local_request_KvStoreService_RegisterInstance_0 G server))"

definition local_route_Ping :: "gateway_runtime \<Rightarrow> 'r backend \<Rightarrow> 'r route" where
  "local_route_Ping G server =
     (''GET'', pattern_KvStoreService_Ping_0, gateway_handler (AnnotateIncomingContext G) ''/kvstore.v1.KvStoreService/Ping'' ''/v1/ping''
        (local_request_KvStoreService_Ping_0 G server))"

definition local_route_DelegatedRouting :: "gateway_runtime \<Rightarrow> 'r backend \<Rightarrow> 'r route" where
  "local_route_DelegatedRouting G server =
     (''GET'', pattern_KvStoreService_DelegatedRouting_0, gateway_handler (AnnotateIncomingContext G) ''/kvstore.v1.KvStoreService/DelegatedRouting'' ''/routing/v1/providers/{cid=*}''
        (local_request_KvStoreService_DelegatedRouting_0 G server))"

definition RegisterKvStoreServiceHandlerServer :: "gateway_runtime \<Rightarrow> 'r backend \<Rightarrow> 'r route list" where
  "RegisterKvStoreServiceHandlerServer G server = [
     local_route_CreateValue G server,
     local_route_CreateStreamValue G server,
     local_route_GetValue G server,
     local_route_GetStreamValue G server,
     local_route_ListStreamValues G server,
     local_route_ProlongValue G server,
     local_route_SearchCid G server,
     local_route_SearchInstance G server,
     local_route_CreateSession G server,
     local_route_RegisterInstance G server,
     local_route_Ping G server,
     local_route_DelegatedRouting G server]"

definition route_CreateValue :: "gateway_runtime \<Rightarrow> 'r backend \<Rightarrow> 'r route" where
  "route_CreateValue G client =
     (''POST'', pattern_KvStoreService_CreateValue_0, gateway_handler (AnnotateContext G) ''/kvstore.v1.KvStoreService/CreateValue'' ''/v1/values:create''
        (request_KvStoreService_CreateValue_0 G client))"

definition route_CreateStreamValue :: "gateway_runtime \<Rightarrow> 'r backend \<Rightarrow> 'r route" where
  "route_CreateStreamValue G client =
     (''POST'', pattern_KvStoreService_CreateStreamValue_0, gateway_handler (AnnotateContext G) ''/kvstore.v1.KvStoreService/CreateStreamValue'' ''/v1/{parent=accounts/*/streams/*}/values:create''
        (request_KvStoreService_CreateStreamValue_0 G client))"

definition route_GetValue :: "gateway_runtime \<Rightarrow> 'r backend \<Rightarrow> 'r route" where
  "route_GetValue G client =
     (''GET'', pattern_KvStoreService_GetValue_0, gateway_handler (AnnotateContext G) ''/kvstore.v1.KvStoreService/GetValue'' ''/v1/{name=values/*}''
        (request_KvStoreService_GetValue_0 G client))"

definition route_GetStreamValue :: "gateway_runtime \<Rightarrow> 'r backend \<Rightarrow> 'r route" where
  "route_GetStreamValue G client =
     (''GET'', pattern_KvStoreService_GetStreamValue_0, gateway_handler (AnnotateContext G) ''/kvstore.v1.KvStoreService/GetStreamValue'' ''/v1/{name=accounts/*/streams/*/values/*}''
        (request_KvStoreService_GetStreamValue_0 G client))"

definition route_ListStreamValues :: "gateway_runtime \<Rightarrow> 'r backend \<Rightarrow> 'r route" where
  "route_ListStreamValues G client =
     (''GET'', pattern_KvStoreService_ListStreamValues_0, gateway_handler (AnnotateContext G) ''/kvstore.v1.KvStoreService/ListStreamValues'' ''/v1/{parent=accounts/*/streams/*}/values''
        (request_KvStoreService_ListStreamValues_0 G client))"

definition route_ProlongValue :: "gateway_runtime \<Rightarrow> 'r backend \<Rightarrow> 'r route" where
  "route_ProlongValue G client =
     (''POST'', pattern_KvStoreService_ProlongValue_0, gateway_handler (AnnotateContext G) ''/kvstore.v1.KvStoreService/ProlongValue'' ''/v1/{name=accounts/*/values/*}:prolong''
        (request_KvStoreService_ProlongValue_0 G client))"

definition route_SearchCid :: "gateway_runtime \<Rightarrow> 'r backend \<Rightarrow> 'r route" where
  "route_SearchCid G client =
     (''GET'', pattern_KvStoreService_SearchCid_0, gateway_handler (AnnotateContext G) ''/kvstore.v1.KvStoreService/SearchCid'' ''/v1/searchCid''
        (request_KvStoreService_SearchCid_0 G client))"

definition route_SearchInstance :: "gateway_runtime \<Rightarrow> 'r backend \<Rightarrow> 'r route" where
  "route_SearchInstance G client =
     (''GET'', pattern_KvStoreService_SearchInstance_0, gateway_handler (AnnotateContext G) ''/kvstore.v1.KvStoreService/SearchInstance'' ''/v1/SearchInstance''
        (request_KvStoreService_SearchInstance_0 G client))"

definition route_CreateSession :: "gateway_runtime \<Rightarrow> 'r backend \<Rightarrow> 'r route" where
  "route_CreateSession G client =
     (''POST'', pattern_KvStoreService_CreateSession_0, gateway_handler (AnnotateContext G) ''/kvstore.v1.KvStoreService/CreateSession'' ''/v1/sessions:create''
        (request_KvStoreService_CreateSession_0 G client))"

definition route_RegisterInstance :: "gateway_runtime \<Rightarrow> 'r backend \<Rightarrow> 'r route" where
  "route_RegisterInstance G client =
     (''POST'', pattern_KvStoreService_RegisterInstance_0, gateway_handler (AnnotateContext G) ''/kvstore.v1.KvStoreService/RegisterInstance'' ''/v1/instance:register''
        (request_KvStoreService_RegisterInstance_0 G client))"

definition route_Ping :: "gateway_runtime \<Rightarrow> 'r backend \<Rightarrow> 'r route" where
  "route_Ping G client =
     (''GET'', pattern_KvStoreService_Ping_0, gateway_handler (AnnotateContext G) ''/kvstore.v1.KvStoreService/Ping'' ''/v1/ping''
        (request_KvStoreService_Ping_0 G client))"

definition route_DelegatedRouting :: "gateway_runtime \<Rightarrow> 'r backend \<Rightarrow> 'r route" where
  "route_DelegatedRouting G client =
     (''GET'', pattern_KvStoreService_DelegatedRouting_0, gateway_handler (AnnotateContext G) ''/kvstore.v1.KvStoreService/DelegatedRouting'' ''/routing/v1/providers/{cid=*}''
        (request_KvStoreService_DelegatedRouting_0 G client))"

definition RegisterKvStoreServiceHandlerClient :: "gateway_runtime \<Rightarrow> 'r backend \<Rightarrow> 'r route list" where
  "RegisterKvStoreServiceHandlerClient G client = [
     route_CreateValue G client,
     route_CreateStreamValue G client,
     route_GetValue G client,
     route_GetStreamValue G client,
     route_ListStreamValues G client,
     route_ProlongValue G client,
     route_SearchCid G client,
     route_SearchInstance G client,
     route_CreateSession G client,
     route_RegisterInstance G client,
     route_Ping G client,
     route_DelegatedRouting G client]"

lemmas server_routes =
  RegisterKvStoreServiceHandlerServer_def local_route_CreateValue_def local_route_CreateStreamValue_def
  local_route_GetValue_def local_route_GetStreamValue_def local_route_ListStreamValues_def local_route_ProlongValue_def
  local_route_SearchCid_def local_route_SearchInstance_def local_route_CreateSession_def local_route_RegisterInstance_def
  local_route_Ping_def local_route_DelegatedRouting_def

lemmas client_routes =
  RegisterKvStoreServiceHandlerClient_def route_CreateValue_def route_CreateStreamValue_def
  route_GetValue_def route_GetStreamValue_def route_ListStreamValues_def route_ProlongValue_def
  route_SearchCid_def route_SearchInstance_def route_CreateSession_def route_RegisterInstance_def
  route_Ping_def route_DelegatedRouting_def

definition RegisterKvStoreServiceHandler :: "gateway_runtime \<Rightarrow> 'r ClientConn \<Rightarrow> 'r route list" where
  "RegisterKvStoreServiceHandler G conn = RegisterKvStoreServiceHandlerClient G (grpc_NewKvStoreServiceClient conn)"

definition RegisterKvStoreServiceHandlerFromEndpoint ::
    "gateway_runtime \<Rightarrow> (string \<Rightarrow> go_error + 'r ClientConn) \<Rightarrow> string \<Rightarrow> go_error + 'r route list" where
  "RegisterKvStoreServiceHandlerFromEndpoint G NewClient endpoint =
     (case NewClient endpoint of
        Inl e \<Rightarrow> Inl e
      | Inr conn \<Rightarrow> Inr (RegisterKvStoreServiceHandler G conn))"

text \<open>The mux serves a request by the route it selects, or answers itself.\<close>

definition gateway_serve :: "gateway_runtime \<Rightarrow> 'r route list \<Rightarrow> http_Request \<Rightarrow> 'r \<Rightarrow> response result \<times> 'r" where
  "gateway_serve G routes req s =
     (case rt_Match G (map (\<lambda>(m, p, h). (m, p)) routes) req of
        Some (i, pathParams) \<Rightarrow>
          if i < length routes then snd (snd (routes ! i)) req pathParams s else (Err (Status NotFound ''Not Found''), s)
      | None \<Rightarrow> (Err (Status NotFound ''Not Found''), s))"

text \<open>\<open>run\<close> of \<open>cmd/gateway\<close>: dialling the endpoint of the service and serving.\<close>

definition echoEndpoint :: string where "echoEndpoint = ''localhost:50051''"

definition gateway_run ::
    "gateway_runtime \<Rightarrow> (string \<Rightarrow> go_error + 'r ClientConn) \<Rightarrow> string \<Rightarrow> go_error + (http_Request \<Rightarrow> 'r \<Rightarrow> response result \<times> 'r)" where
  "gateway_run G NewClient endpoint =
     (case RegisterKvStoreServiceHandlerFromEndpoint G NewClient endpoint of
        Inl e \<Rightarrow> Inl e
      | Inr routes \<Rightarrow> Inr (gateway_serve G routes))"

lemmas request_defs =
  request_KvStoreService_CreateValue_0_def request_KvStoreService_CreateStreamValue_0_def request_KvStoreService_GetValue_0_def
  request_KvStoreService_GetStreamValue_0_def request_KvStoreService_ListStreamValues_0_def request_KvStoreService_ProlongValue_0_def
  request_KvStoreService_SearchCid_0_def request_KvStoreService_SearchInstance_0_def request_KvStoreService_CreateSession_0_def
  request_KvStoreService_RegisterInstance_0_def request_KvStoreService_Ping_0_def request_KvStoreService_DelegatedRouting_0_def

lemmas local_request_defs =
  local_request_KvStoreService_CreateValue_0_def local_request_KvStoreService_CreateStreamValue_0_def local_request_KvStoreService_GetValue_0_def
  local_request_KvStoreService_GetStreamValue_0_def local_request_KvStoreService_ListStreamValues_0_def local_request_KvStoreService_ProlongValue_0_def
  local_request_KvStoreService_SearchCid_0_def local_request_KvStoreService_SearchInstance_0_def local_request_KvStoreService_CreateSession_0_def
  local_request_KvStoreService_RegisterInstance_0_def local_request_KvStoreService_Ping_0_def local_request_KvStoreService_DelegatedRouting_0_def

lemmas pattern_defs =
  pattern_KvStoreService_CreateValue_0_def pattern_KvStoreService_CreateStreamValue_0_def pattern_KvStoreService_GetValue_0_def
  pattern_KvStoreService_GetStreamValue_0_def pattern_KvStoreService_ListStreamValues_0_def pattern_KvStoreService_ProlongValue_0_def
  pattern_KvStoreService_SearchCid_0_def pattern_KvStoreService_SearchInstance_0_def pattern_KvStoreService_CreateSession_0_def
  pattern_KvStoreService_RegisterInstance_0_def pattern_KvStoreService_Ping_0_def pattern_KvStoreService_DelegatedRouting_0_def

subsection \<open>The two sets of handlers\<close>

text \<open>The form of a request without a body does not depend on what is in the body.\<close>

lemma ParseForm_discard [simp]: "hq_Method req = ''GET'' \<Longrightarrow> ParseForm G (discardBody req) = ParseForm G req"
  by (simp add: ParseForm_def discardBody_def)

lemma queryParams_discard [simp]:
  "hq_Method req = ''GET'' \<Longrightarrow> queryParams G populate flt (discardBody req) m = queryParams G populate flt req m"
  by (simp add: queryParams_def)

text \<open>Decoding and calling with the same service, a local handler does what its remote twin does.\<close>

lemma local_decoding:
  "local_request_KvStoreService_CreateValue_0 = request_KvStoreService_CreateValue_0"
  "local_request_KvStoreService_CreateStreamValue_0 = request_KvStoreService_CreateStreamValue_0"
  "local_request_KvStoreService_GetValue_0 = request_KvStoreService_GetValue_0"
  "local_request_KvStoreService_ProlongValue_0 = request_KvStoreService_ProlongValue_0"
  "local_request_KvStoreService_CreateSession_0 = request_KvStoreService_CreateSession_0"
  "local_request_KvStoreService_RegisterInstance_0 = request_KvStoreService_RegisterInstance_0"
  "local_request_KvStoreService_DelegatedRouting_0 = request_KvStoreService_DelegatedRouting_0"
  by (intro ext, simp add: request_defs local_request_defs)+

lemma local_query:
  assumes "hq_Method req = ''GET''"
  shows "local_request_KvStoreService_GetStreamValue_0 G B ctx req params s = request_KvStoreService_GetStreamValue_0 G B ctx req params s"
    "local_request_KvStoreService_ListStreamValues_0 G B ctx req params s = request_KvStoreService_ListStreamValues_0 G B ctx req params s"
    "local_request_KvStoreService_SearchCid_0 G B ctx req params s = request_KvStoreService_SearchCid_0 G B ctx req params s"
    "local_request_KvStoreService_SearchInstance_0 G B ctx req params s = request_KvStoreService_SearchInstance_0 G B ctx req params s"
    "local_request_KvStoreService_Ping_0 G B ctx req params s = request_KvStoreService_Ping_0 G B ctx req params s"
  using assms by (simp_all add: request_defs local_request_defs split: sum.split)

subsection \<open>What a handler sends\<close>

text \<open>A handler over a connection fails before it calls, or makes one call of the procedure of its message.\<close>

definition one_call :: "'r ClientConn \<Rightarrow> string \<Rightarrow> string list \<Rightarrow> 'r \<Rightarrow> response result \<times> 'r \<Rightarrow> bool" where
  "one_call cc procedure ctx s out \<longleftrightarrow>
     (\<exists>e. out = (Err e, s)) \<or> (\<exists>m. procedure = request_procedure m \<and> out = cc procedure ctx m s)"

lemma one_call_Err [simp]: "one_call cc procedure ctx s (Err e, s)"
  by (simp add: one_call_def)

lemma one_call_msg: "one_call cc (request_procedure m) ctx s (cc (request_procedure m) ctx m s)"
  by (auto simp: one_call_def)

lemmas one_call_msgs =
  one_call_msg [of _ "MCreateValue m" for m, simplified] one_call_msg [of _ "MCreateStreamValue m" for m, simplified]
  one_call_msg [of _ "MGetValue m" for m, simplified] one_call_msg [of _ "MGetStreamValue m" for m, simplified]
  one_call_msg [of _ "MListStreamValues m" for m, simplified] one_call_msg [of _ "MProlongValue m" for m, simplified]
  one_call_msg [of _ "MSearchCid m" for m, simplified] one_call_msg [of _ "MSearchInstance m" for m, simplified]
  one_call_msg [of _ "MCreateSession m" for m, simplified] one_call_msg [of _ "MRegisterInstance m" for m, simplified]
  one_call_msg [of _ "MPing m" for m, simplified] one_call_msg [of _ "MDelegatedRouting m" for m, simplified]

lemma request_one_call:
  fixes cc :: "'r ClientConn"
  defines "B \<equiv> grpc_NewKvStoreServiceClient cc"
  shows "one_call cc CreateValueProcedure ctx s (request_KvStoreService_CreateValue_0 G B ctx req params s)"
    "one_call cc CreateStreamValueProcedure ctx s (request_KvStoreService_CreateStreamValue_0 G B ctx req params s)"
    "one_call cc GetValueProcedure ctx s (request_KvStoreService_GetValue_0 G B ctx req params s)"
    "one_call cc GetStreamValueProcedure ctx s (request_KvStoreService_GetStreamValue_0 G B ctx req params s)"
    "one_call cc ListStreamValuesProcedure ctx s (request_KvStoreService_ListStreamValues_0 G B ctx req params s)"
    "one_call cc ProlongValueProcedure ctx s (request_KvStoreService_ProlongValue_0 G B ctx req params s)"
    "one_call cc SearchCidProcedure ctx s (request_KvStoreService_SearchCid_0 G B ctx req params s)"
    "one_call cc SearchInstanceProcedure ctx s (request_KvStoreService_SearchInstance_0 G B ctx req params s)"
    "one_call cc CreateSessionProcedure ctx s (request_KvStoreService_CreateSession_0 G B ctx req params s)"
    "one_call cc RegisterInstanceProcedure ctx s (request_KvStoreService_RegisterInstance_0 G B ctx req params s)"
    "one_call cc PingProcedure ctx s (request_KvStoreService_Ping_0 G B ctx req params s)"
    "one_call cc DelegatedRoutingProcedure ctx s (request_KvStoreService_DelegatedRouting_0 G B ctx req params s)"
  by (simp_all add: B_def grpc_NewKvStoreServiceClient_def request_defs Let_def one_call_msgs split: sum.split prod.split)

lemma gateway_handler_one_call:
  assumes "\<And>ctx. one_call cc procedure ctx s (call ctx req params s)"
  shows "(\<exists>e. gateway_handler annotate procedure template call req params s = (Err e, s)) \<or>
    (\<exists>ctx m. annotate req procedure template = Inr ctx \<and> procedure = request_procedure m \<and>
       gateway_handler annotate procedure template call req params s = cc procedure ctx m s)"
proof (cases "annotate req procedure template")
  case (Inl e)
  then show ?thesis by (simp add: gateway_handler_def)
next
  case (Inr ctx)
  then have "gateway_handler annotate procedure template call req params s = call ctx req params s"
    by (auto simp: gateway_handler_def split: prod.split result.split)
  with Inr assms [of ctx] show ?thesis by (auto simp: one_call_def)
qed

text \<open>Every route, served over a connection, is one call of the procedure it is annotated with.\<close>

definition route_one_call :: "gateway_runtime \<Rightarrow> 'r ClientConn \<Rightarrow> 'r route \<Rightarrow> bool" where
  "route_one_call G cc rt \<longleftrightarrow>
     (\<forall>req params s. (\<exists>e. snd (snd rt) req params s = (Err e, s)) \<or>
        (\<exists>ctx m template. AnnotateContext G req (request_procedure m) template = Inr ctx \<and>
           snd (snd rt) req params s = cc (request_procedure m) ctx m s))"

lemma route_one_callI:
  assumes "rpc = procedure" and "\<And>ctx req params s. one_call cc procedure ctx s (call ctx req params s)"
  shows "route_one_call G cc (httpMethod, pattern, gateway_handler (AnnotateContext G) rpc template call)"
  unfolding route_one_call_def assms(1) snd_conv
proof (intro allI)
  fix req params s
  show "(\<exists>e. gateway_handler (AnnotateContext G) procedure template call req params s = (Err e, s)) \<or>
      (\<exists>ctx m template'. AnnotateContext G req (request_procedure m) template' = Inr ctx \<and>
         gateway_handler (AnnotateContext G) procedure template call req params s = cc (request_procedure m) ctx m s)"
    using gateway_handler_one_call [of cc procedure s call req params "AnnotateContext G" template, OF assms(2)] by blast
qed

lemma routes_one_call: "list_all (route_one_call G cc) (RegisterKvStoreServiceHandler G cc)"
  unfolding RegisterKvStoreServiceHandler_def client_routes list.pred_inject
  by (intro conjI; ((rule route_one_callI [rotated], rule request_one_call, simp add: procedure_defs) | simp))

lemma gateway_serve_one_call:
  fixes G :: gateway_runtime and cc :: "'r ClientConn"
  defines "out \<equiv> \<lambda>req s. gateway_serve G (RegisterKvStoreServiceHandler G cc) req s"
  shows "(\<exists>e. out req s = (Err e, s)) \<or>
    (\<exists>ctx m template. AnnotateContext G req (request_procedure m) template = Inr ctx \<and> out req s = cc (request_procedure m) ctx m s)"
proof (cases "rt_Match G (map (\<lambda>(m, p, h). (m, p)) (RegisterKvStoreServiceHandler G cc)) req")
  case None
  then show ?thesis by (simp add: out_def gateway_serve_def)
next
  case (Some x)
  obtain i params where x: "x = (i, params)" by (cases x)
  show ?thesis
  proof (cases "i < length (RegisterKvStoreServiceHandler G cc)")
    case True
    with routes_one_call [of G cc] have "route_one_call G cc (RegisterKvStoreServiceHandler G cc ! i)"
      by (simp add: list_all_length)
    with Some x True show ?thesis by (simp add: out_def gateway_serve_def route_one_call_def)
  next
    case False
    with Some x show ?thesis by (simp add: out_def gateway_serve_def)
  qed
qed

text \<open>The route for prolonging: its message has the name that the template binds.\<close>

lemma prolong_route:
  assumes "i < length (RegisterKvStoreServiceHandler G cc)"
    and "fst (snd (RegisterKvStoreServiceHandler G cc ! i)) = pattern_KvStoreService_ProlongValue_0"
  shows "RegisterKvStoreServiceHandler G cc ! i =
    (''POST'', pattern_KvStoreService_ProlongValue_0,
     gateway_handler (AnnotateContext G) ProlongValueProcedure ''/v1/{name=accounts/*/values/*}:prolong''
       (request_KvStoreService_ProlongValue_0 G (grpc_NewKvStoreServiceClient cc)))"
proof -
  have "i = 0 \<or> i = 1 \<or> i = 2 \<or> i = 3 \<or> i = 4 \<or> i = 5 \<or> i = 6 \<or> i = 7 \<or> i = 8 \<or> i = 9 \<or> i = 10 \<or> i = 11"
    using assms(1) by (simp add: RegisterKvStoreServiceHandler_def client_routes) arith
  with assms(2) show ?thesis
    by (auto simp: RegisterKvStoreServiceHandler_def client_routes pattern_defs procedure_defs)
qed

lemma prolong_call:
  assumes "runtime_String G name = Inr name" and "params ''name'' = Some name"
  shows "(\<exists>e. gateway_handler (AnnotateContext G) rpc template
      (request_KvStoreService_ProlongValue_0 G (grpc_NewKvStoreServiceClient cc)) req params s = (Err e, s)) \<or>
    (\<exists>ctx m. pv_Name m = name \<and> gateway_handler (AnnotateContext G) rpc template
      (request_KvStoreService_ProlongValue_0 G (grpc_NewKvStoreServiceClient cc)) req params s =
        cc ProlongValueProcedure ctx (MProlongValue m) s)"
proof (cases "AnnotateContext G req rpc template")
  case (Inl e)
  then show ?thesis by (simp add: gateway_handler_def)
next
  case (Inr ctx)
  then have h: "gateway_handler (AnnotateContext G) rpc template
      (request_KvStoreService_ProlongValue_0 G (grpc_NewKvStoreServiceClient cc)) req params s =
      request_KvStoreService_ProlongValue_0 G (grpc_NewKvStoreServiceClient cc) ctx req params s"
    by (auto simp: gateway_handler_def split: prod.split result.split)
  show ?thesis
  proof (cases "decodeBody (Decode_ProlongValue G) req")
    case (Pair r req')
    show ?thesis
    proof (cases r)
      case (Inl e)
      with Pair h show ?thesis by (simp add: request_defs)
    next
      case (Inr m)
      with Pair h assms have "gateway_handler (AnnotateContext G) rpc template
          (request_KvStoreService_ProlongValue_0 G (grpc_NewKvStoreServiceClient cc)) req params s =
          cc ProlongValueProcedure ctx (MProlongValue (m\<lparr>pv_Name := name\<rparr>)) s"
        by (simp add: request_defs pathParam_def grpc_NewKvStoreServiceClient_def)
      then show ?thesis by (intro disjI2 exI [of _ ctx] exI [of _ "m\<lparr>pv_Name := name\<rparr>"]) simp
    qed
  qed
qed

text \<open>The state after a request: as it was, as the handler leaves it, or that after the charge, with or without the handler.\<close>

lemma serve_states:
  fixes W :: "'r world" and srv :: Server and uuid :: string and now :: int and req :: AnyRequest
  defines "handled \<equiv> \<lambda>cs s. snd (NewConnectValidationInterceptor (wValidate W) (svc W srv uuid) now cs req s)"
    and "charged \<equiv> \<lambda>j p s. snd (sm_DeductSessionBalance (wR W) j p s)"
  obtains "snd (serve W srv uuid now req s) = s"
    | cs where "snd (serve W srv uuid now req s) = handled cs s"
    | j p where "plan W srv now req = Inr (j, p)" and "snd (serve W srv uuid now req s) = charged j p s"
    | j p cs where "plan W srv now req = Inr (j, p)" and "snd (serve W srv uuid now req s) = handled cs (charged j p s)"
proof (cases "routed req \<and> \<not> open_door srv req \<and> (\<exists>q. plan W srv now req = Inr q)")
  case False
  then have "snd (serve W srv uuid now req s) = s \<or> snd (serve W srv uuid now req s) = handled None s"
    by (auto simp: serve_plan handled_def split: sum.split)
  with that(1,2) show ?thesis by blast
next
  case True
  then obtain j p where p: "plan W srv now req = Inr (j, p)" by auto
  have "snd (serve W srv uuid now req s) = charged j p s \<or> (\<exists>cs. snd (serve W srv uuid now req s) = handled cs (charged j p s))"
    using True p by (cases "sm_DeductSessionBalance (wR W) j p s"; cases "fst (sm_DeductSessionBalance (wR W) j p s)")
      (auto simp: serve_plan handled_def charged_def)
  with that(3,4) p show ?thesis by blast
qed

context service_world
begin

text \<open>Prolonging under a name touches that key and the session that pays.\<close>

lemma serve_prolong_other:
  assumes i: "service_inv (wL W) view up s" and m: "AnyMsg req = MProlongValue m"
    and k: "k \<noteq> pv_Name m" "\<And>j. k \<noteq> session_key j"
  shows "view (snd (serve W srv uuid now req s)) k = view s k"
proof -
  have handler: "view (snd (NewConnectValidationInterceptor (wValidate W) (svc W srv uuid) now cs req t)) k = view t k" if "up t" for cs t
    using ProlongValue_other [OF that, of "wL W" m] k(1) m by (simp add: validated_state svc_def)
  have u: "up s" using i by (simp add: service_inv_def sessions_wf_def)
  have w: "sessions_wf view up s" "sessions_permanent (view s)" using i by (simp_all add: service_inv_def)
  show ?thesis
  proof (cases rule: serve_states [of W srv uuid now req s])
    case 1
    then show ?thesis by simp
  next
    case 2
    then show ?thesis using handler [OF u] by simp
  next
    case 3
    then show ?thesis using deduct_sessions_only [OF w plan_ok [OF 3(1)]] k(2) by (auto simp: sessions_only_def)
  next
    case (4 j p)
    let ?t = "snd (sm_DeductSessionBalance (wR W) j p s)"
    have "up ?t" using deduct_inv [OF i plan_ok [OF 4(1)], of j] by (simp add: service_inv_def sessions_wf_def)
    then show ?thesis
      using 4 handler deduct_sessions_only [OF w plan_ok [OF 4(1)], of j] k(2) by (auto simp: sessions_only_def)
  qed
qed

end

subsection \<open>Property\<close>

text \<open>
  C32. A server in the process and a client of it behave alike behind the gateway. The two functions that
  register the handlers register the same methods and path templates, and for every request of its
  method each handler, given the same service and metadata, produces the same answer and the same effect,
  although one drains bodies and the other does not.
\<close>

theorem gateway_registrations_agree:
  assumes "AnnotateContext G = AnnotateIncomingContext G"
  shows "list_all2 (\<lambda>(m, p, h) (m', p', h'). m = m' \<and> p = p' \<and> (\<forall>req params s. hq_Method req = m \<longrightarrow> h req params s = h' req params s))
    (RegisterKvStoreServiceHandlerClient G B) (RegisterKvStoreServiceHandlerServer G B)"
  unfolding client_routes server_routes
  using assms by (simp add: gateway_handler_def local_decoding local_query split: sum.split)

definition demo_runtime :: gateway_runtime where
  "demo_runtime = \<lparr>
     Decode_bytes = (\<lambda>b. (b, None, '''')),
     Decode_ProlongValue = (\<lambda>b. (\<lparr>pv_Name = '''', pv_Ttl = Some \<lparr>d_Seconds = 60, d_Nanos = 0\<rparr>, pv_MaxSize = 100\<rparr>, None, '''')),
     Decode_CreateSession = (\<lambda>b. (\<lparr>cs_Jwt = b\<rparr>, None, '''')),
     Decode_RegisterInstance = (\<lambda>b. (\<lparr>ri_Advertisement = None\<rparr>, None, '''')),
     Populate_CreateValue = (\<lambda>m form flt. Inr m), Populate_GetStreamValue = (\<lambda>m form flt. Inr m),
     Populate_ListStreamValues = (\<lambda>m form flt. Inr m), Populate_SearchCid = (\<lambda>m form flt. Inr (m\<lparr>sc_Cid := concat (form ''cid'')\<rparr>)),
     Populate_SearchInstance = (\<lambda>m form flt. Inr m), Populate_Ping = (\<lambda>m form flt. Inr m),
     runtime_String = Inr,
     AnnotateContext = (\<lambda>req rpc template. Inr (hq_Authorization req)),
     AnnotateIncomingContext = (\<lambda>req rpc template. Inr (hq_Authorization req)),
     rt_postForm = (\<lambda>ct b. ((\<lambda>_. []), None)),
     rt_Match = (\<lambda>routes req.
       if hq_Path req = ''/v1/ping'' then Some (10, Map.empty)
       else if hq_Path req = ''/v1/accounts/bob/values/x:prolong'' then Some (5, [''name'' \<mapsto> ''accounts/bob/values/x''])
       else None)\<rparr>"

definition demo_conn :: "mem ClientConn" where
  "demo_conn path ctx m = serve demo_world demo_server ''uuid'' 0 \<lparr>Procedure = path, AuthorizationHeader = ctx, AnyMsg = m\<rparr>"

definition demo_rest_ping :: http_Request where
  "demo_rest_ping = \<lparr>hq_Method = ''GET'', hq_Path = ''/v1/ping'', hq_RawQuery = '''', hq_ContentType = '''',
     hq_Authorization = [], hq_Body = ''ignored''\<rparr>"

theorem gateway_registrations_agree_witness:
  "snd (snd (RegisterKvStoreServiceHandlerClient demo_runtime (grpc_NewKvStoreServiceClient demo_conn) ! 10)) demo_rest_ping Map.empty demo_mem =
   snd (snd (RegisterKvStoreServiceHandlerServer demo_runtime (grpc_NewKvStoreServiceClient demo_conn) ! 10)) demo_rest_ping Map.empty demo_mem"
proof -
  let ?B = "grpc_NewKvStoreServiceClient demo_conn"
  have a: "AnnotateContext demo_runtime = AnnotateIncomingContext demo_runtime" by (simp add: demo_runtime_def)
  have l: "10 < length (RegisterKvStoreServiceHandlerClient demo_runtime ?B)" by (simp add: client_routes)
  have m: "fst (RegisterKvStoreServiceHandlerClient demo_runtime ?B ! 10) = hq_Method demo_rest_ping"
    by (simp add: client_routes demo_rest_ping_def)
  from list_all2_nthD [OF gateway_registrations_agree [OF a, of ?B] l] m show ?thesis
    by (auto simp: case_prod_beta)
qed

end
