(* ===== verification/Genjwt.thy ===== *)
theory Genjwt
  imports Configuration Streams Net_Url
begin

section \<open>The login service (\<open>cmd/genjwt\<close>) and its mock identity provider (\<open>cmd/mock_op\<close>)\<close>

text \<open>
  The login service runs an OAuth flow with PKCE and hands out a JWT for the e-mail address of the
  user, signed with the secret it shares with the server. The settings library (viper), the OAuth
  package and the identity provider behind it are parameters. What a handler writes to the response
  is a list of writes; random values and the time are arguments.
\<close>

subsection \<open>The code of \<open>genjwt\<close>\<close>

record oauth2_Config =
  oa_ClientID :: string
  oa_ClientSecret :: string
  oa_RedirectURL :: string
  oa_Scopes :: "string list"
  oa_TokenURL :: string
  oa_AuthURL :: string

text \<open>The fields that are read; the unexported ones have no other value than those set below.\<close>

record genjwt_Config =
  gj_servicePort :: int
  gj_redisHost :: string
  gj_redisPort :: int
  gj_oauth2Config :: oauth2_Config
  gj_SecretSeedEncoded :: string
  gj_jwtSecret :: bytes
  gj_QuotaAuthorityDid :: string
  gj_isTest :: bool

record viper =
  vReadInConfig :: "go_error option"
  vUnmarshal :: "go_error + genjwt_Config"
  vGetUint16 :: "string \<Rightarrow> int"
  vGetBool :: "string \<Rightarrow> bool"
  vGetString :: "string \<Rightarrow> string"

text \<open>\<open>google.Endpoint\<close> is given by its token and authorisation URLs.\<close>

definition genjwt_loadConfig :: "crypto_libs \<Rightarrow> viper \<Rightarrow> string \<times> string \<Rightarrow> genjwt_Config result" where
  "genjwt_loadConfig C V googleEndpoint =
     (case vReadInConfig V of
        Some e \<Rightarrow> Panic ''config: %v''
      | None \<Rightarrow>
     (case vUnmarshal V of
        Inl e \<Rightarrow> Panic ''config: %v''
      | Inr config \<Rightarrow>
          let config = config\<lparr>gj_servicePort := vGetUint16 V ''SERVICE_PORT''\<rparr> in
     (case base64_DecodeString (gj_SecretSeedEncoded config) of
        Inl e \<Rightarrow> Panic ''config: failed to parse secret: %v''
      | Inr seed \<Rightarrow>
     (case DeriveKey C seed ''JwtSecret'' of
        Inl e \<Rightarrow> Panic ''config: failed to derive key: %v''
      | Inr jwtSecret \<Rightarrow>
          let isTest = vGetBool V ''IS_TEST'';
              endpoint = (if isTest then (''http://localhost:8081/oauth2/token'', ''http://localhost:8081/oauth2/auth'')
                          else googleEndpoint)
          in Ok (config\<lparr>gj_jwtSecret := jwtSecret, gj_isTest := isTest,
               gj_redisHost := vGetString V ''REDIS_HOST'', gj_redisPort := vGetUint16 V ''REDIS_PORT'',
               gj_oauth2Config := \<lparr>oa_ClientID = vGetString V ''CLIENT_ID'', oa_ClientSecret = vGetString V ''CLIENT_SECRET'',
                 oa_RedirectURL = vGetString V ''REDIRECT_URL'', oa_Scopes = [''openid'', ''email''],
                 oa_TokenURL = fst endpoint, oa_AuthURL = snd endpoint\<rparr>\<rparr>)))))"

datatype http_write =
    HTTPError string int
  | Redirect string int
  | Body string
  | JSONBody "(string \<times> string) list"

definition handleHome :: "http_write list" where
  "handleHome = [Body ''<html><body><a href=\"/login\">Login with Google</a></body></html>'']"

text \<open>A decoded JSON value, as far as a type assertion to \<open>string\<close> tells them apart.\<close>

datatype json = JString string | JOther

record oauth2_lib =
  AuthCodeURL :: "oauth2_Config \<Rightarrow> string \<Rightarrow> string \<Rightarrow> string"
  Exchange :: "oauth2_Config \<Rightarrow> string \<Rightarrow> string \<Rightarrow> go_error + string"
  clientGet :: "oauth2_Config \<Rightarrow> string \<Rightarrow> string \<Rightarrow> go_error + int \<times> (go_error + (string \<rightharpoonup> json))"

definition verifier_key :: "string \<Rightarrow> string" where
  "verifier_key state = ''verifier/'' @ state"

text \<open>There is no return after the error, so the redirect is written all the same.\<close>

definition handleLogin ::
    "'r redis_client \<Rightarrow> oauth2_lib \<Rightarrow> genjwt_Config \<Rightarrow> string \<Rightarrow> string \<Rightarrow> 'r \<Rightarrow> http_write list \<times> 'r" where
  "handleLogin R A cfg verifier state s =
     (let ttl = 300 * Second;
          url = AuthCodeURL A (gj_oauth2Config cfg) state verifier
      in case rSet R (verifier_key state) verifier ttl s of
           (Inl e, s1) \<Rightarrow> ([HTTPError ''failed to save code verifier'' 500, Redirect url 302], s1)
         | (Inr _, s1) \<Rightarrow> ([Redirect url 302], s1))"

definition getUserInfo :: "oauth2_lib \<Rightarrow> genjwt_Config \<Rightarrow> string \<Rightarrow> go_error + (string \<rightharpoonup> json)" where
  "getUserInfo A cfg token =
     (let userInfoURL = (if gj_isTest cfg then ''http://localhost:8081/tokeninfo'' else ''https://oauth2.googleapis.com/tokeninfo'')
      in case clientGet A (gj_oauth2Config cfg) token userInfoURL of
           Inl e \<Rightarrow> Inl e
         | Inr (statusCode, body) \<Rightarrow>
             if statusCode \<noteq> 200 then Inl (Errorf ''failed to get user info: %s'')
             else body)"

definition getUserSub :: "oauth2_lib \<Rightarrow> genjwt_Config \<Rightarrow> string \<Rightarrow> go_error + string" where
  "getUserSub A cfg token =
     (case getUserInfo A cfg token of
        Inl e \<Rightarrow> Inl (Errorf ''failed to get user info: %v'')
      | Inr userInfo \<Rightarrow>
          (case userInfo ''email'' of
             Some (JString email) \<Rightarrow> Inr email
           | _ \<Rightarrow> Inl (Errorf ''failed to parse email field'')))"

definition login_claims :: "jwt_lib \<Rightarrow> genjwt_Config \<Rightarrow> string \<Rightarrow> int \<Rightarrow> string \<Rightarrow> RegisteredClaims" where
  "login_claims J cfg uuid now subject =
     (let serviceIdentifier = gj_QuotaAuthorityDid cfg in
      \<lparr>rc_Issuer = serviceIdentifier, rc_Subject = subject, rc_Audience = [serviceIdentifier],
       rc_ExpiresAt = Some (NewNumericDate J (now + 24 * 3600 * Second)),
       rc_NotBefore = Some (NewNumericDate J now), rc_IssuedAt = Some (NewNumericDate J now), rc_ID = uuid\<rparr>)"

definition generateJwtHs256 :: "jwt_lib \<Rightarrow> genjwt_Config \<Rightarrow> string \<Rightarrow> int \<Rightarrow> string \<Rightarrow> go_error + string" where
  "generateJwtHs256 J cfg uuid now subject =
     SignedString J \<lparr>tk_Method = SigningMethodHMAC ''HS256'', tk_Kid = None, tk_Claims = Registered (login_claims J cfg uuid now subject)\<rparr>
       (Secret (gj_jwtSecret cfg))"

definition handleCallback ::
    "'r redis_client \<Rightarrow> jwt_lib \<Rightarrow> oauth2_lib \<Rightarrow> genjwt_Config \<Rightarrow> string \<Rightarrow> int \<Rightarrow> string \<Rightarrow> string \<Rightarrow> 'r \<Rightarrow> http_write list \<times> 'r" where
  "handleCallback R J A cfg uuid now code state s =
     (case rGetDel R (verifier_key state) s of
        (Inl e, s1) \<Rightarrow> ([HTTPError ''failed to get verifier: '' 500], s1)
      | (Inr verifier, s1) \<Rightarrow>
          (case Exchange A (gj_oauth2Config cfg) code verifier of
             Inl e \<Rightarrow> ([HTTPError ''failed to exchange token: '' 500], s1)
           | Inr token \<Rightarrow>
               (case getUserSub A cfg token of
                  Inl e \<Rightarrow> ([HTTPError ''failed to get user sub: '' 500], s1)
                | Inr subject \<Rightarrow>
                    (case generateJwtHs256 J cfg uuid now subject of
                       Inl e \<Rightarrow> ([HTTPError '''' 500], s1)
                     | Inr jwt \<Rightarrow> ([Body jwt], s1)))))"

text \<open>The patterns \<open>main\<close> registers: \<open>/\<close> matches every path that no other pattern matches.\<close>

datatype genjwt_route = RouteHome | RouteLogin | RouteCallback

definition genjwt_mux :: "string \<Rightarrow> genjwt_route" where
  "genjwt_mux path =
     (if path = ''/v1/login'' then RouteLogin else if path = ''/v1/callback'' then RouteCallback else RouteHome)"

subsection \<open>The code of \<open>mock_op\<close>\<close>

definition handleAuth :: "string \<Rightarrow> string \<Rightarrow> http_write list" where
  "handleAuth httpMethod state =
     (if httpMethod = ''GET''
      then [Redirect (''http://localhost:8080/v1/callback?code=abc-123&state='' @ QueryEscape state) 301]
      else [])"

definition handleToken :: "http_write list" where
  "handleToken = [JSONBody [(''access_token'', ''foo'')]]"

definition handleUserInfo :: "http_write list" where
  "handleUserInfo = [JSONBody
     [(''azp'', ''32553540559.apps.googleusercontent.com''),
      (''aud'', ''32553540559.apps.googleusercontent.com''),
      (''sub'', ''111260650121245072906''),
      (''scope'', ''openid https://www.googleapis.com/auth/userinfo.email https://www.googleapis.com/auth/cloud-platform https://www.googleapis.com/auth/accounts.reauth''),
      (''exp'', ''1650056632''),
      (''expires_in'', ''3488''),
      (''email'', ''bob@op2.com''),
      (''email_verified'', ''true'')]]"

subsection \<open>Logging in\<close>

text \<open>The link of the home page leads back to the home page.\<close>

lemma home_link_loops: "handleHome = [Body ''<html><body><a href=\"/login\">Login with Google</a></body></html>'']"
    "genjwt_mux ''/login'' = RouteHome"
  by (simp_all add: handleHome_def genjwt_mux_def)

text \<open>The mock identity provider sends the browser back with the state it was given, whatever its characters.\<close>

lemma mock_redirect_returns_state:
  "\<exists>q. handleAuth ''GET'' st = [Redirect (''http://localhost:8080/v1/callback?'' @ q) 301] \<and>
     fst (ParseQuery q) ''code'' = [''abc-123''] \<and> fst (ParseQuery q) ''state'' = [st]"
proof (intro exI conjI)
  let ?q = "(''code'' @ CHR ''='' # QueryEscape ''abc-123'') @ CHR ''&'' # (''state'' @ CHR ''='' # QueryEscape st)"
  have "QueryEscape ''abc-123'' = ''abc-123''" by code_simp
  then show "handleAuth ''GET'' st = [Redirect (''http://localhost:8080/v1/callback?'' @ ?q) 301]" by (simp add: handleAuth_def)
  have "list_all unreserved ''code''" "list_all unreserved ''state''" by code_simp+
  then have "ParseQuery ?q = ((\<lambda>_. [])(''code'' := [''abc-123''], ''state'' := [st]), None)" by (intro ParseQuery_params) simp_all
  then show "fst (ParseQuery ?q) ''code'' = [''abc-123'']" "fst (ParseQuery ?q) ''state'' = [st]"
    by (simp_all only: fst_conv fun_upd_apply) simp_all
qed

lemma genjwt_secret:
  assumes "genjwt_loadConfig C V g = Ok cfg"
  obtains seed where "base64_DecodeString (gj_SecretSeedEncoded cfg) = Inr seed" and "DeriveKey C seed ''JwtSecret'' = Inr (gj_jwtSecret cfg)"
  using assms that by (auto simp: genjwt_loadConfig_def Let_def split: option.splits sum.splits)

lemma pkv_secret:
  assumes "LoadConfig L C readErr (Inr conf0) = Ok conf"
  obtains seed where "base64_DecodeString (cf_SecretSeedEncoded conf0) = Inr seed" and "DeriveKey C seed ''JwtSecret'' = Inr (cf_JwtSecret conf)"
  using assms that by (auto simp: LoadConfig_def Let_def split: option.splits sum.splits result.splits)

lemma login_token_verifies:
  assumes "jwt_contract J decode verifies" and "jwt_signs J decode verifies" and "gj_jwtSecret cfg = am_jwtSecret am"
    and "generateJwtHs256 J cfg uuid now subject = Inr tok"
    and "NewNumericDate J now \<le> now'" and "now' < NewNumericDate J (now + 24 * 3600 * Second)"
  shows "VerifyAndParseJwt J am tok (Registered empty_registered) True now' = Ok (Registered (login_claims J cfg uuid now subject))"
proof -
  let ?t = "\<lparr>tk_Method = SigningMethodHMAC ''HS256'', tk_Kid = None, tk_Claims = Registered (login_claims J cfg uuid now subject)\<rparr>"
  have "SignedString J ?t (Secret (am_jwtSecret am)) = Inr tok" using assms(3,4) by (simp add: generateJwtHs256_def)
  from assms(2) [unfolded jwt_signs_def, rule_format, OF this, of "Registered empty_registered"]
  have d: "decode tok (Registered empty_registered) = Some ?t" "verifies (SigningMethodHMAC ''HS256'') (Secret (am_jwtSecret am)) tok"
    by simp_all
  have "VerifyAndParseJwt J am tok (Registered empty_registered) True now' = Ok (tk_Claims ?t)"
    using d(2) assms(5,6) by (intro verify_self_accept [OF assms(1) d(1)]) (auto simp: dates_valid_def login_claims_def Let_def)
  then show ?thesis by simp
qed

context redis_contract
begin

text \<open>The verifier is gone after a callback, whatever its outcome.\<close>

lemma callback_consumes:
  assumes u: "up s" and v: "\<And>x e. view s (verifier_key state) = Some (x, e) \<Longrightarrow> \<exists>w. x = RStr w"
  shows "up (snd (handleCallback R J A cfg uuid now code state s)) \<and>
    view (snd (handleCallback R J A cfg uuid now code state s)) (verifier_key state) = None"
proof -
  have s1: "snd (handleCallback R J A cfg uuid now code state s) = snd (rGetDel R (verifier_key state) s)"
    by (auto simp: handleCallback_def split: prod.split sum.split)
  show ?thesis
  proof (cases "view s (verifier_key state)")
    case None
    with s1 getdel_none [OF u None] u show ?thesis by simp
  next
    case (Some p)
    obtain x e where "p = (x, e)" by (cases p)
    with v Some obtain w where "view s (verifier_key state) = Some (RStr w, e)" by blast
    from s1 getdel_str [OF u this] u show ?thesis by simp
  qed
qed

lemma callback_refused:
  assumes "up s" and "view s (verifier_key state) = None"
  shows "fst (handleCallback R J A cfg uuid now code state s) = [HTTPError ''failed to get verifier: '' 500]"
  using getdel_none [OF assms] by (simp add: handleCallback_def case_prod_beta)

lemma callback_Body:
  assumes "up s" and "view s (verifier_key state) = Some (RStr w, e)"
    and "fst (handleCallback R J A cfg uuid now code state s) = [Body jwt]"
  shows "\<exists>token subject. Exchange A (gj_oauth2Config cfg) code w = Inr token \<and> getUserSub A cfg token = Inr subject \<and>
    generateJwtHs256 J cfg uuid now subject = Inr jwt"
  using getdel_str [OF assms(1,2)] assms(3) by (auto simp: handleCallback_def case_prod_beta split: sum.splits)

end

subsection \<open>Properties\<close>

text \<open>
  C28. A login token reads the user's streams and no others. When the login service and the server
  derive their secrets from the same seed, the server accepts a token of the login service for a day
  after its issue as that of the owner with the user's e-mail address, and refuses it with
  \<open>PermissionDenied\<close> for every other owner.
\<close>

theorem login_token_reads_own_streams:
  assumes "jwt_contract J decode verifies" and "jwt_signs J decode verifies"
    and "LoadConfig L C readErr (Inr conf0) = Ok conf" and "genjwt_loadConfig C V g = Ok cfg"
    and "gj_SecretSeedEncoded cfg = cf_SecretSeedEncoded conf0" and "am_jwtSecret am = cf_JwtSecret conf"
    and "generateJwtHs256 J cfg uuid now subject = Inr tok"
    and "NewNumericDate J now \<le> now'" and "now' < NewNumericDate J (now + 24 * 3600 * Second)"
  shows "ensureAuthToken (VerifyAndParseJwt J am) now' tok owner =
    (if owner = subject then Ok () else Err (Status PermissionDenied ''auth token subject %s not matching resource owner %s''))"
proof -
  have "gj_jwtSecret cfg = am_jwtSecret am"
    using genjwt_secret [OF assms(4)] pkv_secret [OF assms(3)] assms(5,6) by (metis sum.inject(2))
  from login_token_verifies [OF assms(1,2) this assms(7-9)] show ?thesis
    by (simp add: ensureAuthToken_def GetSubject_def login_claims_def Let_def)
qed

definition demo_viper :: viper where
  "demo_viper = \<lparr>vReadInConfig = None, vUnmarshal = Inr \<lparr>gj_servicePort = 0, gj_redisHost = '''', gj_redisPort = 0,
       gj_oauth2Config = \<lparr>oa_ClientID = '''', oa_ClientSecret = '''', oa_RedirectURL = '''', oa_Scopes = [], oa_TokenURL = '''', oa_AuthURL = ''''\<rparr>,
       gj_SecretSeedEncoded = '''', gj_jwtSecret = '''', gj_QuotaAuthorityDid = ''did'', gj_isTest = False\<rparr>,
     vGetUint16 = (\<lambda>_. 0), vGetBool = (\<lambda>_. True), vGetString = (\<lambda>_. '''')\<rparr>"

definition demo_login_tokens :: "(string \<times> jwt_token) list" where
  "demo_login_tokens = [(''login'', \<lparr>tk_Method = SigningMethodHMAC ''HS256'', tk_Kid = None, tk_Claims = Registered
     \<lparr>rc_Issuer = ''did'', rc_Subject = ''bob'', rc_Audience = [''did''], rc_ExpiresAt = Some (87400 * Second),
      rc_NotBefore = Some (1000 * Second), rc_IssuedAt = Some (1000 * Second), rc_ID = ''uuid''\<rparr>\<rparr>)]"

abbreviation demo_login_jwt :: jwt_lib where
  "demo_login_jwt \<equiv> table_jwt demo_login_tokens (\<lambda>_ _ _. True)"

lemma demo_login_signed:
  assumes "gj_QuotaAuthorityDid cfg = ''did''"
  shows "generateJwtHs256 demo_login_jwt cfg ''uuid'' (1000 * Second) ''bob'' = Inr ''login''"
proof -
  have "NewNumericDate demo_login_jwt (1000 * Second) = 1000 * Second" "NewNumericDate demo_login_jwt (1000 * Second + 24 * 3600 * Second) = 87400 * Second"
    by (simp_all add: table_jwt_def Second_def)
  then have "login_claims demo_login_jwt cfg ''uuid'' (1000 * Second) ''bob'' = \<lparr>rc_Issuer = ''did'', rc_Subject = ''bob'', rc_Audience = [''did''],
      rc_ExpiresAt = Some (87400 * Second), rc_NotBefore = Some (1000 * Second), rc_IssuedAt = Some (1000 * Second), rc_ID = ''uuid''\<rparr>"
    by (simp add: login_claims_def assms Let_def)
  moreover have "SignedString demo_login_jwt = table_sign demo_login_tokens (\<lambda>_ _ _. True)" by (simp add: table_jwt_def)
  ultimately show ?thesis by (simp add: generateJwtHs256_def table_sign_def) (simp add: demo_login_tokens_def)
qed

theorem login_token_reads_own_streams_witness:
  "\<exists>tok (cfg :: genjwt_Config). genjwt_loadConfig demo_crypto demo_viper ('''', '''') = Ok cfg \<and>
     generateJwtHs256 demo_login_jwt cfg ''uuid'' (1000 * Second) ''bob'' = Inr tok \<and>
     (\<exists>am. ensureAuthToken (VerifyAndParseJwt demo_login_jwt am) (1000 * Second) tok ''bob'' = Ok ())"
proof -
  let ?J = demo_login_jwt
  obtain conf where c: "LoadConfig demo_libs demo_crypto None (Inr demo_config) = Ok conf" using demo_LoadConfig by blast
  obtain cfg where g: "genjwt_loadConfig demo_crypto demo_viper ('''', '''') = Ok cfg" "gj_SecretSeedEncoded cfg = ''''" "gj_QuotaAuthorityDid cfg = ''did''"
    by (simp add: genjwt_loadConfig_def demo_viper_def base64_DecodeString_def DeriveKey_def demo_crypto_def)
  have s: "gj_SecretSeedEncoded cfg = cf_SecretSeedEncoded demo_config" using g(2) by (simp add: demo_config_def)
  have a: "am_jwtSecret (NewStaticAuthManager (cf_JwtSecret conf) Map.empty '''') = cf_JwtSecret conf" by (simp add: NewStaticAuthManager_def)
  note t = demo_login_signed [OF g(3)]
  have d: "NewNumericDate ?J (1000 * Second) \<le> 1000 * Second" "1000 * Second < NewNumericDate ?J (1000 * Second + 24 * 3600 * Second)"
    by (simp_all add: table_jwt_def Second_def)
  have "jwt_signs ?J (table_decode demo_login_tokens) (\<lambda>_ _ _. True)" by (rule table_signs) (simp add: demo_login_tokens_def)
  from login_token_reads_own_streams [OF table_contract this c g(1) s a t d, of "''bob''"]
  have "ensureAuthToken (VerifyAndParseJwt ?J (NewStaticAuthManager (cf_JwtSecret conf) Map.empty '''')) (1000 * Second) ''login'' ''bob'' = Ok ()"
    by (simp only: simp_thms if_True)
  with g(1) t show ?thesis
    by (intro exI [of _ "''login''"] exI [of _ cfg] exI [of _ "NewStaticAuthManager (cf_JwtSecret conf) Map.empty ''''"] conjI)
qed

text \<open>
  C29. A login can be completed once. A callback hands out a token only for a state under which the
  login had stored a verifier, after the identity provider accepted the code with that verifier, and for
  the address it reported; and whatever the outcome of a first callback, a second one with the
  same state is refused.
\<close>

theorem login_completes_once:
  assumes "redis_contract R view clock up" and "up s"
    and "\<forall>x e. view s (verifier_key state) = Some (x, e) \<longrightarrow> (\<exists>w. x = RStr w)"
  shows "(\<forall>jwt. fst (handleCallback R J A cfg uuid now code state s) = [Body jwt] \<longrightarrow>
      (\<exists>w e token subject. view s (verifier_key state) = Some (RStr w, e) \<and> Exchange A (gj_oauth2Config cfg) code w = Inr token \<and>
        getUserSub A cfg token = Inr subject \<and> generateJwtHs256 J cfg uuid now subject = Inr jwt)) \<and>
    fst (handleCallback R J A cfg uuid' now' code' state (snd (handleCallback R J A cfg uuid now code state s))) =
      [HTTPError ''failed to get verifier: '' 500]"
proof (intro conjI allI impI)
  fix jwt assume b: "fst (handleCallback R J A cfg uuid now code state s) = [Body jwt]"
  then have "view s (verifier_key state) \<noteq> None"
    using redis_contract.callback_refused [OF assms(1,2), of state J A cfg uuid now code] by (intro notI) simp
  then obtain x e where "view s (verifier_key state) = Some (x, e)" by (cases "view s (verifier_key state)") auto
  with assms(3) obtain w where w: "view s (verifier_key state) = Some (RStr w, e)" by blast
  with redis_contract.callback_Body [OF assms(1,2) w b]
  show "\<exists>w e token subject. view s (verifier_key state) = Some (RStr w, e) \<and> Exchange A (gj_oauth2Config cfg) code w = Inr token \<and>
      getUserSub A cfg token = Inr subject \<and> generateJwtHs256 J cfg uuid now subject = Inr jwt" by blast
next
  show "fst (handleCallback R J A cfg uuid' now' code' state (snd (handleCallback R J A cfg uuid now code state s))) =
      [HTTPError ''failed to get verifier: '' 500]"
    using redis_contract.callback_consumes [OF assms(1,2), of state J A cfg uuid now code] assms(3)
    by (intro redis_contract.callback_refused [OF assms(1)]) auto
qed

definition demo_oauth :: oauth2_lib where
  "demo_oauth = \<lparr>AuthCodeURL = (\<lambda>c st v. ''u''), Exchange = (\<lambda>c code v. if v = ''v'' then Inr ''foo'' else Inl (LibErr ''invalid_grant'')),
     clientGet = (\<lambda>c tok url. Inr (200, Inr [''email'' \<mapsto> JString ''bob'']))\<rparr>"

definition demo_genjwt_config :: genjwt_Config where
  "demo_genjwt_config = (case vUnmarshal demo_viper of Inr c \<Rightarrow> c)"

definition demo_pending :: mem where
  "demo_pending = \<lparr>mclock = 0, mkeys = [verifier_key ''st'' \<mapsto> (RStr ''v'', Some 300000)]\<rparr>"

theorem login_completes_once_witness:
  "fst (handleCallback mem_redis demo_login_jwt demo_oauth demo_genjwt_config ''uuid'' (1000 * Second) ''c'' ''st'' demo_pending)
      = [Body ''login''] \<and>
   fst (handleCallback mem_redis demo_login_jwt demo_oauth demo_genjwt_config ''uuid'' (1000 * Second) ''c'' ''st''
      (snd (handleCallback mem_redis demo_login_jwt demo_oauth demo_genjwt_config ''uuid'' (1000 * Second) ''c'' ''st'' demo_pending)))
      = [HTTPError ''failed to get verifier: '' 500]"
proof -
  have u: "mup demo_pending" by (simp add: mup_def demo_pending_def)
  have v: "\<forall>x e. mkeys demo_pending (verifier_key ''st'') = Some (x, e) \<longrightarrow> (\<exists>w. x = RStr w)" by (simp add: demo_pending_def)
  have "fst (handleCallback mem_redis demo_login_jwt demo_oauth demo_genjwt_config ''uuid'' (1000 * Second) ''c'' ''st'' demo_pending)
      = [Body ''login'']"
    by (simp add: handleCallback_def mem_GetDel_def demo_pending_def demo_oauth_def getUserSub_def getUserInfo_def
        demo_login_signed demo_genjwt_config_def demo_viper_def)
  then show ?thesis by (rule conjI) (rule login_completes_once [OF mem.redis_contract_axioms u v, THEN conjunct2])
qed

end
