(* ===== verification/Mock_Prex.thy ===== *)
theory Mock_Prex
  imports Login Net_Url
begin

section \<open>The mock quota authority (\<open>cmd/mock_prex\<close>)\<close>

text \<open>
  A stand-in for the exchange: it answers every request with a quota token for a million units. Its
  claims are a struct of its own, \<open>QuotaClaims\<close>, with the same JSON fields as the server's
  \<open>CreateSessionJwtClaims\<close>: both embed the registered claims, so both are flat JSON objects. A token
  of one is therefore modelled with the claims of the other.
\<close>

subsection \<open>The code\<close>

record prex_Config =
  px_TokenSigningSeed :: string
  px_TokenSigningPrivateKey :: bytes
  px_QuotaAuthorityDid :: string

text \<open>\<open>hex.DecodeString\<close>.\<close>

fun hex_DecodeString :: "string \<Rightarrow> go_error + bytes" where
  "hex_DecodeString [] = Inr []"
| "hex_DecodeString [c] = Inl (LibErr ''encoding/hex: odd length hex string'')"
| "hex_DecodeString (a # b # cs) =
     (case (from_hex_char a, from_hex_char b) of
        (Some h, Some l) \<Rightarrow>
          (case hex_DecodeString cs of Inl e \<Rightarrow> Inl e | Inr bs \<Rightarrow> Inr (char_of (16 * h + l) # bs))
      | _ \<Rightarrow> Inl (LibErr ''encoding/hex: invalid byte''))"

definition hexToBytes :: "string \<Rightarrow> nat \<Rightarrow> go_error + bytes" where
  "hexToBytes hexStr arrayLength =
     (if length hexStr \<noteq> 2 * arrayLength + 2 \<or> take 2 hexStr \<noteq> ''0x''
      then Inl (Errorf ''expected hex string for 32 bytes beginning with 0x but got %s'')
      else
        (case hex_DecodeString (drop 2 hexStr) of
           Inl e \<Rightarrow> Inl e
         | Inr byteSlice \<Rightarrow> Inr byteSlice))"

definition HexToBytes32 :: "string \<Rightarrow> go_error + bytes" where
  "HexToBytes32 hexStr = (case hexToBytes hexStr 32 of Inl e \<Rightarrow> Inl e | Inr bytes \<Rightarrow> Inr bytes)"

definition prex_loadConfig :: "crypto_libs \<Rightarrow> go_error option \<Rightarrow> (go_error + prex_Config) \<Rightarrow> prex_Config result" where
  "prex_loadConfig C readErr unmarshalled =
     (case readErr of
        Some e \<Rightarrow> Panic ''config: %v''
      | None \<Rightarrow>
     (case unmarshalled of
        Inl e \<Rightarrow> Panic ''config: %v''
      | Inr config \<Rightarrow>
     (case HexToBytes32 (px_TokenSigningSeed config) of
        Inl e \<Rightarrow> Panic ''failed to parse TokenSigningSeed %s: %v''
      | Inr seed \<Rightarrow>
          if length seed \<noteq> 32 then Panic ''expect seed to have len %d but got %d: %v''
          else Ok (config\<lparr>px_TokenSigningPrivateKey := NewKeyFromSeed C seed\<rparr>))))"

definition quota_registered :: "jwt_lib \<Rightarrow> prex_Config \<Rightarrow> string \<Rightarrow> int \<Rightarrow> RegisteredClaims" where
  "quota_registered J cfg uuid now =
     (let serviceIdentifier = px_QuotaAuthorityDid cfg in
      \<lparr>rc_Issuer = serviceIdentifier, rc_Subject = '''', rc_Audience = [serviceIdentifier],
       rc_ExpiresAt = Some (NewNumericDate J (now + 4 * 60 * Second)),
       rc_NotBefore = Some (NewNumericDate J now), rc_IssuedAt = Some (NewNumericDate J now), rc_ID = uuid\<rparr>)"

definition handleQuota :: "jwt_lib \<Rightarrow> prex_Config \<Rightarrow> string \<Rightarrow> int \<Rightarrow> string result" where
  "handleQuota J cfg uuid now =
     (let claims = CreateSessionClaims \<lparr>cj_SessionJwtClaims = Some \<lparr>sj_RegisteredClaims = Some (quota_registered J cfg uuid now),
            sj_Usage = JWT_USAGE_CREATE_SESSION\<rparr>, cj_Quantity = 1000000\<rparr>
      in case SignedString J \<lparr>tk_Method = SigningMethodEd25519, tk_Kid = None, tk_Claims = claims\<rparr> (PrivateKey (px_TokenSigningPrivateKey cfg)) of
           Inl e \<Rightarrow> Panic ''failed to sign''
         | Inr jwtSigned \<Rightarrow> Ok jwtSigned)"

subsection \<open>The seed\<close>

lemma hex_DecodeString_length: "hex_DecodeString s = Inr b \<Longrightarrow> length s = 2 * length b"
  by (induction s arbitrary: b rule: hex_DecodeString.induct) (auto split: option.splits sum.splits)

lemma HexToBytes32_length: "HexToBytes32 s = Inr b \<Longrightarrow> length b = 32"
  by (auto simp: HexToBytes32_def hexToBytes_def split: if_splits sum.splits dest!: hex_DecodeString_length)

text \<open>So the second check of the seed never fails.\<close>

lemma prex_loadConfig_seed:
  "HexToBytes32 (px_TokenSigningSeed config) = Inr seed \<Longrightarrow>
     prex_loadConfig C None (Inr config) = Ok (config\<lparr>px_TokenSigningPrivateKey := NewKeyFromSeed C seed\<rparr>)"
  using HexToBytes32_length by (simp add: prex_loadConfig_def)

subsection \<open>Its tokens\<close>

text \<open>What is signed with a private key under Ed25519 reads back and verifies under the public key.\<close>

definition jwt_signs_ed :: "jwt_lib \<Rightarrow> jwt_decoder \<Rightarrow> jwt_verifier \<Rightarrow> (bytes \<Rightarrow> bytes) \<Rightarrow> bool" where
  "jwt_signs_ed J decode verifies public_of \<longleftrightarrow>
     (\<forall>t sk s c. SignedString J t (PrivateKey sk) = Inr s \<longrightarrow> tk_Method t = SigningMethodEd25519 \<longrightarrow> same_kind c (tk_Claims t) \<longrightarrow>
        decode s c = Some t \<and> verifies SigningMethodEd25519 (PublicKey (public_of sk)) s)"

lemma handleQuota_Ok:
  "handleQuota J cfg uuid now = Ok tok \<longleftrightarrow>
     SignedString J \<lparr>tk_Method = SigningMethodEd25519, tk_Kid = None, tk_Claims = CreateSessionClaims
        \<lparr>cj_SessionJwtClaims = Some \<lparr>sj_RegisteredClaims = Some (quota_registered J cfg uuid now),
            sj_Usage = JWT_USAGE_CREATE_SESSION\<rparr>, cj_Quantity = 1000000\<rparr>\<rparr> (PrivateKey (px_TokenSigningPrivateKey cfg)) = Inr tok"
  by (simp add: handleQuota_def Let_def split: sum.split)

text \<open>A server that trusts the authority's key accepts its token until it expires.\<close>

lemma quota_token_verifies:
  assumes "jwt_contract J decode verifies" and "jwt_signs_ed J decode verifies public_of" and "handleQuota J cfg uuid t0 = Ok tok"
    and "am_trustedIssuers am (px_QuotaAuthorityDid cfg) = Some (public_of (px_TokenSigningPrivateKey cfg))"
    and "NewNumericDate J t0 \<le> now" and "now < NewNumericDate J (t0 + 4 * 60 * Second)"
  shows "VerifyAndParseJwt J am tok (CreateSessionClaims empty_create_claims) False now = Ok (CreateSessionClaims
     \<lparr>cj_SessionJwtClaims = Some \<lparr>sj_RegisteredClaims = Some (quota_registered J cfg uuid t0),
        sj_Usage = JWT_USAGE_CREATE_SESSION\<rparr>, cj_Quantity = 1000000\<rparr>)" (is "_ = Ok ?c")
proof -
  let ?t = "\<lparr>tk_Method = SigningMethodEd25519, tk_Kid = None, tk_Claims = ?c\<rparr>"
  have s: "SignedString J ?t (PrivateKey (px_TokenSigningPrivateKey cfg)) = Inr tok" using assms(3) by (simp add: handleQuota_Ok)
  have d: "decode tok (CreateSessionClaims empty_create_claims) = Some ?t \<and>
      verifies SigningMethodEd25519 (PublicKey (public_of (px_TokenSigningPrivateKey cfg))) tok"
    using assms(2) [unfolded jwt_signs_ed_def, rule_format, OF s, of "CreateSessionClaims empty_create_claims"] by simp
  have "exchangeKeyFunc am ?t = Ok (PublicKey (public_of (px_TokenSigningPrivateKey cfg)))"
    using assms(4) by (simp add: exchangeKeyFunc_Ok quota_registered_def Let_def)
  from jwt_contract_accept [where kf = "exchangeKeyFunc am" and v = True and now = now and r = "quota_registered J cfg uuid t0",
      OF assms(1) conjunct1 [OF d] this] d assms(5,6)
  show ?thesis by (simp add: VerifyAndParseJwt_Ok dates_valid_def quota_registered_def Let_def)
qed

subsection \<open>Property\<close>

text \<open>
  C22. What the quota authority issues is accepted by a server that trusts it. The token of a \<open>/quota\<close>
  answer, presented within its four minutes to a server that has the authority's public key under
  the authority's name, opens a session whose balance is the million units granted.
\<close>

theorem quota_token_opens_session:
  assumes "redis_contract R view clock up" and "jwt_contract J decode verifies" and "jwt_signs_ed J decode verifies public_of"
    and "sessions_wf view up s" and "handleQuota J cfg uuid t0 = Ok tok"
    and "am_trustedIssuers am (px_QuotaAuthorityDid cfg) = Some (public_of (px_TokenSigningPrivateKey cfg))"
    and "NewNumericDate J t0 \<le> now" and "now < NewNumericDate J (t0 + 4 * 60 * Second)"
    and "session_led view s (hashToSessionId L m uuid) = None"
    and "generateJwt J conf uuid' (hashToSessionId L m uuid) (NewNumericDate J (t0 + 4 * 60 * Second)) = Inr j"
  shows "\<exists>s1. CreateSession J conf (VerifyAndParseJwt J am) (sm_CreateSession L R m) uuid' now \<lparr>cs_Jwt = tok\<rparr> s =
      (Ok \<lparr>csr_Session = Some \<lparr>se_SessionId = hashToSessionId L m uuid, se_Balance = 1000000\<rparr>, csr_Jwt = j\<rparr>, s1) \<and>
    sessions_wf view up s1 \<and> session_led view s1 = (session_led view s)(hashToSessionId L m uuid \<mapsto> 1000000)"
proof -
  let ?e = "NewNumericDate J (t0 + 4 * 60 * Second)" and ?sid = "hashToSessionId L m uuid"
  have q: "quota_claims (CreateSessionClaims \<lparr>cj_SessionJwtClaims = Some \<lparr>sj_RegisteredClaims = Some (quota_registered J cfg uuid t0),
        sj_Usage = JWT_USAGE_CREATE_SESSION\<rparr>, cj_Quantity = 1000000\<rparr>) now (quota_registered J cfg uuid t0) 1000000 ?e"
    using assms(8) by (simp add: quota_claims_def quota_registered_def Let_def)
  have "in_int64 1000000" by (simp add: in_int64_def int64_min_def int64_max_def)
  from redis_contract.create_session_refines [OF assms(1,4) this, of L m uuid "?e - now"] assms(9)
  obtain s1 where s1: "sm_CreateSession L R m uuid 1000000 (?e - now) s = (Ok \<lparr>se_SessionId = ?sid, se_Balance = 1000000\<rparr>, s1)"
      "sessions_wf view up s1" "session_led view s1 = (session_led view s)(?sid \<mapsto> 1000000)"
    by (cases "sm_CreateSession L R m uuid 1000000 (?e - now) s") (auto simp: ledger_create_def)
  have i: "rc_ID (quota_registered J cfg uuid t0) = uuid" by (simp add: quota_registered_def Let_def)
  have "CreateSession J conf (VerifyAndParseJwt J am) (sm_CreateSession L R m) uuid' now \<lparr>cs_Jwt = tok\<rparr> s =
      (Ok \<lparr>csr_Session = Some \<lparr>se_SessionId = ?sid, se_Balance = 1000000\<rparr>, csr_Jwt = j\<rparr>, s1)"
    unfolding CreateSession_Ok CreateSessionRequest.simps
    by (intro exI conjI, rule quota_token_verifies [OF assms(2,3,5-8)], rule q) (use s1(1) i assms(10) in simp_all)
  with s1 show ?thesis by blast
qed

definition demo_prex :: prex_Config where
  "demo_prex = \<lparr>px_TokenSigningSeed = '''', px_TokenSigningPrivateKey = ''sk'', px_QuotaAuthorityDid = ''did:example:prex''\<rparr>"

definition demo_prex_registered :: RegisteredClaims where
  "demo_prex_registered = \<lparr>rc_Issuer = ''did:example:prex'', rc_Subject = '''', rc_Audience = [''did:example:prex''],
     rc_ExpiresAt = Some (240 * Second), rc_NotBefore = Some 0, rc_IssuedAt = Some 0, rc_ID = ''jti''\<rparr>"

definition demo_prex_tokens :: "(string \<times> jwt_token) list" where
  "demo_prex_tokens =
     [(''million'', \<lparr>tk_Method = SigningMethodEd25519, tk_Kid = None, tk_Claims = CreateSessionClaims
        \<lparr>cj_SessionJwtClaims = Some \<lparr>sj_RegisteredClaims = Some demo_prex_registered, sj_Usage = JWT_USAGE_CREATE_SESSION\<rparr>,
         cj_Quantity = 1000000\<rparr>\<rparr>),
      (''sess'', session_token (table_jwt [] (\<lambda>_ _ _. True)) demo_login_config ''uuid'' demo_sid (240 * Second))]"

definition demo_prex_jwt :: jwt_lib where
  "demo_prex_jwt = table_jwt demo_prex_tokens (\<lambda>_ _ _. True)"

lemma demo_prex_signs: "jwt_signs_ed demo_prex_jwt (table_decode demo_prex_tokens) (\<lambda>_ _ _. True) (\<lambda>_. ''pk'')"
  by (auto simp: jwt_signs_ed_def demo_prex_jwt_def table_jwt_def table_sign_def table_decode_def demo_prex_tokens_def
      session_token_def split: if_splits)

lemma demo_prex_lib:
  "SignedString demo_prex_jwt = table_sign demo_prex_tokens (\<lambda>_ _ _. True)" "NewNumericDate demo_prex_jwt t = t div Second * Second"
  by (simp_all add: demo_prex_jwt_def table_jwt_def)

lemma demo_prex_claims: "quota_registered demo_prex_jwt demo_prex ''jti'' 0 = demo_prex_registered"
  by (simp add: quota_registered_def demo_prex_lib demo_prex_def demo_prex_registered_def Second_def Let_def)

lemma demo_prex_quota: "handleQuota demo_prex_jwt demo_prex ''jti'' 0 = Ok ''million''"
  unfolding handleQuota_Ok demo_prex_claims demo_prex_lib by (simp add: table_sign_def demo_prex_tokens_def)

lemma demo_prex_generate: "generateJwt demo_prex_jwt demo_login_config ''uuid'' demo_sid (240 * Second) = Inr ''sess''"
proof -
  have "session_token demo_prex_jwt demo_login_config ''uuid'' demo_sid (240 * Second) =
      session_token (table_jwt [] (\<lambda>_ _ _. True)) demo_login_config ''uuid'' demo_sid (240 * Second)"
    by (simp add: session_token_def demo_prex_lib) (simp add: table_jwt_def)
  then show ?thesis
    by (simp add: generateJwt_def demo_prex_lib table_sign_def demo_prex_tokens_def) (simp add: session_token_def)
qed

theorem quota_token_opens_session_witness:
  "\<exists>s1. CreateSession demo_prex_jwt demo_login_config (VerifyAndParseJwt demo_prex_jwt demo_auth) (sm_CreateSession demo_libs mem_redis demo_salt)
      ''uuid'' Second \<lparr>cs_Jwt = ''million''\<rparr> demo_mem =
    (Ok \<lparr>csr_Session = Some \<lparr>se_SessionId = demo_sid, se_Balance = 1000000\<rparr>, csr_Jwt = ''sess''\<rparr>, s1)"
proof -
  have a: "am_trustedIssuers demo_auth (px_QuotaAuthorityDid demo_prex) = Some ''pk''" by (simp add: demo_auth_def demo_prex_def)
  have d: "NewNumericDate demo_prex_jwt 0 \<le> Second" "Second < NewNumericDate demo_prex_jwt (0 + 4 * 60 * Second)"
    by (simp_all add: demo_prex_lib Second_def)
  have l: "session_led mkeys demo_mem (hashToSessionId demo_libs demo_salt ''jti'') = None" by simp
  have g: "generateJwt demo_prex_jwt demo_login_config ''uuid'' (hashToSessionId demo_libs demo_salt ''jti'')
      (NewNumericDate demo_prex_jwt (0 + 4 * 60 * Second)) = Inr ''sess''"
    using demo_prex_generate by (simp add: demo_sid_def demo_prex_lib Second_def)
  from quota_token_opens_session [OF mem.redis_contract_axioms table_contract [of demo_prex_tokens "\<lambda>_ _ _. True", folded demo_prex_jwt_def]
      demo_prex_signs demo_mem_wf(1) demo_prex_quota a d l g]
  show ?thesis by (auto simp: demo_sid_def)
qed

end
