(* ===== verification/Email.thy ===== *)
theory Email
  imports Streams
begin

section \<open>The mail example (\<open>examples/email\<close>)\<close>

text \<open>
  A mail client on top of the service. A messager stores the content of a message as a value and its
  metadata in a stream of the recipient; the end-to-end messager encrypts and signs the content
  first. The state \<open>'r\<close> is that of the services behind the gRPC connections, which are parameters,
  as are the PGP package, the protobuf codec of the metadata, the files and the YAML package.
  \<open>log.Fatal\<close> ends the process and is \<open>Panic\<close>.
\<close>

subsection \<open>The messages and the connections\<close>

definition MessagerType_TRADITIONAL :: int where "MessagerType_TRADITIONAL = 1"
definition MessagerType_PGP_E2EE :: int where "MessagerType_PGP_E2EE = 2"

record EmailMetaMessage =
  em_MessageType :: int
  em_Version :: string
  em_Host :: string
  em_Port :: int
  em_Sender :: string
  em_Recipient :: string
  em_ContentResourceName :: string

text \<open>The calls of the generated gRPC client that the example makes; the first argument is the outgoing metadata.\<close>

record 'r grpc_client =
  g_CreateValue :: "string list \<Rightarrow> CreateValueRequest \<Rightarrow> 'r \<Rightarrow> (go_error + CreateValueResponse) \<times> 'r"
  g_GetValue :: "string list \<Rightarrow> GetValueRequest \<Rightarrow> 'r \<Rightarrow> (go_error + GetValueResponse) \<times> 'r"
  g_CreateStreamValue :: "string list \<Rightarrow> CreateStreamValueRequest \<Rightarrow> 'r \<Rightarrow> (go_error + CreateStreamValueResponse) \<times> 'r"
  g_ListStreamValues :: "string list \<Rightarrow> ListStreamValuesRequest \<Rightarrow> 'r \<Rightarrow> (go_error + ListStreamValuesResponse) \<times> 'r"
  g_CreateSession :: "string list \<Rightarrow> CreateSessionRequest \<Rightarrow> 'r \<Rightarrow> (go_error + CreateSessionResponse) \<times> 'r"

text \<open>
  The packages the messagers use. A handle for encryption is made for a recipient's public key and a
  sender's private key, one for decryption for a recipient's private key and a sender's public key;
  decrypting yields the bytes and the error of the signature. \<open>proto.Unmarshal\<close> leaves in the
  message what it could read; its error is not looked at.
\<close>

record 'r mail_libs =
  dial :: "string \<Rightarrow> go_error + 'r grpc_client"
  em_Marshal :: "EmailMetaMessage \<Rightarrow> go_error + bytes"
  em_Unmarshal :: "bytes \<Rightarrow> EmailMetaMessage"
  NewEncryption :: "bytes \<Rightarrow> bytes \<Rightarrow> go_error + (bytes \<Rightarrow> go_error + bytes)"
  ArmorBytes :: "bytes \<Rightarrow> go_error + bytes"
  NewDecryption :: "bytes \<Rightarrow> bytes \<Rightarrow> go_error + (bytes \<Rightarrow> go_error + bytes \<times> go_error option)"

subsection \<open>\<open>pkg/messager/interface.go\<close>\<close>

text \<open>The dynamic type behind the interface \<open>IMessager\<close>, which \<open>self\<close> records.\<close>

datatype messager_kind = KTraditional | KPGPE2EE

fun GetMessagerType :: "messager_kind \<Rightarrow> int" where
  "GetMessagerType KTraditional = MessagerType_TRADITIONAL"
| "GetMessagerType KPGPE2EE = MessagerType_PGP_E2EE"

fun GetVersion :: "messager_kind \<Rightarrow> string" where
  "GetVersion KTraditional = ''0.1.0''"
| "GetVersion KPGPE2EE = ''0.1.0''"

definition NewGrpcClient :: "'r mail_libs \<Rightarrow> string \<Rightarrow> int \<Rightarrow> 'r grpc_client result" where
  "NewGrpcClient E host port =
     (case dial E (host @ '':'' @ itoa port) of
        Inl e \<Rightarrow> Panic ''cannot dial grpc remote''
      | Inr c \<Rightarrow> Ok c)"

definition formatResourceParent :: "messager_kind \<Rightarrow> string \<Rightarrow> string" where
  "formatResourceParent m recipient =
     ''accounts/'' @ recipient @ ''/streams/email-stream-'' @ itoa (GetMessagerType m) @ ''-v'' @ GetVersion m"

subsection \<open>\<open>pkg/messager/traditional.go\<close>\<close>

record TraditionalMessager =
  tm_metadataServiceHost :: string
  tm_metadataServicePort :: int
  tm_self :: messager_kind

definition NewTraditionalMessager :: "string \<Rightarrow> int \<Rightarrow> TraditionalMessager" where
  "NewTraditionalMessager host port =
     \<lparr>tm_metadataServiceHost = host, tm_metadataServicePort = port, tm_self = KTraditional\<rparr>"

text \<open>The request sets the value alone: the codec is unspecified and there is no time to live.\<close>

definition DoSendContent :: "'r grpc_client \<Rightarrow> string list \<Rightarrow> bytes \<Rightarrow> 'r \<Rightarrow> string result \<times> 'r" where
  "DoSendContent client ctx message s =
     (case g_CreateValue client ctx \<lparr>cv_Codec = CODEC_UNSPECIFIED, cv_Value = message, cv_Ttl = None\<rparr> s of
        (Inl e, s1) \<Rightarrow> (Err (Errorf ''failed to set content: %v''), s1)
      | (Inr contentResp, s1) \<Rightarrow> (Ok (cvr_Name contentResp), s1))"

definition Traditional_SendContent ::
    "'r mail_libs \<Rightarrow> TraditionalMessager \<Rightarrow> string list \<Rightarrow> bytes \<Rightarrow> 'r \<Rightarrow> string result \<times> 'r" where
  "Traditional_SendContent E m ctx message s =
     (case NewGrpcClient E (tm_metadataServiceHost m) (tm_metadataServicePort m) of
        Panic p \<Rightarrow> (Panic p, s)
      | Err e \<Rightarrow> (Err e, s)
      | Ok client \<Rightarrow> DoSendContent client ctx message s)"

fun metadataLoop ::
    "'r mail_libs \<Rightarrow> 'r grpc_client \<Rightarrow> TraditionalMessager \<Rightarrow> string list \<Rightarrow> string \<Rightarrow> string \<Rightarrow> string \<Rightarrow> string list \<Rightarrow> 'r \<Rightarrow>
     unit result \<times> 'r" where
  "metadataLoop E client m ctx parent sender recipient [] s = (Ok (), s)"
| "metadataLoop E client m ctx parent sender recipient (resourceName # resourceNames) s =
     (case em_Marshal E \<lparr>em_MessageType = 0, em_Version = '''', em_Host = tm_metadataServiceHost m,
             em_Port = tm_metadataServicePort m, em_Sender = sender, em_Recipient = recipient,
             em_ContentResourceName = resourceName\<rparr> of
        Inl e \<Rightarrow> (Err (Errorf ''failed to marshal metadata: %v''), s)
      | Inr emailMetadata \<Rightarrow>
          (case g_CreateStreamValue client ctx \<lparr>csv_Parent = parent, csv_Value = emailMetadata\<rparr> s of
             (Inl e, s1) \<Rightarrow> (Err (Errorf ''failed to sent metadata: %v''), s1)
           | (Inr _, s1) \<Rightarrow> metadataLoop E client m ctx parent sender recipient resourceNames s1))"

definition SendMetadata ::
    "'r mail_libs \<Rightarrow> TraditionalMessager \<Rightarrow> string list \<Rightarrow> string \<Rightarrow> string \<Rightarrow> string list \<Rightarrow> 'r \<Rightarrow> unit result \<times> 'r" where
  "SendMetadata E m ctx sender recipient resourceNames s =
     (let parent = formatResourceParent (tm_self m) recipient
      in case NewGrpcClient E (tm_metadataServiceHost m) (tm_metadataServicePort m) of
           Panic p \<Rightarrow> (Panic p, s)
         | Err e \<Rightarrow> (Err e, s)
         | Ok client \<Rightarrow> metadataLoop E client m ctx parent sender recipient resourceNames s)"

definition parseEmailInfo :: "'r mail_libs \<Rightarrow> bytes \<Rightarrow> EmailMetaMessage" where
  "parseEmailInfo E value = em_Unmarshal E value"

definition ListMessages ::
    "'r mail_libs \<Rightarrow> TraditionalMessager \<Rightarrow> string list \<Rightarrow> string \<Rightarrow> int \<Rightarrow> string \<Rightarrow> string \<Rightarrow> 'r \<Rightarrow>
     EmailMetaMessage list result \<times> 'r" where
  "ListMessages E m ctx email pageSize pageToken authToken s =
     (let parent = formatResourceParent (tm_self m) email
      in case NewGrpcClient E (tm_metadataServiceHost m) (tm_metadataServicePort m) of
           Panic p \<Rightarrow> (Panic p, s)
         | Err e \<Rightarrow> (Err e, s)
         | Ok client \<Rightarrow>
             (case g_ListStreamValues client ctx \<lparr>ls_Parent = parent, ls_AuthToken = authToken,
                     ls_PageSize = pageSize, ls_PageToken = pageToken\<rparr> s of
                (Inl e, s1) \<Rightarrow> (Err e, s1)
              | (Inr resp, s1) \<Rightarrow> (Ok (map (\<lambda>info. parseEmailInfo E (sv_Value info)) (lsr_StreamValueInfo resp)), s1)))"

definition DoFetchMessage ::
    "'r mail_libs \<Rightarrow> TraditionalMessager \<Rightarrow> string list \<Rightarrow> EmailMetaMessage \<Rightarrow> 'r \<Rightarrow> bytes result \<times> 'r" where
  "DoFetchMessage E m ctx emailInfo s =
     (case NewGrpcClient E (tm_metadataServiceHost m) (tm_metadataServicePort m) of
        Panic p \<Rightarrow> (Panic p, s)
      | Err e \<Rightarrow> (Err e, s)
      | Ok client \<Rightarrow>
          (case g_GetValue client ctx \<lparr>gv_Name = em_ContentResourceName emailInfo\<rparr> s of
             (Inl e, s1) \<Rightarrow> (Err e, s1)
           | (Inr resp, s1) \<Rightarrow> (Ok (gvr_Value resp), s1)))"

text \<open>\<open>FetchMessage\<close> may return bytes and an error together: the pair of both, \<open>nil\<close> bytes as none.\<close>

type_synonym fetched = "bytes \<times> go_error option"

definition Traditional_FetchMessage ::
    "'r mail_libs \<Rightarrow> TraditionalMessager \<Rightarrow> string list \<Rightarrow> EmailMetaMessage \<Rightarrow> 'r \<Rightarrow> fetched result \<times> 'r" where
  "Traditional_FetchMessage E m ctx emailInfo s =
     (case DoFetchMessage E m ctx emailInfo s of
        (Panic p, s1) \<Rightarrow> (Panic p, s1)
      | (Err e, s1) \<Rightarrow> (Ok ([], Some e), s1)
      | (Ok v, s1) \<Rightarrow> (Ok (v, None), s1))"

subsection \<open>\<open>pkg/messager/key_broker.go\<close>\<close>

record ToyPGPBroker =
  privateKeyStorate :: "string \<rightharpoonup> bytes"
  publicKeyStorate :: "string \<rightharpoonup> bytes"

definition LookupPublicKey :: "ToyPGPBroker \<Rightarrow> string \<Rightarrow> go_error + bytes" where
  "LookupPublicKey b email =
     (case publicKeyStorate b email of Some key \<Rightarrow> Inr key | None \<Rightarrow> Inl (Errorf ''not found''))"

definition LookupPrivateKey :: "ToyPGPBroker \<Rightarrow> string \<Rightarrow> go_error + bytes" where
  "LookupPrivateKey b email =
     (case privateKeyStorate b email of Some key \<Rightarrow> Inr key | None \<Rightarrow> Inl (Errorf ''not found''))"

text \<open>
  The key functions of the PGP package and the operating system. The files are a map from paths to
  contents; making a directory and writing a file may fail.
\<close>

record key_libs =
  NewPrivateKeyFromArmored :: "bytes \<Rightarrow> bytes \<Rightarrow> go_error + bytes"
  ToPublic :: "bytes \<Rightarrow> go_error + bytes"
  GenerateKey :: "string \<Rightarrow> string \<Rightarrow> go_error + bytes"
  Armor :: "bytes \<Rightarrow> go_error + bytes"
  MkdirAll :: "string \<Rightarrow> go_error option"
  WriteFile :: "string \<Rightarrow> go_error option"

type_synonym files = "string \<rightharpoonup> bytes"

definition savePath :: "string \<Rightarrow> string" where
  "savePath name = ''/tmp/toy_pgp_broker/'' @ name @ ''.asc''"

text \<open>The key of a readable file, if the file has one.\<close>

definition storedKey :: "key_libs \<Rightarrow> files \<Rightarrow> string \<Rightarrow> bytes option" where
  "storedKey K fs name =
     (case fs (savePath name) of
        None \<Rightarrow> None
      | Some armored \<Rightarrow>
          (case NewPrivateKeyFromArmored K armored '''' of Inl _ \<Rightarrow> None | Inr priv \<Rightarrow> Some priv))"

definition addKeys :: "string \<Rightarrow> bytes \<Rightarrow> bytes \<Rightarrow> ToyPGPBroker \<Rightarrow> ToyPGPBroker" where
  "addKeys email priv pub b =
     \<lparr>privateKeyStorate = (privateKeyStorate b)(email \<mapsto> priv), publicKeyStorate = (publicKeyStorate b)(email \<mapsto> pub)\<rparr>"

definition newUser :: "key_libs \<Rightarrow> string \<Rightarrow> string \<Rightarrow> ToyPGPBroker \<Rightarrow> files \<Rightarrow> ToyPGPBroker result \<times> files" where
  "newUser K name email b fs =
     (case storedKey K fs name of
        Some priv \<Rightarrow>
          (case ToPublic K priv of
             Inl e \<Rightarrow> (Panic ''failed to convert to public key: %v'', fs)
           | Inr pub \<Rightarrow> (Ok (addKeys email priv pub b), fs))
      | None \<Rightarrow>
          (case GenerateKey K name email of
             Inl e \<Rightarrow> (Panic ''failed to convert to generate private key: %v'', fs)
           | Inr priv \<Rightarrow>
               (case ToPublic K priv of
                  Inl e \<Rightarrow> (Panic ''failed to convert to public key: %v'', fs)
                | Inr pub \<Rightarrow>
                    (case MkdirAll K ''/tmp/toy_pgp_broker'' of
                       Some e \<Rightarrow> (Panic ''cannot mkdir: %v'', fs)
                     | None \<Rightarrow>
                         (case Armor K priv of
                            Inl e \<Rightarrow> (Panic ''cannot get armor: %v'', fs)
                          | Inr armor \<Rightarrow>
                              (case WriteFile K (savePath name) of
                                 Some e \<Rightarrow> (Panic ''cannot write armor to file'', fs)
                               | None \<Rightarrow> (Ok (addKeys email priv pub b), fs(savePath name \<mapsto> armor))))))))"

definition Broker_Init :: "key_libs \<Rightarrow> files \<Rightarrow> ToyPGPBroker result \<times> files" where
  "Broker_Init K fs =
     (case newUser K ''alice'' ''alice@op1.com'' \<lparr>privateKeyStorate = Map.empty, publicKeyStorate = Map.empty\<rparr> fs of
        (Ok b, fs1) \<Rightarrow> newUser K ''bob'' ''bob@op2.com'' b fs1
      | (Err e, fs1) \<Rightarrow> (Err e, fs1)
      | (Panic p, fs1) \<Rightarrow> (Panic p, fs1))"

subsection \<open>\<open>pkg/messager/pgp_e2ee.go\<close>\<close>

record PGPE2EEMessager =
  pm_contentServiceHost :: string
  pm_contentServicePort :: int
  pm_TraditionalMessager :: TraditionalMessager
  pm_keyBroker :: ToyPGPBroker

definition NewPGPE2EEMessager ::
    "key_libs \<Rightarrow> string \<Rightarrow> int \<Rightarrow> string \<Rightarrow> int \<Rightarrow> files \<Rightarrow> PGPE2EEMessager result \<times> files" where
  "NewPGPE2EEMessager K metadataServiceHost metadataServicePort contentServiceHost contentServicePort fs =
     (case Broker_Init K fs of
        (Panic p, fs1) \<Rightarrow> (Panic p, fs1)
      | (Err e, fs1) \<Rightarrow> (Err e, fs1)
      | (Ok toyPgpBroker, fs1) \<Rightarrow>
          (Ok \<lparr>pm_contentServiceHost = contentServiceHost, pm_contentServicePort = contentServicePort,
               pm_TraditionalMessager = \<lparr>tm_metadataServiceHost = metadataServiceHost,
                 tm_metadataServicePort = metadataServicePort, tm_self = KPGPE2EE\<rparr>,
               pm_keyBroker = toyPgpBroker\<rparr>, fs1))"

definition PGP_SendContent ::
    "'r mail_libs \<Rightarrow> PGPE2EEMessager \<Rightarrow> string list \<Rightarrow> string \<Rightarrow> string \<Rightarrow> bytes \<Rightarrow> 'r \<Rightarrow> string result \<times> 'r" where
  "PGP_SendContent E m ctx sender recipient message s =
     (case NewGrpcClient E (pm_contentServiceHost m) (pm_contentServicePort m) of
        Panic p \<Rightarrow> (Panic p, s)
      | Err e \<Rightarrow> (Err e, s)
      | Ok grpcClient \<Rightarrow>
          (case LookupPrivateKey (pm_keyBroker m) sender of
             Inl e \<Rightarrow> (Err (Errorf ''sender private key lookup failed: %v''), s)
           | Inr senderPrivateKey \<Rightarrow>
               (case LookupPublicKey (pm_keyBroker m) recipient of
                  Inl e \<Rightarrow> (Err (Errorf ''recipient public key lookup failed: %v''), s)
                | Inr recipientPublicKey \<Rightarrow>
                    (case NewEncryption E recipientPublicKey senderPrivateKey of
                       Inl e \<Rightarrow> (Err e, s)
                     | Inr encHandle \<Rightarrow>
                         (case encHandle message of
                            Inl e \<Rightarrow> (Err e, s)
                          | Inr pgpMessage \<Rightarrow>
                              (case ArmorBytes E pgpMessage of
                                 Inl e \<Rightarrow> (Err e, s)
                               | Inr armored \<Rightarrow> DoSendContent grpcClient ctx armored s))))))"

text \<open>When the signature does not verify, the decrypted bytes are returned beside the error.\<close>

definition PGP_FetchMessage ::
    "'r mail_libs \<Rightarrow> PGPE2EEMessager \<Rightarrow> string list \<Rightarrow> EmailMetaMessage \<Rightarrow> 'r \<Rightarrow> fetched result \<times> 'r" where
  "PGP_FetchMessage E m ctx emailInfo s =
     (case DoFetchMessage E (pm_TraditionalMessager m) ctx emailInfo s of
        (Panic p, s1) \<Rightarrow> (Panic p, s1)
      | (Err e, s1) \<Rightarrow> (Ok ([], Some e), s1)
      | (Ok rawMessage, s1) \<Rightarrow>
          (case LookupPublicKey (pm_keyBroker m) (em_Sender emailInfo) of
             Inl e \<Rightarrow> (Ok ([], Some (Errorf ''sender public key lookup failed: %v'')), s1)
           | Inr senderPublicKey \<Rightarrow>
               (case LookupPrivateKey (pm_keyBroker m) (em_Recipient emailInfo) of
                  Inl e \<Rightarrow> (Ok ([], Some (Errorf ''recipient private key lookup failed: %v'')), s1)
                | Inr recipientPrivateKey \<Rightarrow>
                    (case NewDecryption E recipientPrivateKey senderPublicKey of
                       Inl e \<Rightarrow> (Ok ([], Some (Errorf ''failed to init decHandle: %v'')), s1)
                     | Inr decHandle \<Rightarrow>
                         (case decHandle rawMessage of
                            Inl e \<Rightarrow> (Ok ([], Some (Errorf ''failed to decrypt message: %v'')), s1)
                          | Inr (decrypted, sigErr) \<Rightarrow>
                              (case sigErr of
                                 Some e \<Rightarrow> (Ok (decrypted, Some (Errorf ''message verification failed: %v'')), s1)
                               | None \<Rightarrow> (Ok (decrypted, None), s1)))))))"

subsection \<open>\<open>cmd/write.go\<close>\<close>

text \<open>
  A messager behind the interface. The end-to-end messager embeds a traditional one, whose methods
  for the metadata it keeps.
\<close>

datatype messager = MTraditional TraditionalMessager | MPGPE2EE PGPE2EEMessager

fun embedded :: "messager \<Rightarrow> TraditionalMessager" where
  "embedded (MTraditional m) = m"
| "embedded (MPGPE2EE m) = pm_TraditionalMessager m"

fun SendContent ::
    "'r mail_libs \<Rightarrow> messager \<Rightarrow> string list \<Rightarrow> string \<Rightarrow> string \<Rightarrow> bytes \<Rightarrow> 'r \<Rightarrow> string result \<times> 'r" where
  "SendContent E (MTraditional m) ctx sender recipient message s = Traditional_SendContent E m ctx message s"
| "SendContent E (MPGPE2EE m) ctx sender recipient message s = PGP_SendContent E m ctx sender recipient message s"

fun FetchMessage :: "'r mail_libs \<Rightarrow> messager \<Rightarrow> string list \<Rightarrow> EmailMetaMessage \<Rightarrow> 'r \<Rightarrow> fetched result \<times> 'r" where
  "FetchMessage E (MTraditional m) ctx emailInfo s = Traditional_FetchMessage E m ctx emailInfo s"
| "FetchMessage E (MPGPE2EE m) ctx emailInfo s = PGP_FetchMessage E m ctx emailInfo s"

definition mockMessage :: "string \<Rightarrow> string" where
  "mockMessage count =
     ''Subject: '' @ count @ '' message'' @ [CHR 0x0A, CHR 0x0A] @ ''Dear Bob, This is my '' @ count @ '' message'' @ [CHR 0x0A]"

definition getMessager :: "key_libs \<Rightarrow> string \<Rightarrow> files \<Rightarrow> messager result \<times> files" where
  "getMessager K messagerType fs =
     (if messagerType = ''pgp_e2ee'' then
        (case NewPGPE2EEMessager K ''localhost'' 50051 ''127.0.0.1'' 50051 fs of
           (Ok m, fs1) \<Rightarrow> (Ok (MPGPE2EE m), fs1)
         | (Err e, fs1) \<Rightarrow> (Err e, fs1)
         | (Panic p, fs1) \<Rightarrow> (Panic p, fs1))
      else if messagerType = ''traditional'' then (Ok (MTraditional (NewTraditionalMessager ''localhost'' 50051)), fs)
      else (Panic ''unknown messagerType %s'', fs))"

text \<open>
  The packages of the commands: an HTTP request yields the status and the body, reading the YAML
  file yields the token of the account, and \<open>jwt.Parse\<close> with no key function yields the subject
  unless it fails for another reason than the missing key.
\<close>

record 'r cmd_libs =
  http_Get :: "string \<Rightarrow> 'r \<Rightarrow> (go_error + int \<times> (go_error + bytes)) \<times> 'r"
  yaml_Unmarshal :: "bytes \<Rightarrow> go_error + string"
  yaml_Marshal :: "string \<Rightarrow> go_error + bytes"
  jwt_Parse :: "string \<Rightarrow> go_error + (go_error + string)"
  filepath_Dir :: "string \<Rightarrow> string"
  path_Join :: "string list \<Rightarrow> string"

definition mockQuotaUrl :: string where
  "mockQuotaUrl = ''http://localhost:8100/quota?max_size=99999&ttl=999999''"

definition getMockSessionToken :: "'r mail_libs \<Rightarrow> 'r cmd_libs \<Rightarrow> string \<Rightarrow> 'r \<Rightarrow> string result \<times> 'r" where
  "getMockSessionToken E X mockTokenUrl s =
     (case http_Get X mockTokenUrl s of
        (Inl e, s1) \<Rightarrow> (Panic ''cannot get mock prex quota token: %v'', s1)
      | (Inr (statusCode, body), s1) \<Rightarrow>
          if statusCode \<noteq> 200 then (Panic ''unexpected status when fetching mock quota token: %d'', s1)
          else
            (case body of
               Inl e \<Rightarrow> (Panic ''cannot read body: %v'', s1)
             | Inr createSessionToken \<Rightarrow>
                 (case NewGrpcClient E ''localhost'' 50051 of
                    Panic p \<Rightarrow> (Panic p, s1)
                  | Err e \<Rightarrow> (Err e, s1)
                  | Ok grpcClient \<Rightarrow>
                      (case g_CreateSession grpcClient [] \<lparr>cs_Jwt = createSessionToken\<rparr> s1 of
                         (Inl e, s2) \<Rightarrow> (Panic ''failed to create session: %v'', s2)
                       | (Inr sessionResponse, s2) \<Rightarrow> (Ok (csr_Jwt sessionResponse), s2)))))"

text \<open>The result of \<open>SendMetadata\<close> is discarded, unless it ends the process.\<close>

definition sendBoth :: "'r mail_libs \<Rightarrow> messager \<Rightarrow> string list \<Rightarrow> 'r \<Rightarrow> string result \<times> 'r" where
  "sendBoth E m ctx s =
     (let sender = ''alice@op1.com''; recipient = ''bob@op2.com''
      in case SendContent E m ctx sender recipient (mockMessage ''first'') s of
           (Panic p, s1) \<Rightarrow> (Panic p, s1)
         | (Err e, s1) \<Rightarrow> (Panic ''failed to send message: %v'', s1)
         | (Ok first, s1) \<Rightarrow>
             (case SendContent E m ctx sender recipient (mockMessage ''second'') s1 of
                (Panic p, s2) \<Rightarrow> (Panic p, s2)
              | (Err e, s2) \<Rightarrow> (Panic ''failed to send message: %v'', s2)
              | (Ok second, s2) \<Rightarrow>
                  (case SendMetadata E (embedded m) ctx sender recipient [first, second] s2 of
                     (Panic p, s3) \<Rightarrow> (Panic p, s3)
                   | (_, s3) \<Rightarrow>
                       (Ok (''Successfully sent email, resource names: '' @ first @ '' and '' @ second @ [CHR 0x0A]), s3))))"

definition cmd_write ::
    "'r mail_libs \<Rightarrow> 'r cmd_libs \<Rightarrow> key_libs \<Rightarrow> (go_error + string) \<Rightarrow> files \<Rightarrow> 'r \<Rightarrow> string result \<times> files \<times> 'r" where
  "cmd_write E X K flag fs s =
     (case flag of
        Inl e \<Rightarrow> (Panic ''failed to get messager'', fs, s)
      | Inr messagerType \<Rightarrow>
          (case getMessager K messagerType fs of
             (Panic p, fs1) \<Rightarrow> (Panic p, fs1, s)
           | (Err e, fs1) \<Rightarrow> (Err e, fs1, s)
           | (Ok messager1, fs1) \<Rightarrow>
               (case getMockSessionToken E X mockQuotaUrl s of
                  (Panic p, s1) \<Rightarrow> (Panic p, fs1, s1)
                | (Err e, s1) \<Rightarrow> (Err e, fs1, s1)
                | (Ok quotaToken, s1) \<Rightarrow>
                    (case sendBoth E messager1 [''Bearer '' @ quotaToken] s1 of (out, s2) \<Rightarrow> (out, fs1, s2)))))"

subsection \<open>\<open>cmd/login.go\<close> and \<open>cmd/read.go\<close>\<close>

definition getDefaultConfigPath :: "'r cmd_libs \<Rightarrow> string option \<Rightarrow> (go_error + string) \<Rightarrow> string" where
  "getDefaultConfigPath X lookupEnv homeDir =
     (case lookupEnv of
        Some defaultConfigPath \<Rightarrow> defaultConfigPath
      | None \<Rightarrow>
          (case homeDir of
             Inl e \<Rightarrow> ''''
           | Inr h \<Rightarrow> path_Join X [h, ''.prex'', ''pmail-config.yaml'']))"

definition persistToYaml :: "'r cmd_libs \<Rightarrow> key_libs \<Rightarrow> string \<Rightarrow> string \<Rightarrow> files \<Rightarrow> (go_error + unit) \<times> files" where
  "persistToYaml X K configPath authToken fs =
     (case MkdirAll K (filepath_Dir X configPath) of
        Some e \<Rightarrow> (Inl (Errorf ''cannot create default config file: %v''), fs)
      | None \<Rightarrow>
          (case yaml_Marshal X authToken of
             Inl e \<Rightarrow> (Inl e, fs)
           | Inr yamlData \<Rightarrow>
               (case WriteFile K configPath of
                  Some e \<Rightarrow> (Inl e, fs)
                | None \<Rightarrow> (Inr (), fs(configPath \<mapsto> yamlData)))))"

text \<open>\<open>authToken\<close> is what was typed; the error of \<open>persistToYaml\<close> is discarded.\<close>

definition cmd_login :: "'r cmd_libs \<Rightarrow> key_libs \<Rightarrow> (go_error + string) \<Rightarrow> string \<Rightarrow> files \<Rightarrow> unit result \<times> files" where
  "cmd_login X K flag authToken fs =
     (case flag of
        Inl e \<Rightarrow> (Panic ''no config file provided'', fs)
      | Inr configPath \<Rightarrow> (Ok (), snd (persistToYaml X K configPath authToken fs)))"

definition getAuthToken :: "'r cmd_libs \<Rightarrow> string \<Rightarrow> files \<Rightarrow> string result" where
  "getAuthToken X configPath fs =
     (case fs configPath of
        None \<Rightarrow> Panic ''failed to parse config file: %v''
      | Some yamlData \<Rightarrow>
          (case yaml_Unmarshal X yamlData of
             Inl e \<Rightarrow> Panic ''failed to parse yaml: %v''
           | Inr authToken \<Rightarrow> Ok authToken))"

text \<open>What is printed and logged for a message.\<close>

datatype shown = Printed nat EmailMetaMessage bytes | Logged string

fun readLoop :: "'r mail_libs \<Rightarrow> messager \<Rightarrow> string list \<Rightarrow> nat \<Rightarrow> EmailMetaMessage list \<Rightarrow> 'r \<Rightarrow> shown list result \<times> 'r" where
  "readLoop E m ctx i [] s = (Ok [], s)"
| "readLoop E m ctx i (emailKey # emailKeys) s =
     (case FetchMessage E m ctx emailKey s of
        (Panic p, s1) \<Rightarrow> (Panic p, s1)
      | (Err e, s1) \<Rightarrow> (Err e, s1)
      | (Ok (content, err), s1) \<Rightarrow>
          (case readLoop E m ctx (Suc i) emailKeys s1 of
             (Panic p, s2) \<Rightarrow> (Panic p, s2)
           | (Err e, s2) \<Rightarrow> (Err e, s2)
           | (Ok out, s2) \<Rightarrow>
               (Ok ((if err = None then [] else [Logged (em_ContentResourceName emailKey)]) @ Printed i emailKey content # out), s2)))"

definition cmd_read ::
    "'r mail_libs \<Rightarrow> 'r cmd_libs \<Rightarrow> key_libs \<Rightarrow> (go_error + string) \<Rightarrow> (go_error + string) \<Rightarrow> files \<Rightarrow> 'r \<Rightarrow>
     shown list result \<times> files \<times> 'r" where
  "cmd_read E X K configFlag messagerFlag fs s =
     (case configFlag of
        Inl e \<Rightarrow> (Panic ''cannot get config path'', fs, s)
      | Inr configPath \<Rightarrow>
     (case messagerFlag of
        Inl e \<Rightarrow> (Panic ''failed to get messager'', fs, s)
      | Inr messagerType \<Rightarrow>
     (case getMessager K messagerType fs of
        (Panic p, fs1) \<Rightarrow> (Panic p, fs1, s)
      | (Err e, fs1) \<Rightarrow> (Err e, fs1, s)
      | (Ok messager1, fs1) \<Rightarrow>
     (case getAuthToken X configPath fs1 of
        Panic p \<Rightarrow> (Panic p, fs1, s)
      | Err e \<Rightarrow> (Err e, fs1, s)
      | Ok authToken \<Rightarrow>
     (case getMockSessionToken E X mockQuotaUrl s of
        (Panic p, s1) \<Rightarrow> (Panic p, fs1, s1)
      | (Err e, s1) \<Rightarrow> (Err e, fs1, s1)
      | (Ok quotaToken, s1) \<Rightarrow>
     (case jwt_Parse X authToken of
        Inl e \<Rightarrow> (Panic ''could not parse jwt ID token: %v'', fs1, s1)
      | Inr (Inl e) \<Rightarrow> (Panic ''could not extract subject from jwt id token: %v'', fs1, s1)
      | Inr (Inr email) \<Rightarrow>
          let ctx = [''Bearer '' @ quotaToken]
          in case ListMessages E (embedded messager1) ctx email 9999 ''0-0'' authToken s1 of
               (Panic p, s2) \<Rightarrow> (Panic p, fs1, s2)
             | (Err e, s2) \<Rightarrow> (Panic ''failed to get email keys: %v'', fs1, s2)
             | (Ok emailKeys, s2) \<Rightarrow>
                 (case readLoop E messager1 ctx 0 emailKeys s2 of (out, s3) \<Rightarrow> (out, fs1, s3))))))))"

end
