(* ===== verification/Mail.thy ===== *)
theory Mail
  imports Email Values
begin

section \<open>What the mail example achieves\<close>

text \<open>
  The key broker keeps matching key pairs and finds them again in a later process, so what was sealed
  can be opened by the recipient (\<open>sealed_opens\<close>). What the example sends as content, the handlers of the service refuse.
  \<open>Mail_Service\<close> has the example over the whole service.
\<close>

subsection \<open>The key broker\<close>

definition broker_ok :: "key_libs \<Rightarrow> ToyPGPBroker \<Rightarrow> bool" where
  "broker_ok K b \<longleftrightarrow>
     dom (publicKeyStorate b) = dom (privateKeyStorate b) \<and>
     (\<forall>email priv pub. privateKeyStorate b email = Some priv \<longrightarrow> publicKeyStorate b email = Some pub \<longrightarrow> ToPublic K priv = Inr pub)"

text \<open>A private key that was written in armor reads back.\<close>

definition armor_reads :: "key_libs \<Rightarrow> bool" where
  "armor_reads K \<longleftrightarrow> (\<forall>k a. Armor K k = Inr a \<longrightarrow> NewPrivateKeyFromArmored K a '''' = Inr k)"

lemma addKeys_ok: "broker_ok K b \<Longrightarrow> ToPublic K priv = Inr pub \<Longrightarrow> broker_ok K (addKeys email priv pub b)"
  by (auto simp: broker_ok_def addKeys_def)

lemma savePath_inj [simp]: "savePath a = savePath b \<longleftrightarrow> a = b"
  by (simp add: savePath_def)

lemma newUser_keys:
  assumes "armor_reads K" and "newUser K name email b fs = (Ok b', fs')"
  obtains priv pub where "storedKey K fs' name = Some priv" and "ToPublic K priv = Inr pub"
    and "b' = addKeys email priv pub b" and "\<And>p. p \<noteq> savePath name \<Longrightarrow> fs' p = fs p"
proof (cases "storedKey K fs name")
  case (Some priv)
  with assms(2) that show ?thesis by (auto simp: newUser_def split: sum.splits)
next
  case None
  with assms(2) obtain priv pub armor where g: "ToPublic K priv = Inr pub" "Armor K priv = Inr armor"
      "b' = addKeys email priv pub b" "fs' = fs(savePath name \<mapsto> armor)"
    by (auto simp: newUser_def split: sum.splits option.splits)
  with assms(1) have "storedKey K fs' name = Some priv" by (simp add: storedKey_def armor_reads_def)
  with g that show ?thesis by auto
qed

lemma newUser_again:
  "storedKey K fs name = Some priv \<Longrightarrow> ToPublic K priv = Inr pub \<Longrightarrow> newUser K name email b fs = (Ok (addKeys email priv pub b), fs)"
  by (simp add: newUser_def)

lemma storedKey_cong: "fs' (savePath name) = fs (savePath name) \<Longrightarrow> storedKey K fs' name = storedKey K fs name"
  by (simp add: storedKey_def)

lemma Broker_Init_again:
  assumes a: "armor_reads K" and i: "Broker_Init K fs = (Ok b, fs')"
  shows "Broker_Init K fs' = (Ok b, fs')" and "broker_ok K b"
proof -
  let ?b0 = "\<lparr>privateKeyStorate = Map.empty, publicKeyStorate = Map.empty\<rparr> :: ToyPGPBroker"
  obtain b1 fs1 where n: "newUser K ''alice'' ''alice@op1.com'' ?b0 fs = (Ok b1, fs1)"
      "newUser K ''bob'' ''bob@op2.com'' b1 fs1 = (Ok b, fs')"
    using i by (auto simp: Broker_Init_def split: prod.splits result.splits)
  obtain ka pa where ka: "storedKey K fs1 ''alice'' = Some ka" "ToPublic K ka = Inr pa" "b1 = addKeys ''alice@op1.com'' ka pa ?b0"
    using newUser_keys [OF a n(1)] by blast
  obtain kb pb where kb: "storedKey K fs' ''bob'' = Some kb" "ToPublic K kb = Inr pb" "b = addKeys ''bob@op2.com'' kb pb b1"
      and f: "\<And>p. p \<noteq> savePath ''bob'' \<Longrightarrow> fs' p = fs1 p"
    using newUser_keys [OF a n(2)] by blast
  have "storedKey K fs' ''alice'' = Some ka" using ka(1) f by (simp add: storedKey_cong [of fs' "''alice''" fs1])
  with ka kb show "Broker_Init K fs' = (Ok b, fs')" by (simp add: Broker_Init_def newUser_again)
  have "broker_ok K ?b0" by (simp add: broker_ok_def)
  with ka kb show "broker_ok K b" by (simp add: addKeys_ok)
qed

subsection \<open>Sealed mail\<close>

text \<open>
  What PGP promises: what was encrypted for a recipient's public key and signed with a sender's
  private key is decrypted with the recipient's private key and verifies with the sender's public key.
\<close>

definition pgp_laws :: "'r mail_libs \<Rightarrow> key_libs \<Rightarrow> bool" where
  "pgp_laws E K \<longleftrightarrow>
     (\<forall>rsk rpk ssk spk enc msg ct arm. ToPublic K rsk = Inr rpk \<longrightarrow> ToPublic K ssk = Inr spk \<longrightarrow>
        NewEncryption E rpk ssk = Inr enc \<longrightarrow> enc msg = Inr ct \<longrightarrow> ArmorBytes E ct = Inr arm \<longrightarrow>
        (\<exists>dec. NewDecryption E rsk spk = Inr dec \<and> dec arm = Inr (msg, None)))"

definition address :: "string \<Rightarrow> int \<Rightarrow> string" where
  "address host port = host @ '':'' @ itoa port"

lemma NewPGPE2EEMessager_Ok:
  "NewPGPE2EEMessager K mh mp ch cp fs = (Ok m, fs1) \<longleftrightarrow>
     (\<exists>b. Broker_Init K fs = (Ok b, fs1) \<and>
        m = \<lparr>pm_contentServiceHost = ch, pm_contentServicePort = cp, pm_TraditionalMessager =
          \<lparr>tm_metadataServiceHost = mh, tm_metadataServicePort = mp, tm_self = KPGPE2EE\<rparr>, pm_keyBroker = b\<rparr>)"
  by (auto simp: NewPGPE2EEMessager_def split: prod.splits result.splits)

text \<open>What the end-to-end messager hands to the content service in place of a message.\<close>

definition sealed :: "'r mail_libs \<Rightarrow> ToyPGPBroker \<Rightarrow> string \<Rightarrow> string \<Rightarrow> bytes \<Rightarrow> go_error + bytes" where
  "sealed E b sender recipient message =
     (case LookupPrivateKey b sender of
        Inl e \<Rightarrow> Inl (Errorf ''sender private key lookup failed: %v'')
      | Inr senderPrivateKey \<Rightarrow>
          (case LookupPublicKey b recipient of
             Inl e \<Rightarrow> Inl (Errorf ''recipient public key lookup failed: %v'')
           | Inr recipientPublicKey \<Rightarrow>
               (case NewEncryption E recipientPublicKey senderPrivateKey of
                  Inl e \<Rightarrow> Inl e
                | Inr encHandle \<Rightarrow>
                    (case encHandle message of
                       Inl e \<Rightarrow> Inl e
                     | Inr pgpMessage \<Rightarrow> ArmorBytes E pgpMessage))))"

lemma PGP_SendContent_sealed:
  "PGP_SendContent E m ctx sender recipient message s =
     (case NewGrpcClient E (pm_contentServiceHost m) (pm_contentServicePort m) of
        Panic p \<Rightarrow> (Panic p, s)
      | Err e \<Rightarrow> (Err e, s)
      | Ok client \<Rightarrow>
          (case sealed E (pm_keyBroker m) sender recipient message of
             Inl e \<Rightarrow> (Err e, s)
           | Inr armored \<Rightarrow> DoSendContent client ctx armored s))"
  by (simp add: PGP_SendContent_def sealed_def split: result.split sum.split)

text \<open>Whoever gets the sealed bytes back, with the keys of the broker, reads the message.\<close>

lemma sealed_opens:
  assumes l: "pgp_laws E K" and k: "broker_ok K (pm_keyBroker m)"
    and p: "sealed E (pm_keyBroker m) (em_Sender info) (em_Recipient info) message = Inr arm"
    and f: "DoFetchMessage E (pm_TraditionalMessager m) ctx info s = (Ok arm, s1)"
  shows "PGP_FetchMessage E m ctx info s = (Ok (message, None), s1)"
proof -
  obtain ssk rpk enc ct where c: "privateKeyStorate (pm_keyBroker m) (em_Sender info) = Some ssk"
      "publicKeyStorate (pm_keyBroker m) (em_Recipient info) = Some rpk"
      "NewEncryption E rpk ssk = Inr enc" "enc message = Inr ct" "ArmorBytes E ct = Inr arm"
    using p by (auto simp: sealed_def LookupPrivateKey_def LookupPublicKey_def split: sum.splits option.splits)
  have "em_Recipient info \<in> dom (privateKeyStorate (pm_keyBroker m))" "em_Sender info \<in> dom (publicKeyStorate (pm_keyBroker m))"
    using k c(1,2) by (auto simp: broker_ok_def)
  then obtain rsk spk where r: "privateKeyStorate (pm_keyBroker m) (em_Recipient info) = Some rsk" "publicKeyStorate (pm_keyBroker m) (em_Sender info) = Some spk"
    by blast
  with k c(1,2) have t: "ToPublic K rsk = Inr rpk" "ToPublic K ssk = Inr spk" by (auto simp: broker_ok_def)
  obtain dec where "NewDecryption E rsk spk = Inr dec" "dec arm = Inr (message, None)"
    using l [unfolded pgp_laws_def] t c(3-5) by blast
  with f r show ?thesis by (simp add: PGP_FetchMessage_def LookupPrivateKey_def LookupPublicKey_def)
qed

text \<open>A later process has the keys that the first one generated.\<close>

lemma later_messager:
  assumes a: "armor_reads K" and m: "NewPGPE2EEMessager K mh mp ch cp fs = (Ok m, fs1)"
    and m': "NewPGPE2EEMessager K mh' mp' ch' cp' fs1 = (Ok m', fs2)"
  shows "pm_keyBroker m' = pm_keyBroker m" and "broker_ok K (pm_keyBroker m)"
proof -
  obtain b where b: "Broker_Init K fs = (Ok b, fs1)" "pm_keyBroker m = b" using m unfolding NewPGPE2EEMessager_Ok by auto
  then show "pm_keyBroker m' = pm_keyBroker m" using m' Broker_Init_again(1) [OF a b(1)] by (auto simp: NewPGPE2EEMessager_Ok)
  show "broker_ok K (pm_keyBroker m)" using Broker_Init_again(2) [OF a b(1)] b(2) by simp
qed

text \<open>The fetched bytes do not depend on where the content was sent, nor on the host the metadata names.\<close>

lemma fetch_ignores_content_service:
  "PGP_FetchMessage E (m\<lparr>pm_contentServiceHost := h, pm_contentServicePort := p\<rparr>) ctx (info\<lparr>em_Host := h', em_Port := p'\<rparr>) s =
     PGP_FetchMessage E m ctx info s"
  by (simp add: PGP_FetchMessage_def DoFetchMessage_def split: prod.split result.split sum.split option.split)

text \<open>Bytes whose signature does not verify are printed all the same.\<close>

lemma unverified_mail_is_printed:
  "FetchMessage E m ctx key s = (Ok (content, Some e), s1) \<Longrightarrow>
     readLoop E m ctx i [key] s = (Ok [Logged (em_ContentResourceName key), Printed i key content], s1)"
  by simp

subsection \<open>Over the service's own handlers\<close>

text \<open>The answer of a handler as its gRPC client sees it; a handler that panics breaks the connection.\<close>

fun as_call :: "'a result \<times> 'r \<Rightarrow> (go_error + 'a) \<times> 'r" where
  "as_call (Ok x, s) = (Inr x, s)"
| "as_call (Err e, s) = (Inl e, s)"
| "as_call (Panic m, s) = (Inl (LibErr m), s)"

definition mail_over_pkv ::
    "'r mail_libs \<Rightarrow> libs \<Rightarrow> 'r redis_client \<Rightarrow> (string \<Rightarrow> jwt_claims \<Rightarrow> bool \<Rightarrow> int \<Rightarrow> jwt_claims result) \<Rightarrow> int \<Rightarrow> bool" where
  "mail_over_pkv E L R verify now \<longleftrightarrow>
     (\<forall>addr c. dial E addr = Inr c \<longrightarrow>
        g_CreateValue c = (\<lambda>ctx req s. as_call (CreateValue L R req s)) \<and>
        g_GetValue c = (\<lambda>ctx req s. as_call (GetValue L R req s)) \<and>
        g_CreateStreamValue c = (\<lambda>ctx req s. as_call (CreateStreamValue L R now req s)) \<and>
        g_ListStreamValues c = (\<lambda>ctx req s. as_call (ListStreamValues R verify now req s)))"

lemma unspecified_rejected:
  "CreateValue L R \<lparr>cv_Codec = CODEC_UNSPECIFIED, cv_Value = v, cv_Ttl = t\<rparr> s =
     (Err (Status InvalidArgument ''failed to calculate cid: %s''), s)"
  by (simp add: CreateValue_def calculateCid_def CODEC_UNSPECIFIED_def CODEC_RAW_def CODEC_DAG_PB_def)

lemma DoSendContent_rejected:
  "mail_over_pkv E L R verify now \<Longrightarrow> dial E addr = Inr c \<Longrightarrow>
     DoSendContent c ctx message s = (Err (Errorf ''failed to set content: %v''), s)"
  by (simp add: DoSendContent_def mail_over_pkv_def unspecified_rejected)

lemma NewGrpcClient_Ok: "NewGrpcClient E host port = Ok c \<Longrightarrow> dial E (address host port) = Inr c"
  by (auto simp: NewGrpcClient_def address_def split: sum.splits)

lemma NewGrpcClient_not_Err: "NewGrpcClient E host port \<noteq> Err e"
  by (simp add: NewGrpcClient_def split: sum.split)

lemma itoa_small: "itoa 1 = ''1''" "itoa 2 = ''2''"
  by (simp_all add: itoa_def digits.simps digit_char_def)

definition stream_id :: "messager_kind \<Rightarrow> string" where
  "stream_id k = (case k of KTraditional \<Rightarrow> ''email-stream-1-v0.1.0'' | KPGPE2EE \<Rightarrow> ''email-stream-2-v0.1.0'')"

lemma mailbox_name: "formatResourceParent k recipient = ''accounts/'' @ recipient @ ''/streams/'' @ stream_id k" "valid_id (stream_id k)"
  by (cases k; simp add: formatResourceParent_def stream_id_def MessagerType_TRADITIONAL_def MessagerType_PGP_E2EE_def itoa_small
      valid_id_def id_char_def)+

subsection \<open>Properties\<close>

text \<open>
  C40. The service refuses every message the example sends. The request that stores the content names
  no codec, and the service stores content of a known codec only: over the service's handlers,
  \<open>SendContent\<close> of either messager fails, for any message, and stores nothing.
\<close>

theorem mail_content_rejected:
  assumes "mail_over_pkv E L R verify now"
  shows "\<exists>r. SendContent E m ctx sender recipient message s = (r, s) \<and> \<not> is_Ok r"
proof (cases m)
  case (MTraditional t)
  then show ?thesis
    using DoSendContent_rejected [OF assms NewGrpcClient_Ok]
    by (auto simp: Traditional_SendContent_def split: result.split)
next
  case (MPGPE2EE p)
  then show ?thesis
    using DoSendContent_rejected [OF assms NewGrpcClient_Ok]
    by (auto simp: PGP_SendContent_def split: result.split sum.split)
qed

definition demo_meta :: EmailMetaMessage where
  "demo_meta = \<lparr>em_MessageType = 0, em_Version = '''', em_Host = ''h'', em_Port = 1, em_Sender = ''al'', em_Recipient = ''bob'',
     em_ContentResourceName = ''values/r''\<rparr>"

definition demo_pkv_client :: "mem grpc_client" where
  "demo_pkv_client = \<lparr>g_CreateValue = (\<lambda>ctx req s. as_call (CreateValue demo_libs mem_redis req s)),
     g_GetValue = (\<lambda>ctx req s. as_call (GetValue demo_libs mem_redis req s)),
     g_CreateStreamValue = (\<lambda>ctx req s. as_call (CreateStreamValue demo_libs mem_redis (1000000 * Second) req s)),
     g_ListStreamValues = (\<lambda>ctx req s. as_call (ListStreamValues mem_redis (VerifyAndParseJwt demo_jwt demo_auth) (1000000 * Second) req s)),
     g_CreateSession = (\<lambda>ctx req s. (Inl RedisNil, s))\<rparr>"

definition demo_mail :: "'r grpc_client \<Rightarrow> 'r mail_libs" where
  "demo_mail c = \<lparr>dial = (\<lambda>_. Inr c), em_Marshal = (\<lambda>m. if m = demo_meta then Inr ''meta'' else Inl (LibErr ''proto'')),
     em_Unmarshal = (\<lambda>_. demo_meta), NewEncryption = (\<lambda>rpk ssk. Inr (\<lambda>m. Inr m)), ArmorBytes = Inr,
     NewDecryption = (\<lambda>rsk spk. Inr (\<lambda>m. Inr (m, None)))\<rparr>"

lemma demo_mail_over_pkv:
  "mail_over_pkv (demo_mail demo_pkv_client) demo_libs mem_redis (VerifyAndParseJwt demo_jwt demo_auth) (1000000 * Second)"
  by (simp add: mail_over_pkv_def demo_mail_def demo_pkv_client_def)

theorem mail_content_rejected_witness:
  "\<exists>r. SendContent (demo_mail demo_pkv_client) (MTraditional (NewTraditionalMessager ''h'' 1)) [] ''al'' ''bob'' ''hi'' demo_mem = (r, demo_mem) \<and>
     \<not> is_Ok r"
  using mail_content_rejected [OF demo_mail_over_pkv] .

definition demo_keys :: key_libs where
  "demo_keys = \<lparr>NewPrivateKeyFromArmored = (\<lambda>a p. Inr a), ToPublic = (\<lambda>k. Inr (''pub'' @ k)), GenerateKey = (\<lambda>n e. Inr n),
     Armor = Inr, MkdirAll = (\<lambda>_. None), WriteFile = (\<lambda>_. None)\<rparr>"

definition demo_letter :: EmailMetaMessage where
  "demo_letter = demo_meta\<lparr>em_Sender := ''alice@op1.com'', em_Recipient := ''bob@op2.com''\<rparr>"

end
