(* ===== verification/Programs.thy ===== *)
theory Programs
  imports Gateway Genjwt Mock_Prex Mail
begin

section \<open>The programs (\<open>main\<close> of \<open>cmd\<close> and \<open>examples/email\<close>, \<open>internal/api/utils.go\<close>)\<close>

text \<open>
  What each \<open>main\<close> sets up: the address it listens on, the patterns it registers with the mux of \<open>net/http\<close>, the
  order in which it reads its configuration and gives up. Listening and the wire formats are left to the
  libraries. The commands of the mail example are chosen by \<open>cobra\<close>, a parameter.
\<close>

subsection \<open>The mux of \<open>net/http\<close>\<close>

text \<open>
  A pattern that ends in a slash matches every path below it, another pattern only itself; the longest pattern
  that matches is taken. \<open>None\<close> says that the mux answers itself: not found, or a redirection to the path with
  a slash at its end. Paths are clean.
\<close>

type_synonym 'h mux = "(string \<times> 'h) list"

definition pattern_matches :: "string \<Rightarrow> string \<Rightarrow> bool" where
  "pattern_matches pat path \<longleftrightarrow> (if pat \<noteq> '''' \<and> last pat = CHR ''/'' then HasPrefix path pat else path = pat)"

fun longest_match :: "'h mux \<Rightarrow> string \<Rightarrow> (string \<times> 'h) option" where
  "longest_match [] path = None"
| "longest_match ((pat, h) # routes) path =
     (case longest_match routes path of
        None \<Rightarrow> if pattern_matches pat path then Some (pat, h) else None
      | Some (q, k) \<Rightarrow> if pattern_matches pat path \<and> length q < length pat then Some (pat, h) else Some (q, k))"

definition mux_handler :: "'h mux \<Rightarrow> string \<Rightarrow> 'h option" where
  "mux_handler routes path = map_option snd (longest_match routes path)"

lemma longest_match_None: "longest_match routes path = None \<Longrightarrow> (pat, h) \<in> set routes \<Longrightarrow> \<not> pattern_matches pat path"
  by (induction routes path rule: longest_match.induct) (auto split: option.splits if_splits)

lemma longest_match_Some:
  "longest_match routes path = Some (pat, h) \<Longrightarrow>
     (pat, h) \<in> set routes \<and> pattern_matches pat path \<and>
     (\<forall>(q, k) \<in> set routes. pattern_matches q path \<longrightarrow> length q \<le> length pat)"
  by (induction routes path arbitrary: pat h rule: longest_match.induct)
     (fastforce split: option.splits if_splits simp: longest_match_None)+

subsection \<open>Cross-origin requests\<close>

text \<open>The options handed to \<open>cors.New\<close>; the lists of \<open>connectrpc.com/cors\<close> are a parameter.\<close>

record cors_Options =
  co_AllowOriginFunc :: "string \<Rightarrow> bool"
  co_AllowedMethods :: "string list"
  co_AllowedHeaders :: "string list"
  co_ExposedHeaders :: "string list"
  co_AllowCredentials :: bool

record connectcors =
  cc_AllowedMethods :: "string list"
  cc_AllowedHeaders :: "string list"
  cc_ExposedHeaders :: "string list"

definition GetCorsConfig :: "connectcors \<Rightarrow> cors_Options" where
  "GetCorsConfig K = \<lparr>co_AllowOriginFunc = (\<lambda>origin. True), co_AllowedMethods = cc_AllowedMethods K,
     co_AllowedHeaders = cc_AllowedHeaders K @ [''Authorization''], co_ExposedHeaders = cc_ExposedHeaders K,
     co_AllowCredentials = True\<rparr>"

subsection \<open>\<open>cmd/pkv\<close>\<close>

text \<open>A program that has come as far as listening: the address and the patterns of its mux.\<close>

record 'h program =
  pg_Listen :: string
  pg_Routes :: "'h mux"

datatype pkv_route = ServiceRoute | ReflectionV1 | ReflectionV1Alpha

text \<open>
  \<open>randRead\<close> and \<open>randRead'\<close> are the random bytes of the two session managers that are made, \<open>validator\<close> the
  error of \<open>protovalidate.New\<close>, \<open>reflectPath\<close> the two paths of \<open>grpcreflect\<close>.
\<close>

definition service_path :: string where "service_path = ''/kvstore.v1.KvStoreService/''"

definition pkv_main ::
    "libs \<Rightarrow> crypto_libs \<Rightarrow> connectcors \<Rightarrow> go_error option \<Rightarrow> (go_error + Config) \<Rightarrow> (go_error + bytes) \<Rightarrow> (go_error + bytes) \<Rightarrow>
     go_error option \<Rightarrow> string \<times> string \<Rightarrow> (Server \<times> cors_Options \<times> pkv_route program) result" where
  "pkv_main L C K readErr settings randRead randRead' validator reflectPath =
     (case LoadConfig L C readErr settings of
        Panic m \<Rightarrow> Panic m
      | Err e \<Rightarrow> Err e
      | Ok conf \<Rightarrow>
     (case NewServer conf randRead of
        Panic m \<Rightarrow> Panic m
      | Err e \<Rightarrow> Panic ''cannot init server: %v''
      | Ok server \<Rightarrow>
     (case validator of
        Some e \<Rightarrow> Panic ''failed to initialize validator: %s''
      | None \<Rightarrow>
     (case NewRedisSessionManager randRead' of
        Panic m \<Rightarrow> Panic m
      | Err e \<Rightarrow> Err e
      | Ok sessionManager \<Rightarrow>
          Ok (server, GetCorsConfig K,
            \<lparr>pg_Listen = ''127.0.0.1:'' @ itoa (cf_GrpcPort conf),
             pg_Routes = [(service_path, ServiceRoute), (fst reflectPath, ReflectionV1), (snd reflectPath, ReflectionV1Alpha)]\<rparr>)))))"

text \<open>
  What a request does to the state. Reflection answers from the descriptors and keeps none; without a route
  the mux answers. \<open>None\<close> stands for these answers.
\<close>

definition pkv_serve ::
    "'r world \<Rightarrow> Server \<Rightarrow> pkv_route mux \<Rightarrow> string \<Rightarrow> int \<Rightarrow> AnyRequest \<Rightarrow> 'r \<Rightarrow> response result option \<times> 'r" where
  "pkv_serve W srv routes uuid now req s =
     (case mux_handler routes (Procedure req) of
        Some ServiceRoute \<Rightarrow> (case serve W srv uuid now req s of (r, s1) \<Rightarrow> (Some r, s1))
      | _ \<Rightarrow> (None, s))"

lemma mux_handler_None [simp]: "mux_handler [] path = None"
  by (simp add: mux_handler_def)

lemma procedures_below_service: "p \<in> set procedures \<Longrightarrow> HasPrefix p service_path"
  by (auto simp: procedures_def procedure_defs service_path_def HasPrefix_def)

text \<open>
  The mux in front of the router changes nothing: every procedure of the service reaches it, and what
  does not reach it would have left the state as it is.
\<close>

lemma pkv_routes_service:
  assumes m: "pkv_main L C K readErr settings randRead randRead' validator (r1, r2) = Ok (srv, co, p)"
    and r: "\<not> HasPrefix path r1" "\<not> HasPrefix path r2" "HasPrefix path service_path" "path \<noteq> r1" "path \<noteq> r2"
  shows "mux_handler (pg_Routes p) path = Some ServiceRoute"
proof -
  have "pg_Routes p = [(service_path, ServiceRoute), (r1, ReflectionV1), (r2, ReflectionV1Alpha)]"
    using m by (auto simp: pkv_main_def split: result.splits option.splits)
  with r show ?thesis by (simp add: mux_handler_def pattern_matches_def service_path_def)
qed

lemma pkv_serve_is_serve:
  assumes m: "pkv_main L C K readErr settings randRead randRead' validator (r1, r2) = Ok (srv, co, p)"
    and r: "\<forall>q \<in> set procedures. \<not> HasPrefix q r1 \<and> \<not> HasPrefix q r2 \<and> q \<noteq> r1 \<and> q \<noteq> r2"
  shows "snd (pkv_serve W srv (pg_Routes p) uuid now req s) = snd (serve W srv uuid now req s)"
    and "Procedure req \<in> set procedures \<Longrightarrow> fst (pkv_serve W srv (pg_Routes p) uuid now req s) = Some (fst (serve W srv uuid now req s))"
proof -
  have h: "mux_handler (pg_Routes p) (Procedure req) = Some ServiceRoute" if "Procedure req \<in> set procedures"
    using pkv_routes_service [OF m] r that procedures_below_service by blast
  then show "Procedure req \<in> set procedures \<Longrightarrow> fst (pkv_serve W srv (pg_Routes p) uuid now req s) = Some (fst (serve W srv uuid now req s))"
    by (simp add: pkv_serve_def case_prod_beta)
  show "snd (pkv_serve W srv (pg_Routes p) uuid now req s) = snd (serve W srv uuid now req s)"
  proof (cases "Procedure req \<in> set procedures")
    case True
    with h show ?thesis by (simp add: pkv_serve_def case_prod_beta)
  next
    case False
    then show ?thesis
      by (simp add: pkv_serve_def case_prod_beta serve_not_found split: option.split pkv_route.split)
  qed
qed

text \<open>A server runs only with a configuration that was read and keys that were derived.\<close>

lemma pkv_main_Ok:
  assumes "pkv_main L C K readErr settings randRead randRead' validator reflectPath = Ok (srv, co, p)"
  shows "LoadConfig L C readErr settings = Ok (srv_config srv)" and "NewServer (srv_config srv) randRead = Ok srv"
    and "validator = None" and "pg_Listen p = ''127.0.0.1:'' @ itoa (cf_GrpcPort (srv_config srv))"
    and "co = GetCorsConfig K"
  using assms by (auto simp: pkv_main_def NewServer_def split: result.splits option.splits)

subsection \<open>\<open>cmd/gateway\<close>\<close>

text \<open>\<open>glog.Fatal\<close> ends the process. \<open>endpoint\<close> is the flag, if it was given.\<close>

definition gateway_main ::
    "gateway_runtime \<Rightarrow> connectcors \<Rightarrow> (string \<Rightarrow> go_error + 'r ClientConn) \<Rightarrow> string option \<Rightarrow>
     (cors_Options \<times> string \<times> (http_Request \<Rightarrow> 'r \<Rightarrow> response result \<times> 'r)) result" where
  "gateway_main G K NewClient endpoint =
     (case gateway_run G NewClient (case endpoint of None \<Rightarrow> echoEndpoint | Some e \<Rightarrow> e) of
        Inl e \<Rightarrow> Panic ''''
      | Inr handler \<Rightarrow> Ok (GetCorsConfig K, '':'' @ itoa 3000, handler))"

subsection \<open>\<open>cmd/genjwt\<close>, \<open>cmd/mock_op\<close>, \<open>cmd/mock_prex\<close>\<close>

definition genjwt_main :: "crypto_libs \<Rightarrow> viper \<Rightarrow> string \<times> string \<Rightarrow> (genjwt_Config \<times> string \<times> genjwt_route program) result" where
  "genjwt_main C V googleEndpoint =
     (case genjwt_loadConfig C V googleEndpoint of
        Panic m \<Rightarrow> Panic m
      | Err e \<Rightarrow> Err e
      | Ok config \<Rightarrow>
          Ok (config, gj_redisHost config @ '':'' @ itoa (gj_redisPort config),
            \<lparr>pg_Listen = '':'' @ itoa (gj_servicePort config),
             pg_Routes = [(''/'', RouteHome), (''/v1/login'', RouteLogin), (''/v1/callback'', RouteCallback)]\<rparr>))"

datatype mock_op_route = RouteAuth | RouteToken | RouteUserInfo

definition mock_op_main :: "mock_op_route program" where
  "mock_op_main = \<lparr>pg_Listen = '':'' @ itoa 8081,
     pg_Routes = [(''/oauth2/auth'', RouteAuth), (''/oauth2/token'', RouteToken), (''/tokeninfo'', RouteUserInfo)]\<rparr>"

datatype mock_prex_route = RouteQuota

definition mock_prex_main :: "crypto_libs \<Rightarrow> go_error option \<Rightarrow> (go_error + prex_Config) \<Rightarrow> (prex_Config \<times> mock_prex_route program) result" where
  "mock_prex_main C readErr settings =
     (case prex_loadConfig C readErr settings of
        Panic m \<Rightarrow> Panic m
      | Err e \<Rightarrow> Err e
      | Ok config \<Rightarrow> Ok (config, \<lparr>pg_Listen = '':'' @ itoa 8100, pg_Routes = [(''/quota'', RouteQuota)]\<rparr>))"

text \<open>The patterns of the login service select what \<open>genjwt_mux\<close> says, for every path.\<close>

lemma genjwt_main_routes:
  assumes "genjwt_main C V g = Ok (cfg, redis, p)"
  shows "mux_handler (pg_Routes p) (CHR ''/'' # path) = Some (genjwt_mux (CHR ''/'' # path))"
proof -
  have "pg_Routes p = [(''/'', RouteHome), (''/v1/login'', RouteLogin), (''/v1/callback'', RouteCallback)]"
    using assms by (auto simp: genjwt_main_def split: result.splits)
  then show ?thesis by (simp add: mux_handler_def pattern_matches_def genjwt_mux_def HasPrefix_def)
qed

subsection \<open>\<open>examples/email\<close>\<close>

record string_flag =
  fl_Name :: string
  fl_Shorthand :: string
  fl_Value :: string
  fl_Usage :: string

record cobra_Command =
  cm_Use :: string
  cm_Short :: string
  cm_Long :: string
  cm_Flags :: "string_flag list"

type_synonym command_tree = "cobra_Command \<times> cobra_Command list"

text \<open>\<open>Flags().StringP\<close> and \<open>AddCommand\<close>, as far as the program uses them.\<close>

definition StringP :: "string \<Rightarrow> string \<Rightarrow> string \<Rightarrow> string \<Rightarrow> cobra_Command \<Rightarrow> cobra_Command" where
  "StringP name shorthand value usage cmd =
     cmd\<lparr>cm_Flags := cm_Flags cmd @ [\<lparr>fl_Name = name, fl_Shorthand = shorthand, fl_Value = value, fl_Usage = usage\<rparr>]\<rparr>"

definition AddCommand :: "cobra_Command \<Rightarrow> command_tree \<Rightarrow> command_tree" where
  "AddCommand cmd commands = (fst commands, snd commands @ [cmd])"

definition RootCmd :: cobra_Command where
  "RootCmd = \<lparr>cm_Use = ''pmail'', cm_Short = ''Command line interface of PAID mail'',
     cm_Long = ''A demo of using PAID mail. In production one should build native or web applications acting as the user agent and managethe states instead.'',
     cm_Flags = []\<rparr>"

definition loginCmd :: cobra_Command where
  "loginCmd = \<lparr>cm_Use = ''login'', cm_Short = ''Login to read private messages'', cm_Long = '''', cm_Flags = []\<rparr>"

definition readCmd :: cobra_Command where
  "readCmd = \<lparr>cm_Use = ''read'', cm_Short = ''Read private messages from server'', cm_Long = '''', cm_Flags = []\<rparr>"

definition writeCmd :: cobra_Command where
  "writeCmd = \<lparr>cm_Use = ''write'', cm_Short = ''Write private messages to server'', cm_Long = '''', cm_Flags = []\<rparr>"

text \<open>The \<open>init\<close> functions run in the order of their files; \<open>configPath\<close> is the value of \<open>getDefaultConfigPath\<close>.\<close>

definition init_login :: "string \<Rightarrow> command_tree \<Rightarrow> command_tree" where
  "init_login configPath = AddCommand (StringP ''config'' ''c'' configPath ''Config yaml path'' loginCmd)"

definition init_read :: "string \<Rightarrow> command_tree \<Rightarrow> command_tree" where
  "init_read configPath = AddCommand
     (StringP ''messager'' ''m'' ''pgp_e2ee'' ''traditional or pgp_e2ee'' (StringP ''config'' ''c'' configPath ''Config yaml path'' readCmd))"

definition init_write :: "command_tree \<Rightarrow> command_tree" where
  "init_write = AddCommand (StringP ''messager'' ''m'' ''pgp_e2ee'' ''traditional or pgp_e2ee'' writeCmd)"

definition pmail :: "string \<Rightarrow> command_tree" where
  "pmail configPath = init_write (init_read configPath (init_login configPath (RootCmd, [])))"

lemmas command_defs = RootCmd_def loginCmd_def readCmd_def writeCmd_def StringP_def AddCommand_def init_login_def init_read_def init_write_def

text \<open>
  \<open>cobra\<close> reads the arguments: an error, the name of the command to run with the values of its flags, or
  nothing to run. \<open>typed\<close> is what the user enters.
\<close>

type_synonym cobra = "command_tree \<Rightarrow> string list \<Rightarrow> go_error + (string \<times> (string \<Rightarrow> go_error + string)) option"

datatype pmail_run = RanLogin "unit result" | RanRead "shown list result" | RanWrite "string result" | RanNothing | Exit int

definition Execute ::
    "'r mail_libs \<Rightarrow> 'r cmd_libs \<Rightarrow> key_libs \<Rightarrow> cobra \<Rightarrow> string \<Rightarrow> string list \<Rightarrow> string \<Rightarrow> files \<Rightarrow> 'r \<Rightarrow> pmail_run \<times> files \<times> 'r" where
  "Execute E X K cobra configPath args typed fs s =
     (case cobra (pmail configPath) args of
        Inl err \<Rightarrow> (Exit 1, fs, s)
      | Inr None \<Rightarrow> (RanNothing, fs, s)
      | Inr (Some (use, GetString)) \<Rightarrow>
          if use = ''login'' then (case cmd_login X K (GetString ''config'') typed fs of (r, fs1) \<Rightarrow> (RanLogin r, fs1, s))
          else if use = ''read'' then
            (case cmd_read E X K (GetString ''config'') (GetString ''messager'') fs s of (r, fs1, s1) \<Rightarrow> (RanRead r, fs1, s1))
          else if use = ''write'' then (case cmd_write E X K (GetString ''messager'') fs s of (r, fs1, s1) \<Rightarrow> (RanWrite r, fs1, s1))
          else (RanNothing, fs, s))"

text \<open>What \<open>cobra\<close> promises: a command that runs is one of those added, and a flag not given has its value.\<close>

definition runs_commands :: "cobra \<Rightarrow> bool" where
  "runs_commands cobra \<longleftrightarrow>
     (\<forall>root cmds args use get. cobra (root, cmds) args = Inr (Some (use, get)) \<longrightarrow>
        (\<exists>c \<in> set cmds. cm_Use c = use \<and> (\<forall>f \<in> set (cm_Flags c). \<exists>v. get (fl_Name f) = Inr v)))"

text \<open>So no command ends for want of one of its flags.\<close>

lemma command_flags_found:
  assumes "runs_commands cobra" and "cobra (pmail configPath) args = Inr (Some (use, get))"
  shows "use \<in> {''login'', ''read'', ''write''}"
    and "use \<noteq> ''write'' \<Longrightarrow> \<exists>v. get ''config'' = Inr v"
    and "use \<noteq> ''login'' \<Longrightarrow> \<exists>v. get ''messager'' = Inr v"
proof -
  obtain c where "c \<in> set (snd (pmail configPath))" "cm_Use c = use" "\<forall>f \<in> set (cm_Flags c). \<exists>v. get (fl_Name f) = Inr v"
    using assms by (cases "pmail configPath") (fastforce simp: runs_commands_def)
  then show "use \<in> {''login'', ''read'', ''write''}" "use \<noteq> ''write'' \<Longrightarrow> \<exists>v. get ''config'' = Inr v"
    "use \<noteq> ''login'' \<Longrightarrow> \<exists>v. get ''messager'' = Inr v"
    by (auto simp: pmail_def command_defs)
qed

subsection \<open>The addresses the programs know each other by\<close>

definition loginUrl :: string where "loginUrl = ''http://localhost:8080/v1/login''"

lemma itoa_ports: "itoa 8080 = ''8080''" "itoa 8100 = ''8100''" "itoa 50051 = ''50051''"
  by (simp_all add: itoa_def digits.simps digit_char_def)

lemma quota_url_served:
  assumes "mock_prex_main C readErr settings = Ok (cfg, p)"
  shows "mockQuotaUrl = ''http://localhost'' @ pg_Listen p @ ''/quota'' @ ''?max_size=99999&ttl=999999''"
    and "mux_handler (pg_Routes p) ''/quota'' = Some RouteQuota"
proof -
  have p: "p = \<lparr>pg_Listen = '':'' @ itoa 8100, pg_Routes = [(''/quota'', RouteQuota)]\<rparr>"
    using assms by (auto simp: mock_prex_main_def split: result.splits)
  from p show "mockQuotaUrl = ''http://localhost'' @ pg_Listen p @ ''/quota'' @ ''?max_size=99999&ttl=999999''"
    by (simp add: mockQuotaUrl_def itoa_ports)
  show "mux_handler (pg_Routes p) ''/quota'' = Some RouteQuota" by (simp add: p mux_handler_def pattern_matches_def)
qed

lemma login_url_served:
  assumes "genjwt_main C V g = Ok (cfg, redis, p)" and "gj_servicePort cfg = 8080"
  shows "loginUrl = ''http://localhost'' @ pg_Listen p @ ''/v1/login''" and "mux_handler (pg_Routes p) ''/v1/login'' = Some RouteLogin"
proof -
  have "pg_Listen p = '':'' @ itoa 8080" using assms by (auto simp: genjwt_main_def split: result.splits)
  then show "loginUrl = ''http://localhost'' @ pg_Listen p @ ''/v1/login''" by (simp add: loginUrl_def itoa_ports)
  show "mux_handler (pg_Routes p) ''/v1/login'' = Some RouteLogin"
    using genjwt_main_routes [OF assms(1), of "''v1/login''"] by (simp add: genjwt_mux_def)
qed

text \<open>The gateway reaches a server that listens on the port of the example configuration.\<close>

lemma gateway_endpoint_listens:
  assumes "pkv_main L C K readErr settings randRead randRead' validator reflectPath = Ok (srv, co, p)"
    and "cf_GrpcPort (srv_config srv) = 50051"
  shows "\<exists>port. echoEndpoint = ''localhost:'' @ port \<and> pg_Listen p = ''127.0.0.1:'' @ port"
  using pkv_main_Ok(4) [OF assms(1)] assms(2) by (simp add: echoEndpoint_def itoa_ports)

end
