(* ===== verification/Redis_Commands.thy ===== *)
theory Redis_Commands
  imports Redis_Client
begin

section \<open>A handler, command by command\<close>

text \<open>
  The server handles every request in a goroutine of its own, and the handlers share Redis alone: what
  one handler sees depends on the commands other handlers run between two of its own. To speak of
  that without a second model of the handlers, this theory gives a meaning to a handler cut at its
  commands.

  Every method of the client is a command (\<open>redis_cmd\<close>) with an answer (\<open>redis_ans\<close>). A handler is
  written over any client, so it also runs over the client \<open>replay_client\<close>, whose state is the list
  of the answers its commands have had so far and a place for the command it would run next: the run
  takes the recorded answers one by one, and the first command that has no answer yet is noted down.

  A resumption (\<open>prog\<close>) is the tree of the commands of a handler: a result, or a command and what
  follows each of its answers. \<open>follows ok R h h'\<close> says that the handler \<open>h\<close> over the client \<open>R\<close> and
  the handler \<open>h'\<close> over the replay client run one resumption, whose commands are all \<open>ok\<close>. Its rules go
  through a handler's text.
\<close>

subsection \<open>Commands and answers\<close>

datatype redis_cmd =
    CmdSet string bytes int
  | CmdGet string
  | CmdGetDel string
  | CmdMemoryUsage string
  | CmdTTL string
  | CmdExpire string int
  | CmdSetNXGet string bytes
  | CmdDecrBy string int
  | CmdXAdd string string bool "(string \<times> bytes) list"
  | CmdXRangeN string string string int
  | CmdXRead "string list" string int int
  | CmdHSet string "(string \<times> bytes) list"
  | CmdHExpire string int string
  | CmdHScan string int
  | CmdZAddGT string real string
  | CmdZRangeWithScores string int int

datatype redis_ans =
    AnsUnit "go_error + unit"
  | AnsBytes "go_error + bytes"
  | AnsInt "go_error + int"
  | AnsBool "go_error + bool"
  | AnsAny "go_error + redis_any"
  | AnsString "go_error + string"
  | AnsMessages "go_error + XMessage list"
  | AnsStreams "go_error + XStream list"
  | AnsScan "string list \<times> go_error option"
  | AnsMembers "go_error + Z list"

fun exec_cmd :: "'r redis_client \<Rightarrow> redis_cmd \<Rightarrow> 'r \<Rightarrow> redis_ans \<times> 'r" where
  "exec_cmd R (CmdSet k v d) s = apfst AnsUnit (rSet R k v d s)"
| "exec_cmd R (CmdGet k) s = apfst AnsBytes (rGet R k s)"
| "exec_cmd R (CmdGetDel k) s = apfst AnsBytes (rGetDel R k s)"
| "exec_cmd R (CmdMemoryUsage k) s = apfst AnsInt (rMemoryUsage R k s)"
| "exec_cmd R (CmdTTL k) s = apfst AnsInt (rTTL R k s)"
| "exec_cmd R (CmdExpire k d) s = apfst AnsBool (rExpire R k d s)"
| "exec_cmd R (CmdSetNXGet k v) s = apfst AnsAny (rSetNXGet R k v s)"
| "exec_cmd R (CmdDecrBy k a) s = apfst AnsInt (rDecrBy R k a s)"
| "exec_cmd R (CmdXAdd k m ap fs) s = apfst AnsString (rXAdd R k m ap fs s)"
| "exec_cmd R (CmdXRangeN k st en n) s = apfst AnsMessages (rXRangeN R k st en n s)"
| "exec_cmd R (CmdXRead ks st n b) s = apfst AnsStreams (rXRead R ks st n b s)"
| "exec_cmd R (CmdHSet k fvs) s = apfst AnsInt (rHSet R k fvs s)"
| "exec_cmd R (CmdHExpire k d f) s = apfst AnsUnit (rHExpire R k d f s)"
| "exec_cmd R (CmdHScan k n) s = apfst AnsScan (rHScan R k n s)"
| "exec_cmd R (CmdZAddGT k sc x) s = apfst AnsInt (rZAddGT R k sc x s)"
| "exec_cmd R (CmdZRangeWithScores k i j) s = apfst AnsMembers (rZRangeWithScores R k i j s)"

text \<open>An answer that has not come: the command waits in Redis. Only \<open>XREAD\<close> does.\<close>

definition is_waiting :: "redis_ans \<Rightarrow> bool" where
  "is_waiting a \<longleftrightarrow> a = AnsStreams (Inl Unanswered)"

lemma is_waiting_simps [simp]:
  "is_waiting (AnsStreams x) \<longleftrightarrow> x = Inl Unanswered" "\<not> is_waiting (AnsUnit u)" "\<not> is_waiting (AnsBytes b)" "\<not> is_waiting (AnsInt i)"
  "\<not> is_waiting (AnsBool t)" "\<not> is_waiting (AnsAny a)" "\<not> is_waiting (AnsString s)" "\<not> is_waiting (AnsMessages m)"
  "\<not> is_waiting (AnsScan c)" "\<not> is_waiting (AnsMembers z)"
  by (simp_all add: is_waiting_def)

definition blocking :: "redis_cmd \<Rightarrow> bool" where
  "blocking c \<longleftrightarrow> (\<exists>ks st n b. c = CmdXRead ks st n b)"

lemma not_blocking [simp]:
  "\<not> blocking (CmdSet k v d)" "\<not> blocking (CmdGet k)" "\<not> blocking (CmdGetDel k)" "\<not> blocking (CmdMemoryUsage k)" "\<not> blocking (CmdTTL k)"
  "\<not> blocking (CmdExpire k d)" "\<not> blocking (CmdSetNXGet k v)" "\<not> blocking (CmdDecrBy k n)" "\<not> blocking (CmdXAdd k m ap fs)"
  "\<not> blocking (CmdXRangeN k st en n)" "\<not> blocking (CmdHSet k fs)" "\<not> blocking (CmdHExpire k d m)" "\<not> blocking (CmdHScan k n)"
  "\<not> blocking (CmdZAddGT k sc m)" "\<not> blocking (CmdZRangeWithScores k n n')"
  by (simp_all add: blocking_def)

lemma prompt_answer [simp]: "\<not> blocking c \<Longrightarrow> \<not> is_waiting (fst (exec_cmd R c s))"
  by (cases c) (simp_all add: is_waiting_def blocking_def)

subsection \<open>The replay client\<close>

type_synonym replay = "redis_ans list \<times> redis_cmd option"

fun take_answer :: "redis_cmd \<Rightarrow> replay \<Rightarrow> redis_ans option \<times> replay" where
  "take_answer c (a # as, None) = (Some a, (as, None))"
| "take_answer c ([], None) = (None, ([], Some c))"
| "take_answer c (as, Some d) = (None, (as, Some d))"

text \<open>What a method reads from an answer; where there is none, the run is cut and any value does.\<close>

fun ans_unit where "ans_unit (Some (AnsUnit x)) = x" | "ans_unit _ = Inl RedisNil"
fun ans_bytes where "ans_bytes (Some (AnsBytes x)) = x" | "ans_bytes _ = Inl RedisNil"
fun ans_int where "ans_int (Some (AnsInt x)) = x" | "ans_int _ = Inl RedisNil"
fun ans_bool where "ans_bool (Some (AnsBool x)) = x" | "ans_bool _ = Inl RedisNil"
fun ans_any where "ans_any (Some (AnsAny x)) = x" | "ans_any _ = Inl RedisNil"
fun ans_string where "ans_string (Some (AnsString x)) = x" | "ans_string _ = Inl RedisNil"
fun ans_messages where "ans_messages (Some (AnsMessages x)) = x" | "ans_messages _ = Inl RedisNil"
fun ans_streams where "ans_streams (Some (AnsStreams x)) = x" | "ans_streams _ = Inl RedisNil"
fun ans_scan where "ans_scan (Some (AnsScan x)) = x" | "ans_scan _ = ([], None)"
fun ans_members where "ans_members (Some (AnsMembers x)) = x" | "ans_members _ = Inl RedisNil"

definition replay_client :: "replay redis_client" where
  "replay_client = \<lparr>
     rSet = (\<lambda>k v d st. apfst ans_unit (take_answer (CmdSet k v d) st)),
     rGet = (\<lambda>k st. apfst ans_bytes (take_answer (CmdGet k) st)),
     rGetDel = (\<lambda>k st. apfst ans_bytes (take_answer (CmdGetDel k) st)),
     rMemoryUsage = (\<lambda>k st. apfst ans_int (take_answer (CmdMemoryUsage k) st)),
     rTTL = (\<lambda>k st. apfst ans_int (take_answer (CmdTTL k) st)),
     rExpire = (\<lambda>k d st. apfst ans_bool (take_answer (CmdExpire k d) st)),
     rSetNXGet = (\<lambda>k v st. apfst ans_any (take_answer (CmdSetNXGet k v) st)),
     rDecrBy = (\<lambda>k a st. apfst ans_int (take_answer (CmdDecrBy k a) st)),
     rXAdd = (\<lambda>k m ap fs st. apfst ans_string (take_answer (CmdXAdd k m ap fs) st)),
     rXRangeN = (\<lambda>k s e n st. apfst ans_messages (take_answer (CmdXRangeN k s e n) st)),
     rXRead = (\<lambda>ks s n b st. apfst ans_streams (take_answer (CmdXRead ks s n b) st)),
     rHSet = (\<lambda>k fvs st. apfst ans_int (take_answer (CmdHSet k fvs) st)),
     rHExpire = (\<lambda>k d f st. apfst ans_unit (take_answer (CmdHExpire k d f) st)),
     rHScan = (\<lambda>k n st. apfst ans_scan (take_answer (CmdHScan k n) st)),
     rZAddGT = (\<lambda>k sc x st. apfst ans_int (take_answer (CmdZAddGT k sc x) st)),
     rZRangeWithScores = (\<lambda>k i j st. apfst ans_members (take_answer (CmdZRangeWithScores k i j) st))\<rparr>"

lemma replay_cut: "snd (exec_cmd replay_client c (as, Some d)) = (as, Some d)"
  by (cases c) (simp_all add: replay_client_def)

lemma replay_ask: "snd (exec_cmd replay_client c ([], None)) = ([], Some c)"
  by (cases c) (simp_all add: replay_client_def)

text \<open>The answer a command of the replay client gives when one is recorded, as the handler reads it.\<close>

definition read_ans :: "redis_cmd \<Rightarrow> redis_ans \<Rightarrow> redis_ans" where
  "read_ans c a = fst (exec_cmd replay_client c ([a], None))"

lemma replay_answer: "exec_cmd replay_client c (a # as, None) = (read_ans c a, (as, None))"
  by (cases c) (simp_all add: replay_client_def read_ans_def)

lemma read_own_answer [simp]: "read_ans c (fst (exec_cmd R c s)) = fst (exec_cmd R c s)"
  by (cases c) (simp_all add: replay_client_def read_ans_def)

subsection \<open>Resumptions\<close>

datatype 'a prog = Done 'a | Call redis_cmd "redis_ans \<Rightarrow> 'a prog"

lemma prog_induct [case_names Done Call]:
  assumes "\<And>x. P (Done x)" and "\<And>c k. (\<And>a. P (k a)) \<Longrightarrow> P (Call c k)"
  shows "P t"
  by (induction t) (auto intro: assms)

primrec run :: "'r redis_client \<Rightarrow> 'a prog \<Rightarrow> 'r \<Rightarrow> 'a \<times> 'r" where
  "run R (Done x) = (\<lambda>s. (x, s))"
| "run R (Call c k) = (\<lambda>s. run R (k (fst (exec_cmd R c s))) (snd (exec_cmd R c s)))"

primrec bind_prog :: "'a prog \<Rightarrow> ('a \<Rightarrow> 'b prog) \<Rightarrow> 'b prog" where
  "bind_prog (Done x) f = f x"
| "bind_prog (Call c k) f = Call c (\<lambda>a. bind_prog (k a) f)"

primrec all_cmds :: "(redis_cmd \<Rightarrow> bool) \<Rightarrow> 'a prog \<Rightarrow> bool" where
  "all_cmds ok (Done x) = True"
| "all_cmds ok (Call c k) = (ok c \<and> (\<forall>a. all_cmds ok (k a)))"

text \<open>What is left of a resumption after some answers.\<close>

fun residue :: "'a prog \<Rightarrow> redis_ans list \<Rightarrow> 'a prog" where
  "residue t [] = t"
| "residue (Done x) (a # as) = Done x"
| "residue (Call c k) (a # as) = residue (k (read_ans c a)) as"

lemma run_bind: "run R (bind_prog t f) s = (case run R t s of (x, s') \<Rightarrow> run R (f x) s')"
  by (induction t arbitrary: s rule: prog_induct) simp_all

lemma all_cmds_bind: "all_cmds ok t \<Longrightarrow> (\<And>x. all_cmds ok (f x)) \<Longrightarrow> all_cmds ok (bind_prog t f)"
  by (induction t rule: prog_induct) simp_all

lemma residue_Done [simp]: "residue (Done x) as = Done x"
  by (cases as) simp_all

lemma residue_append: "residue t (as @ bs) = residue (residue t as) bs"
  by (induction t as rule: residue.induct) simp_all

lemma all_cmds_residue: "all_cmds ok t \<Longrightarrow> all_cmds ok (residue t as)"
  by (induction t as rule: residue.induct) simp_all

text \<open>A replay that has been cut stays as it is.\<close>

lemma run_cut: "snd (run replay_client t (as, Some c)) = (as, Some c)"
  by (induction t rule: prog_induct) (simp_all add: replay_cut)

text \<open>So the command noted down is the first of what is left, and there is none at the end.\<close>

lemma run_replay:
  "snd (snd (run replay_client t (as, None))) = (case residue t as of Done x \<Rightarrow> None | Call c k \<Rightarrow> Some c) \<and>
   (\<forall>x. residue t as = Done x \<longrightarrow> fst (run replay_client t (as, None)) = x)"
proof (induction t arbitrary: as rule: prog_induct)
  case (Done x)
  then show ?case by simp
next
  case (Call c k)
  show ?case
  proof (cases as)
    case Nil
    have "run replay_client (Call c k) ([], None) =
        run replay_client (k (fst (exec_cmd replay_client c ([], None)))) ([], Some c)"
      by (simp add: replay_ask)
    with Nil show ?thesis by (simp add: run_cut)
  next
    case (Cons a bs)
    with Call [of "read_ans c a" bs] show ?thesis by (simp add: replay_answer)
  qed
qed

text \<open>Whatever the answers, a resumption ends after finitely many of them.\<close>

lemma residue_ends: "\<exists>n x. residue t (map f [0..<n]) = Done x"
proof (induction t arbitrary: f rule: prog_induct)
  case (Done x)
  then show ?case by simp
next
  case (Call c k)
  from Call [of "read_ans c (f 0)" "\<lambda>i. f (Suc i)"] obtain n x
    where "residue (k (read_ans c (f 0))) (map (\<lambda>i. f (Suc i)) [0..<n]) = Done x" by blast
  moreover have "map f [0..<Suc n] = f 0 # map (\<lambda>i. f (Suc i)) [0..<n]"
    by (induction n) simp_all
  ultimately have "residue (Call c k) (map f [0..<Suc n]) = Done x" by simp
  then show ?case by blast
qed

text \<open>The resumptions left after one answer, as a well-founded relation.\<close>

definition prog_less :: "('a prog \<times> 'a prog) set" where
  "prog_less = {(k a, Call c k) | c k a. True}"

lemma wf_prog_less: "wf prog_less"
proof (rule wfUNIVI)
  fix P :: "'a prog \<Rightarrow> bool" and t
  assume step: "\<forall>x. (\<forall>y. (y, x) \<in> prog_less \<longrightarrow> P y) \<longrightarrow> P x"
  show "P t"
  proof (induction t rule: prog_induct)
    case (Done x)
    from step show ?case by (auto simp: prog_less_def)
  next
    case (Call c k)
    then have "P y" if "(y, Call c k) \<in> prog_less" for y using that by (auto simp: prog_less_def)
    with step show ?case by blast
  qed
qed

subsection \<open>Handlers that run a resumption\<close>

definition follows ::
    "(redis_cmd \<Rightarrow> bool) \<Rightarrow> 'r redis_client \<Rightarrow> ('r \<Rightarrow> 'a \<times> 'r) \<Rightarrow> (replay \<Rightarrow> 'a \<times> replay) \<Rightarrow> bool" where
  "follows ok R h h' \<longleftrightarrow> (\<exists>t. all_cmds ok t \<and> h = run R t \<and> h' = run replay_client t)"

named_theorems follows_rules

lemma follows_return [follows_rules]: "follows ok R (\<lambda>s. (x, s)) (\<lambda>s. (x, s))"
  unfolding follows_def by (rule exI [of _ "Done x"]) simp

lemma follows_bind [follows_rules]:
  assumes "follows ok R f f'" and "\<And>x. follows ok R (\<lambda>s. g x s) (\<lambda>s. g' x s)"
  shows "follows ok R (\<lambda>s. case f s of (x, s') \<Rightarrow> g x s') (\<lambda>s. case f' s of (x, s') \<Rightarrow> g' x s')"
proof -
  obtain t where t: "all_cmds ok t" "f = run R t" "f' = run replay_client t"
    using assms(1) by (auto simp: follows_def)
  have "\<forall>x. \<exists>u. all_cmds ok u \<and> g x = run R u \<and> g' x = run replay_client u"
    using assms(2) by (simp add: follows_def)
  then obtain u where u: "\<And>x. all_cmds ok (u x)" "\<And>x. g x = run R (u x)" "\<And>x. g' x = run replay_client (u x)"
    by metis
  show ?thesis
    unfolding follows_def
    by (rule exI [of _ "bind_prog t u"]) (auto simp: t u(2,3) run_bind fun_eq_iff intro: all_cmds_bind u(1) split: prod.split)
qed

lemma follows_if [follows_rules]:
  assumes "b \<Longrightarrow> follows ok R f f'" and "\<not> b \<Longrightarrow> follows ok R g g'"
  shows "follows ok R (\<lambda>s. if b then f s else g s) (\<lambda>s. if b then f' s else g' s)"
  using assms by (cases b) simp_all

lemma follows_sum [follows_rules]:
  assumes "\<And>e. x = Inl e \<Longrightarrow> follows ok R (f e) (f' e)" and "\<And>v. x = Inr v \<Longrightarrow> follows ok R (g v) (g' v)"
  shows "follows ok R (\<lambda>s. case x of Inl e \<Rightarrow> f e s | Inr v \<Rightarrow> g v s) (\<lambda>s. case x of Inl e \<Rightarrow> f' e s | Inr v \<Rightarrow> g' v s)"
  using assms by (cases x) simp_all

lemma follows_option [follows_rules]:
  assumes "x = None \<Longrightarrow> follows ok R f f'" and "\<And>v. x = Some v \<Longrightarrow> follows ok R (g v) (g' v)"
  shows "follows ok R (\<lambda>s. case x of None \<Rightarrow> f s | Some v \<Rightarrow> g v s) (\<lambda>s. case x of None \<Rightarrow> f' s | Some v \<Rightarrow> g' v s)"
  using assms by (cases x) simp_all

lemma follows_result [follows_rules]:
  assumes "\<And>v. x = Ok v \<Longrightarrow> follows ok R (f v) (f' v)" and "\<And>e. x = Err e \<Longrightarrow> follows ok R (g e) (g' e)"
    and "\<And>m. x = Panic m \<Longrightarrow> follows ok R (h m) (h' m)"
  shows "follows ok R (\<lambda>s. case x of Ok v \<Rightarrow> f v s | Err e \<Rightarrow> g e s | Panic m \<Rightarrow> h m s)
    (\<lambda>s. case x of Ok v \<Rightarrow> f' v s | Err e \<Rightarrow> g' e s | Panic m \<Rightarrow> h' m s)"
  using assms by (cases x) simp_all

lemma follows_any [follows_rules]:
  assumes "\<And>v. x = AnyString v \<Longrightarrow> follows ok R (f v) (f' v)" and "x = AnyOther \<Longrightarrow> follows ok R g g'"
  shows "follows ok R (\<lambda>s. case x of AnyString v \<Rightarrow> f v s | AnyOther \<Rightarrow> g s)
    (\<lambda>s. case x of AnyString v \<Rightarrow> f' v s | AnyOther \<Rightarrow> g' s)"
  using assms by (cases x) simp_all

lemma follows_pair [follows_rules]:
  assumes "\<And>a b. x = (a, b) \<Longrightarrow> follows ok R (f a b) (f' a b)"
  shows "follows ok R (\<lambda>s. case x of (a, b) \<Rightarrow> f a b s) (\<lambda>s. case x of (a, b) \<Rightarrow> f' a b s)"
  using assms by (cases x) simp

lemma follows_map [follows_rules]:
  assumes "follows ok R f f'"
  shows "follows ok R (\<lambda>s. apfst g (f s)) (\<lambda>s. apfst g (f' s))"
proof -
  have "follows ok R (\<lambda>s. case f s of (x, s') \<Rightarrow> (g x, s')) (\<lambda>s. case f' s of (x, s') \<Rightarrow> (g x, s'))"
    by (rule follows_bind [OF assms follows_return])
  then show ?thesis by (simp add: apfst_def map_prod_def)
qed

text \<open>A method is its command and the answer it reads.\<close>

lemma follows_command:
  assumes "\<And>s. exec_cmd R c s = apfst f (m s)" and "\<And>st. exec_cmd replay_client c st = apfst f (m' st)"
    and "inj f" and "ok c"
  shows "follows ok R m m'"
  unfolding follows_def
  by (rule exI [of _ "Call c (\<lambda>a. Done (inv f a))"])
     (simp add: assms fun_eq_iff prod_eq_iff inv_f_f [OF assms(3)])

lemma follows_methods [follows_rules]:
  "ok (CmdSet k v d) \<Longrightarrow> follows ok R (rSet R k v d) (rSet replay_client k v d)"
  "ok (CmdGet k) \<Longrightarrow> follows ok R (rGet R k) (rGet replay_client k)"
  "ok (CmdGetDel k) \<Longrightarrow> follows ok R (rGetDel R k) (rGetDel replay_client k)"
  "ok (CmdMemoryUsage k) \<Longrightarrow> follows ok R (rMemoryUsage R k) (rMemoryUsage replay_client k)"
  "ok (CmdTTL k) \<Longrightarrow> follows ok R (rTTL R k) (rTTL replay_client k)"
  "ok (CmdExpire k d) \<Longrightarrow> follows ok R (rExpire R k d) (rExpire replay_client k d)"
  "ok (CmdSetNXGet k v) \<Longrightarrow> follows ok R (rSetNXGet R k v) (rSetNXGet replay_client k v)"
  "ok (CmdDecrBy k a) \<Longrightarrow> follows ok R (rDecrBy R k a) (rDecrBy replay_client k a)"
  "ok (CmdXAdd k m ap fs) \<Longrightarrow> follows ok R (rXAdd R k m ap fs) (rXAdd replay_client k m ap fs)"
  "ok (CmdXRangeN k st en n) \<Longrightarrow> follows ok R (rXRangeN R k st en n) (rXRangeN replay_client k st en n)"
  "ok (CmdXRead ks st n b) \<Longrightarrow> follows ok R (rXRead R ks st n b) (rXRead replay_client ks st n b)"
  "ok (CmdHSet k fvs) \<Longrightarrow> follows ok R (rHSet R k fvs) (rHSet replay_client k fvs)"
  "ok (CmdHExpire k d f) \<Longrightarrow> follows ok R (rHExpire R k d f) (rHExpire replay_client k d f)"
  "ok (CmdHScan k n) \<Longrightarrow> follows ok R (rHScan R k n) (rHScan replay_client k n)"
  "ok (CmdZAddGT k sc x) \<Longrightarrow> follows ok R (rZAddGT R k sc x) (rZAddGT replay_client k sc x)"
  "ok (CmdZRangeWithScores k i j) \<Longrightarrow> follows ok R (rZRangeWithScores R k i j) (rZRangeWithScores replay_client k i j)"
  by (rule follows_command, rule exec_cmd.simps, rule exec_cmd.simps, simp add: inj_def, assumption)+

end
