(* ===== verification/Command_Policy.thy ===== *)
theory Command_Policy
  imports Service Redis_Commands
begin

section \<open>The commands of the handlers\<close>

text \<open>
  Which commands the handlers run, whatever Redis answers: \<open>command_policy\<close> lists the families of
  commands as laws of a predicate \<open>ok\<close>, and inside it every handler but \<open>CreateSession\<close> is shown to run
  a resumption of \<open>ok\<close> commands (\<open>follows\<close>). With \<open>ok\<close> true of every command the laws hold and every
  handler is a resumption; with \<open>ok c\<close> saying that \<open>c\<close> keeps the invariant of the service they hold too
  (\<open>keeping_policy\<close>), which is what the interleaving of requests needs.
\<close>

definition replay_world :: "'r world \<Rightarrow> replay world" where
  "replay_world W = \<lparr>wL = wL W, wJ = wJ W, wR = replay_client, wSort = wSort W, wValidate = wValidate W,
     wUnreadable = wUnreadable W\<rparr>"

lemma replay_world_simps [simp]:
  "wL (replay_world W) = wL W" "wJ (replay_world W) = wJ W" "wR (replay_world W) = replay_client"
  "wSort (replay_world W) = wSort W" "wValidate (replay_world W) = wValidate W" "wUnreadable (replay_world W) = wUnreadable W"
  by (simp_all add: replay_world_def)

lemma lift_resp_map: "lift_resp f p = apfst (map_result f) p"
  by (cases p; cases "fst p") auto

locale command_policy =
  fixes ok :: "redis_cmd \<Rightarrow> bool"
    and L :: libs
  assumes ok_reads: "ok (CmdGet k)" "ok (CmdMemoryUsage k)" "ok (CmdTTL k)" "ok (CmdXRangeN k st en n)"
      "ok (CmdHScan k n)" "ok (CmdZRangeWithScores k i j)"
    and ok_value: "calculateCid L m = Ok c \<Longrightarrow> ok (CmdSet (value_key c) (cv_Value m) d)"
    and ok_vsvc: "ok (CmdHSet (vsvc_cid_key h) fvs)" "ok (CmdExpire (vsvc_cid_key h) d)"
      "ok (CmdSet (vsvc_detail_key h) v d)" "ok (CmdZAddGT (vsvc_instance_key h) sc x)"
      "ok (CmdExpire (vsvc_instance_key h) d)" "ok (CmdSet (instance_key h) v d)"
    and ok_cid: "ok (CmdHSet (cid_vsvc_key c) fvs)" "ok (CmdHExpire (cid_vsvc_key c) d f)"
begin

lemmas allowed = ok_reads ok_value ok_vsvc ok_cid

lemma follows_CreateValue: "follows ok R (CreateValue L R m) (CreateValue L replay_client m)"
  unfolding CreateValue_def [abs_def] Let_def by (intro follows_rules allowed) assumption

lemma follows_GetValue: "follows ok R (GetValue L R m) (GetValue L replay_client m)"
  unfolding GetValue_def [abs_def] Let_def by (intro follows_rules allowed)

lemma follows_ProlongValue:
  "(\<And>d. ok (CmdExpire (pv_Name m) d)) \<Longrightarrow> follows ok R (ProlongValue L R m) (ProlongValue L replay_client m)"
  unfolding ProlongValue_def [abs_def] Let_def by (intro follows_rules allowed)

lemma follows_CreateStreamValue:
  "ok (CmdXAdd (csv_Parent m) (min_entry_id now) True [(''value'', csv_Value m)]) \<Longrightarrow> ok (CmdExpire (csv_Parent m) streamTtl) \<Longrightarrow>
     follows ok R (CreateStreamValue L R now m) (CreateStreamValue L replay_client now m)"
  unfolding CreateStreamValue_def [abs_def] Let_def by (intro follows_rules allowed)

lemma follows_ListStreamValues:
  "follows ok R (ListStreamValues R verify now m) (ListStreamValues replay_client verify now m)"
  unfolding ListStreamValues_def [abs_def] Let_def by (intro follows_rules allowed)

lemma follows_GetStreamValue:
  "(\<And>k i. ok (CmdXRead [k] i 1 0)) \<Longrightarrow> follows ok R (GetStreamValue R verify now m) (GetStreamValue replay_client verify now m)"
  unfolding GetStreamValue_def [abs_def] Let_def by (intro follows_rules allowed)

lemma follows_Ping: "follows ok R (Ping m) (Ping m)"
  unfolding Ping_def [abs_def] by (intro follows_rules)

lemma follows_instanceLoop:
  "follows ok R (instanceLoop L R n zs acc) (instanceLoop L replay_client n zs acc)"
proof (induction zs arbitrary: acc)
  case Nil
  then show ?case unfolding instanceLoop.simps by (intro follows_rules)
next
  case (Cons z zs)
  then show ?case unfolding instanceLoop.simps Let_def by (intro follows_rules allowed)
qed

lemma follows_searchInstances:
  "follows ok R (searchInstances L R v n) (searchInstances L replay_client v n)"
  unfolding searchInstances_def [abs_def] by (intro follows_rules allowed follows_instanceLoop)

lemma follows_SearchInstance: "follows ok R (SearchInstance L R m) (SearchInstance L replay_client m)"
  unfolding SearchInstance_def [abs_def] by (intro follows_rules follows_searchInstances)

lemma follows_scanLoop: "follows ok R (scanLoop L R err items acc) (scanLoop L replay_client err items acc)"
proof (induction items arbitrary: acc rule: induct_list012)
  case (3 h x rest)
  then show ?case unfolding scanLoop.simps Let_def by (intro follows_rules allowed)
qed (unfold scanLoop.simps, (intro follows_rules)+)

lemma follows_batchLoop: "follows ok R (batchLoop L R vs acc) (batchLoop L replay_client vs acc)"
proof (induction vs arbitrary: acc)
  case Nil
  then show ?case unfolding batchLoop.simps by (intro follows_rules)
next
  case (Cons v vs)
  then show ?case unfolding batchLoop.simps by (intro follows_rules follows_searchInstances)
qed

lemma follows_doSearchCid: "follows ok R (doSearchCid L R f m) (doSearchCid L replay_client f m)"
  unfolding doSearchCid_def [abs_def] by (intro follows_rules allowed follows_scanLoop follows_batchLoop)

lemma follows_set_marshalled:
  "(\<And>v. ok (CmdSet k v d)) \<Longrightarrow> follows ok R (set_marshalled R k b d) (set_marshalled replay_client k b d)"
  unfolding set_marshalled_def [abs_def] by (intro follows_rules)

lemma follows_seq_list:
  "(\<And>x. follows ok R (f x) (f' x)) \<Longrightarrow> follows ok R (seq_list f xs) (seq_list f' xs)"
proof (induction xs)
  case Nil
  show ?case unfolding seq_list.simps by (intro follows_rules)
next
  case (Cons x xs)
  show ?case unfolding seq_list.simps by (intro follows_rules Cons)
qed

lemma follows_registerVirtualService:
  "follows ok R (registerVirtualService L R now a) (registerVirtualService L replay_client now a)"
  unfolding registerVirtualService_def [abs_def] Let_def
  by (intro follows_rules follows_set_marshalled allowed)

lemma follows_registerOneCid: "follows ok R (registerOneCid R h c) (registerOneCid replay_client h c)"
  unfolding registerOneCid_def [abs_def] Let_def by (intro follows_rules allowed)

lemma follows_registerCid: "follows ok R (registerCid L R a) (registerCid L replay_client a)"
  unfolding registerCid_def [abs_def] by (intro follows_rules follows_seq_list follows_registerOneCid)

lemma follows_Register: "follows ok R (Register L R now a) (Register L replay_client now a)"
  unfolding Register_def [abs_def] by (intro follows_rules follows_registerVirtualService follows_registerCid)

lemma follows_RegisterInstance: "follows ok R (RegisterInstance L R now m) (RegisterInstance L replay_client now m)"
  unfolding RegisterInstance_def [abs_def] registerLoop.simps by (intro follows_rules follows_Register)

lemma follows_SearchCid: "follows ok R (SearchCid L R f m) (SearchCid L replay_client f m)"
  unfolding SearchCid_def [abs_def] by (intro follows_rules follows_doSearchCid)

lemma follows_DelegatedRouting: "follows ok R (DelegatedRouting L R f m) (DelegatedRouting L replay_client f m)"
  unfolding DelegatedRouting_def [abs_def] Let_def by (intro follows_rules follows_doSearchCid)

text \<open>All of them, by message.\<close>

lemma follows_lift: "follows ok R h h' \<Longrightarrow> follows ok R (\<lambda>s. lift_resp f (h s)) (\<lambda>s. lift_resp f (h' s))"
  unfolding lift_resp_map by (rule follows_map)

lemma follows_svc:
  assumes L: "wL W = L" and R: "wR W = R"
    and l: "\<And>m. AnyMsg req \<noteq> MCreateSession m"
    and s: "\<And>m. AnyMsg req = MCreateStreamValue m \<Longrightarrow> ok (CmdXAdd (csv_Parent m) (min_entry_id now) True [(''value'', csv_Value m)])"
      "\<And>m. AnyMsg req = MCreateStreamValue m \<Longrightarrow> ok (CmdExpire (csv_Parent m) streamTtl)"
    and p: "\<And>m d. AnyMsg req = MProlongValue m \<Longrightarrow> ok (CmdExpire (pv_Name m) d)"
    and x: "\<And>m k i. AnyMsg req = MGetStreamValue m \<Longrightarrow> ok (CmdXRead [k] i 1 0)"
  shows "follows ok R (svc W srv uuid now cs req) (svc (replay_world W) srv uuid now cs req)"
proof (cases "AnyMsg req")
  case (MCreateSession m)
  with l show ?thesis by blast
qed (auto simp: svc_def [abs_def] L R intro!: follows_lift follows_CreateValue follows_CreateStreamValue follows_GetValue
    follows_GetStreamValue follows_ListStreamValues follows_ProlongValue follows_SearchCid follows_SearchInstance
    follows_RegisterInstance follows_Ping follows_DelegatedRouting s p x)

end

text \<open>
  The commands that never wait are allowed: the handlers are resumptions over any client, and all of them
  but \<open>GetStreamValue\<close> are prompt.
\<close>

interpretation prompt: command_policy "\<lambda>c. \<not> blocking c" L for L
  by unfold_locales simp_all

interpretation any_command: command_policy "\<lambda>_. True" L for L
  by unfold_locales simp_all

subsection \<open>Commands that keep the invariant of the service\<close>

definition keeps :: "'r redis_client \<Rightarrow> libs \<Rightarrow> ('r \<Rightarrow> keyspace) \<Rightarrow> ('r \<Rightarrow> bool) \<Rightarrow> redis_cmd \<Rightarrow> bool" where
  "keeps R L view up c \<longleftrightarrow> (\<forall>s. up s \<longrightarrow> quiet L view up s (snd (exec_cmd R c s)))"

lemma quiet_update:
  assumes u: "up s'" and f: "\<And>k'. k' \<noteq> k \<Longrightarrow> view s' k' = view s k'"
    and k: "\<And>i. k \<noteq> session_key i"
    and t: "\<And>x e. view s' k = Some (x, e) \<Longrightarrow> (\<exists>e'. view s k = Some (x, e')) \<or> key_typed k x"
    and c: "\<And>c x e. k = value_key c \<Longrightarrow> view s' k = Some (x, e) \<Longrightarrow>
      (\<exists>e'. view s k = Some (x, e')) \<or> (\<exists>req. calculateCid L req = Ok c \<and> x = RStr (cv_Value req))"
  shows "quiet L view up s s'"
proof -
  have "view s' (session_key i) = view s (session_key i)" for i using f k by metis
  moreover have "values_intact L (view s')" if i: "values_intact L (view s)"
  proof (rule values_intactI [OF i])
    fix c' x e assume v: "view s' (value_key c') = Some (x, e)"
    show "(\<exists>e'. view s (value_key c') = Some (x, e')) \<or> (\<exists>req. calculateCid L req = Ok c' \<and> x = RStr (cv_Value req))"
    proof (cases "k = value_key c'")
      case True
      with c [of c' x e] v show ?thesis by simp
    next
      case False
      with f [of "value_key c'"] v have "view s (value_key c') = Some (x, e)" by simp
      then show ?thesis by blast
    qed
  qed
  moreover have "index_wf (view s')" if i: "index_wf (view s)"
  proof (rule index_wf_update [OF i])
    fix q x e assume v: "view s' q = Some (x, e)"
    show "(\<exists>e'. view s q = Some (x, e')) \<or> key_typed q x"
    proof (cases "q = k")
      case True
      with t v show ?thesis by simp
    next
      case False
      with f [of q] v have "view s q = Some (x, e)" by simp
      then show ?thesis by blast
    qed
  qed
  ultimately show ?thesis using u by (simp add: quiet_def)
qed

text \<open>On a key that is neither a session nor a value, only the type of an index key matters.\<close>

lemma quiet_other_key:
  assumes "up s'" and "\<And>k'. k' \<noteq> k \<Longrightarrow> view s' k' = view s k'"
    and "\<And>i. k \<noteq> session_key i" and "\<And>c. k \<noteq> value_key c"
    and "view s' k = view s k \<or> view s' k = None \<or> (\<exists>x e. view s' k = Some (x, e) \<and> key_typed k x)"
  shows "quiet L view up s s'"
  using assms by (intro quiet_update [where k = k]) (auto dest: sym [of "Some _"])

lemma index_key_not_session [simp]:
  "index_key k \<Longrightarrow> k \<noteq> session_key i" "index_key k \<Longrightarrow> k \<noteq> value_key c"
  by (auto simp: index_key_def session_key_def value_key_def)

context redis_contract
begin

lemma keeps_read:
  assumes "\<And>s. up s \<Longrightarrow> up (snd (exec_cmd R c s)) \<and> view (snd (exec_cmd R c s)) = view s"
  shows "keeps R L view up c"
  using assms by (simp add: keeps_def quiet_same)

lemma keeps_expire: "(\<And>i. k \<noteq> session_key i) \<Longrightarrow> keeps R L view up (CmdExpire k d)"
  unfolding keeps_def exec_cmd.simps snd_apfst
  by (intro allI impI quiet_update [where k = k])
     (simp, erule expire_frame, simp, simp, (rule disjI1, erule (1) expire_value)+)

lemma keeps_index:
  assumes k: "index_key k"
  shows "(\<And>m. key_typed k (RHash m)) \<Longrightarrow> keeps R L view up (CmdHSet k fvs)"
    and "(\<And>m. key_typed k (RHash m)) \<Longrightarrow> keeps R L view up (CmdHExpire k d f)"
    and "(\<And>zs. key_typed k (RZSet zs)) \<Longrightarrow> keeps R L view up (CmdZAddGT k sc x)"
    and "(\<And>v. key_typed k (RStr v)) \<Longrightarrow> keeps R L view up (CmdSet k v d)"
  using k unfolding keeps_def exec_cmd.simps snd_apfst
  by (auto intro!: quiet_other_key [where k = k] simp: frames
      dest: set_key [of _ k v d] hset_key [of _ k fvs] hexpire_key [of _ k d f] zadd_key [of _ k sc x])

lemma keeps_value:
  assumes "calculateCid L m = Ok c"
  shows "keeps R L view up (CmdSet (value_key c) (cv_Value m) d)"
  unfolding keeps_def exec_cmd.simps snd_apfst
proof (intro allI impI)
  fix s assume u: "up s"
  note k = set_key [OF u, of "value_key c" "cv_Value m" d]
  show "quiet L view up s (snd (rSet R (value_key c) (cv_Value m) d s))"
  proof (rule quiet_update [where k = "value_key c"])
    fix x e assume "view (snd (rSet R (value_key c) (cv_Value m) d s)) (value_key c) = Some (x, e)"
    show "(\<exists>e'. view s (value_key c) = Some (x, e')) \<or> key_typed (value_key c) x"
      by (rule disjI2, rule key_typed_other) (auto simp: index_key_def value_key_def)
  next
    fix c' x e
    assume c: "value_key c = value_key c'"
      and v: "view (snd (rSet R (value_key c) (cv_Value m) d s)) (value_key c) = Some (x, e)"
    from k v have "view s (value_key c) = Some (x, e) \<or> x = RStr (cv_Value m)" by auto
    with c assms show "(\<exists>e'. view s (value_key c) = Some (x, e')) \<or> (\<exists>req. calculateCid L req = Ok c' \<and> x = RStr (cv_Value req))"
      by auto
  qed (use u frames in simp_all)
qed

lemma keeps_stream:
  assumes "HasPrefix k ''accounts/''"
  shows "keeps R L view up (CmdXAdd k i ap fs)"
proof -
  note a = accounts_key [OF assms]
  show ?thesis
    unfolding keeps_def exec_cmd.simps snd_apfst
    by (intro allI impI quiet_other_key [where k = k])
       (use a key_typed_other [OF a(1)] in \<open>auto simp: frames dest: xadd_key [of _ k i ap fs]\<close>)
qed

lemma keeping_policy: "command_policy (keeps R L view up) L"
proof unfold_locales
  show "keeps R L view up (CmdGet k)" "keeps R L view up (CmdMemoryUsage k)" "keeps R L view up (CmdTTL k)"
    "keeps R L view up (CmdXRangeN k st en n)" "keeps R L view up (CmdHScan k n)"
    "keeps R L view up (CmdZRangeWithScores k i j)" for k st en n i j
    by (rule keeps_read; simp)+
  show "keeps R L view up (CmdSet (value_key c) (cv_Value m) d)" if "calculateCid L m = Ok c" for c m d
    using that by (rule keeps_value)
qed (simp_all add: keeps_index keeps_expire)

text \<open>
  A request other than a login runs commands that keep the invariant, once its charge is made, as long
  as it names a stream under \<open>accounts/\<close> or a value under \<open>values/\<close>.
\<close>

lemma svc_keeps:
  assumes "wR W = R" and n: "well_named (AnyMsg req)" and l: "\<And>m. AnyMsg req \<noteq> MCreateSession m"
  shows "follows (keeps R (wL W) view up) R (svc W srv uuid now cs req) (svc (replay_world W) srv uuid now cs req)"
proof (rule command_policy.follows_svc [OF keeping_policy refl assms(1) l])
  fix m assume "AnyMsg req = MCreateStreamValue m"
  with n have a: "HasPrefix (csv_Parent m) ''accounts/''" by simp
  then show "keeps R (wL W) view up (CmdXAdd (csv_Parent m) (min_entry_id now) True [(''value'', csv_Value m)])" by (rule keeps_stream)
  from accounts_key(3) [OF a] show "keeps R (wL W) view up (CmdExpire (csv_Parent m) streamTtl)" by (intro keeps_expire)
next
  fix m d assume "AnyMsg req = MProlongValue m"
  with n show "keeps R (wL W) view up (CmdExpire (pv_Name m) d)"
    using session_key_other(5) by (intro keeps_expire) auto
next
  show "keeps R (wL W) view up (CmdXRead [k] i 1 0)" for k i by (rule keeps_read) simp
qed

end

end
