(* ===== verification/Concurrency.thy ===== *)
theory Concurrency
  imports Command_Policy
begin

section \<open>Requests served at the same time\<close>

text \<open>
  \<open>net/http\<close> serves every request in a goroutine of its own. The handlers share no memory that they
  write, so they meet in Redis alone, where a command is one atomic step. A system is the store and the
  list of the requests that have arrived, each with the answers its commands have had; a step is the
  arrival of a request, the next command of one of them, or the passing of time. A command that has to wait
  for an answer is no step until it has one. The next command of a
  request is the one its replay (\<open>Redis_Commands\<close>) comes to; a request without one is answered.
  The list of session calls is a history variable: the calls whose command has been run, in order.
\<close>

record process =
  p_uuid :: string
  p_now :: int
  p_req :: AnyRequest
  p_answers :: "redis_ans list"

record 'r system =
  sy_store :: 'r
  sy_procs :: "process list"
  sy_calls :: "session_call list"

definition replayed :: "'r world \<Rightarrow> Server \<Rightarrow> process \<Rightarrow> response result \<times> replay" where
  "replayed W srv p = serve (replay_world W) srv (p_uuid p) (p_now p) (p_req p) (p_answers p, None)"

definition next_command :: "'r world \<Rightarrow> Server \<Rightarrow> process \<Rightarrow> redis_cmd option" where
  "next_command W srv p = snd (snd (replayed W srv p))"

definition answer :: "'r world \<Rightarrow> Server \<Rightarrow> process \<Rightarrow> response result option" where
  "answer W srv p = (if next_command W srv p = None then Some (fst (replayed W srv p)) else None)"

definition arrive :: "string \<Rightarrow> int \<Rightarrow> AnyRequest \<Rightarrow> 'r system \<Rightarrow> 'r system" where
  "arrive uuid now req sy =
     sy\<lparr>sy_procs := sy_procs sy @ [\<lparr>p_uuid = uuid, p_now = now, p_req = req, p_answers = []\<rparr>]\<rparr>"

text \<open>The command \<open>c\<close> of the request \<open>i\<close> is run. The first command of a request is its session call, if it has one.\<close>

definition advance :: "'r world \<Rightarrow> Server \<Rightarrow> nat \<Rightarrow> redis_cmd \<Rightarrow> 'r system \<Rightarrow> 'r system" where
  "advance W srv i c sy =
     (case exec_cmd (wR W) c (sy_store sy) of
        (a, s') \<Rightarrow>
          let p = sy_procs sy ! i
          in \<lparr>sy_store = s', sy_procs = (sy_procs sy)[i := p\<lparr>p_answers := p_answers p @ [a]\<rparr>],
              sy_calls = sy_calls sy @ (if p_answers p = [] then request_calls W srv (p_now p) (p_req p) else [])\<rparr>)"

inductive command_step :: "'r world \<Rightarrow> Server \<Rightarrow> 'r system \<Rightarrow> 'r system \<Rightarrow> bool" for W srv where
  command_stepI: "command_step W srv sy (advance W srv i c sy)"
    if "i < length (sy_procs sy)" and "next_command W srv (sy_procs sy ! i) = Some c"
      and "\<not> is_waiting (fst (exec_cmd (wR W) c (sy_store sy)))"

inductive system_step ::
    "'r world \<Rightarrow> Server \<Rightarrow> ('r \<Rightarrow> keyspace) \<Rightarrow> ('r \<Rightarrow> int) \<Rightarrow> ('r \<Rightarrow> bool) \<Rightarrow> 'r system \<Rightarrow> 'r system \<Rightarrow> bool"
  for W srv view clock up where
  step_arrive: "system_step W srv view clock up sy (arrive uuid now req sy)"
| step_command: "system_step W srv view clock up sy sy'"
    if "command_step W srv sy sy'"
| step_time: "system_step W srv view clock up sy (sy\<lparr>sy_store := s'\<rparr>)"
    if "elapse view clock up (sy_store sy) s'"

text \<open>All requests that have arrived name streams and values as \<open>well_named\<close> asks.\<close>

definition all_named :: "'r system \<Rightarrow> bool" where
  "all_named sy \<longleftrightarrow> list_all (\<lambda>p. well_named (AnyMsg (p_req p))) (sy_procs sy)"

definition idle :: "'r \<Rightarrow> 'r system" where
  "idle s = \<lparr>sy_store = s, sy_procs = [], sy_calls = []\<rparr>"

subsection \<open>The service is a resumption\<close>

lemma replay_plan [simp]: "plan (replay_world W) srv now req = plan W srv now req"
  by (simp add: plan_def)

lemma follows_deduct:
  "(0 < a \<Longrightarrow> ok (CmdDecrBy (session_key i) a)) \<Longrightarrow>
     follows ok R (sm_DeductSessionBalance R i a) (sm_DeductSessionBalance replay_client i a)"
  unfolding sm_DeductSessionBalance_def [abs_def] by (intro follows_rules) simp

lemma follows_create:
  "ok (CmdSetNXGet (session_key (hashToSessionId L m jti)) (itoa q)) \<Longrightarrow>
     follows ok R (sm_CreateSession L R m jti q ttl) (sm_CreateSession L replay_client m jti q ttl)"
  unfolding sm_CreateSession_def [abs_def] Let_def by (intro follows_rules) simp

lemma follows_claims [follows_rules]:
  assumes "\<And>c. x = Registered c \<Longrightarrow> follows ok R (f c) (f' c)" and "\<And>c. x = SessionClaims c \<Longrightarrow> follows ok R (g c) (g' c)"
    and "\<And>c. x = CreateSessionClaims c \<Longrightarrow> follows ok R (h c) (h' c)"
  shows "follows ok R (\<lambda>s. case x of Registered c \<Rightarrow> f c s | SessionClaims c \<Rightarrow> g c s | CreateSessionClaims c \<Rightarrow> h c s)
    (\<lambda>s. case x of Registered c \<Rightarrow> f' c s | SessionClaims c \<Rightarrow> g' c s | CreateSessionClaims c \<Rightarrow> h' c s)"
  using assms by (cases x) simp_all

lemma follows_CreateSession:
  assumes "\<And>jti q ttl. follows ok R (create jti q ttl) (create' jti q ttl)"
  shows "follows ok R (CreateSession J conf verify create uuid now m) (CreateSession J conf verify create' uuid now m)"
  unfolding CreateSession_def [abs_def] by (intro follows_rules assms)

lemma follows_validated:
  assumes "follows ok R (method now cs req) (method' now cs req)"
  shows "follows ok R (NewConnectValidationInterceptor v method now cs req) (NewConnectValidationInterceptor v method' now cs req)"
  unfolding NewConnectValidationInterceptor_def [abs_def] by (intro follows_rules assms)

lemma svc_follows:
  assumes ok: "\<And>c. \<not> blocking c \<Longrightarrow> ok c" and x: "\<And>m k i. AnyMsg req = MGetStreamValue m \<Longrightarrow> ok (CmdXRead [k] i 1 0)"
  shows "follows ok (wR W) (svc W srv uuid now cs req) (svc (replay_world W) srv uuid now cs req)"
proof -
  have P: "command_policy ok L" for L using ok by unfold_locales simp_all
  show ?thesis
  proof (cases "\<exists>m. AnyMsg req = MCreateSession m")
    case True
    with ok show ?thesis
      by (auto simp: svc_def [abs_def] intro!: command_policy.follows_lift [OF P] follows_CreateSession follows_create)
  next
    case False
    with ok x show ?thesis by (intro command_policy.follows_svc [OF P]) auto
  qed
qed

lemma serve_follows:
  assumes ok: "\<And>c. \<not> blocking c \<Longrightarrow> ok c" and x: "\<And>m k i. AnyMsg req = MGetStreamValue m \<Longrightarrow> ok (CmdXRead [k] i 1 0)"
  shows "follows ok (wR W) (serve W srv uuid now req) (serve (replay_world W) srv uuid now req)"
  unfolding serve_plan [abs_def] replay_plan replay_world_simps
  by (intro follows_rules follows_validated svc_follows [where ok = ok, OF ok x] follows_deduct) (simp_all add: ok)

lemma serve_resumption:
  "follows (\<lambda>_. True) (wR W) (serve W srv uuid now req) (serve (replay_world W) srv uuid now req)"
  by (rule serve_follows) simp_all

text \<open>What the replay of a request comes to, from its resumption.\<close>

lemma next_command_residue:
  assumes "serve (replay_world W) srv (p_uuid p) (p_now p) (p_req p) = run replay_client t"
  shows "next_command W srv p = (case residue t (p_answers p) of Done x \<Rightarrow> None | Call c k \<Rightarrow> Some c)"
  using run_replay [of t "p_answers p"] by (simp add: next_command_def replayed_def assms)

lemma answer_residue:
  assumes "serve (replay_world W) srv (p_uuid p) (p_now p) (p_req p) = run replay_client t"
  shows "answer W srv p = Some x \<longleftrightarrow> residue t (p_answers p) = Done x"
  using run_replay [of t "p_answers p"] next_command_residue [OF assms]
  by (auto simp: answer_def replayed_def assms split: prog.splits)

lemma follows_next:
  assumes "follows ok R h h'" and "snd (snd (h' (as, None))) = Some c"
  shows "ok c"
proof -
  obtain t where "all_cmds ok t" "h' = run replay_client t" using assms(1) by (auto simp: follows_def)
  with assms(2) run_replay [of t as] all_cmds_residue [of ok t as] show ?thesis by (auto split: prog.splits)
qed

lemma advance_simps [simp]:
  "sy_store (advance W srv i c sy) = snd (exec_cmd (wR W) c (sy_store sy))"
  "sy_procs (advance W srv i c sy) =
     (sy_procs sy)[i := (sy_procs sy ! i)\<lparr>p_answers := p_answers (sy_procs sy ! i) @ [fst (exec_cmd (wR W) c (sy_store sy))]\<rparr>]"
  "sy_calls (advance W srv i c sy) = sy_calls sy @
     (if p_answers (sy_procs sy ! i) = [] then request_calls W srv (p_now (sy_procs sy ! i)) (p_req (sy_procs sy ! i)) else [])"
  by (simp_all add: advance_def Let_def case_prod_beta)

lemma arrive_simps [simp]:
  "sy_store (arrive uuid now req sy) = sy_store sy" "sy_calls (arrive uuid now req sy) = sy_calls sy"
  "sy_procs (arrive uuid now req sy) = sy_procs sy @ [\<lparr>p_uuid = uuid, p_now = now, p_req = req, p_answers = []\<rparr>]"
  by (simp_all add: arrive_def)

subsection \<open>A request that runs alone\<close>

lemma run_alone:
  assumes t: "serve (replay_world W) srv (p_uuid p) (p_now p) (p_req p) = run replay_client t"
    and "residue t (p_answers p) = u" and "i < length (sy_procs sy)" and "sy_procs sy ! i = p"
    and "all_cmds (\<lambda>c. \<not> blocking c) u"
  shows "\<exists>sy' as. (command_step W srv)\<^sup>*\<^sup>* sy sy' \<and> sy_store sy' = snd (run (wR W) u (sy_store sy)) \<and>
    sy_procs sy' = (sy_procs sy)[i := p\<lparr>p_answers := as\<rparr>] \<and>
    residue t as = Done (fst (run (wR W) u (sy_store sy)))"
  using assms
proof (induction u arbitrary: p sy rule: prog_induct)
  case (Done x)
  then show ?case by (intro exI [of _ sy] exI [of _ "p_answers p"]) (auto simp: list_update_id)
next
  case (Call c k)
  let ?a = "fst (exec_cmd (wR W) c (sy_store sy))"
  let ?sy = "advance W srv i c sy"
  let ?p = "p\<lparr>p_answers := p_answers p @ [?a]\<rparr>"
  have n: "next_command W srv (sy_procs sy ! i) = Some c"
    using next_command_residue [OF Call.prems(1)] Call.prems(2,4) by simp
  have s: "command_step W srv sy ?sy"
    by (rule command_stepI [OF Call.prems(3) n]) (use Call.prems(5) in simp)
  have r: "residue t (p_answers ?p) = k ?a"
    using Call.prems(2) by (simp add: residue_append)
  have l: "i < length (sy_procs ?sy)" "sy_procs ?sy ! i = ?p"
    using Call.prems(3,4) by simp_all
  have k: "all_cmds (\<lambda>c. \<not> blocking c) (k ?a)" using Call.prems(5) by simp
  from Call.IH [OF _ r l k] Call.prems(1) obtain sy' as where
    "(command_step W srv)\<^sup>*\<^sup>* ?sy sy'" "sy_store sy' = snd (run (wR W) (k ?a) (sy_store ?sy))"
    "sy_procs sy' = (sy_procs ?sy)[i := ?p\<lparr>p_answers := as\<rparr>]"
    "residue t as = Done (fst (run (wR W) (k ?a) (sy_store ?sy)))" by auto
  with s Call.prems(3,4) show ?case
    by (intro exI [of _ sy'] exI [of _ as]) (auto intro: converse_rtranclp_into_rtranclp)
qed

lemma command_steps_system: "(command_step W srv)\<^sup>*\<^sup>* sy sy' \<Longrightarrow> (system_step W srv view clock up)\<^sup>*\<^sup>* sy sy'"
  by (induction rule: rtranclp_induct) (auto intro: step_command rtranclp.rtrancl_into_rtrancl)

text \<open>Only \<open>GetStreamValue\<close> may have to wait.\<close>

lemma serve_alone:
  assumes "\<And>m. AnyMsg req \<noteq> MGetStreamValue m" and "serve W srv uuid now req (sy_store sy) = (r, s')"
  shows "\<exists>sy' as. (system_step W srv view clock up)\<^sup>*\<^sup>* sy sy' \<and> sy_store sy' = s' \<and>
    sy_procs sy' = sy_procs sy @ [\<lparr>p_uuid = uuid, p_now = now, p_req = req, p_answers = as\<rparr>] \<and>
    answer W srv \<lparr>p_uuid = uuid, p_now = now, p_req = req, p_answers = as\<rparr> = Some r"
proof -
  have "follows (\<lambda>c. \<not> blocking c) (wR W) (serve W srv uuid now req) (serve (replay_world W) srv uuid now req)"
    by (rule serve_follows) (simp_all add: assms(1))
  then obtain t where t: "serve W srv uuid now req = run (wR W) t" "serve (replay_world W) srv uuid now req = run replay_client t"
      "all_cmds (\<lambda>c. \<not> blocking c) t"
    by (auto simp: follows_def)
  let ?p = "\<lparr>p_uuid = uuid, p_now = now, p_req = req, p_answers = []\<rparr>"
  let ?sy = "arrive uuid now req sy"
  have "serve (replay_world W) srv (p_uuid ?p) (p_now ?p) (p_req ?p) = run replay_client t" using t(2) by simp
  note a = run_alone [OF this refl, of "length (sy_procs sy)" ?sy]
  have "i < length (sy_procs ?sy)" "sy_procs ?sy ! length (sy_procs sy) = ?p" if "i = length (sy_procs sy)" for i
    using that by simp_all
  with a obtain sy' as where y: "(command_step W srv)\<^sup>*\<^sup>* ?sy sy'" "sy_store sy' = s'"
    "sy_procs sy' = sy_procs sy @ [?p\<lparr>p_answers := as\<rparr>]" "residue t as = Done r"
    using assms(2) t(1,3) by auto
  have "answer W srv (?p\<lparr>p_answers := as\<rparr>) = Some r"
    using answer_residue [of W srv "?p\<lparr>p_answers := as\<rparr>" t r] t(2) y(4) by simp
  moreover have "(system_step W srv view clock up)\<^sup>*\<^sup>* sy sy'"
    using step_arrive command_steps_system [OF y(1)] by (rule converse_rtranclp_into_rtranclp)
  ultimately show ?thesis using y(2,3) by auto
qed

subsection \<open>Requests end\<close>

lemma listrel1_update: "i < length xs \<Longrightarrow> (y, xs ! i) \<in> r \<Longrightarrow> (xs[i := y], xs) \<in> listrel1 r"
  unfolding listrel1_iff_update by (intro exI [of _ "xs ! i"] exI [of _ i]) simp

text \<open>A command step takes one resumption of the list one command further.\<close>

lemma command_step_less:
  assumes t: "\<And>p :: process. serve (replay_world W) srv (p_uuid p) (p_now p) (p_req p) = run replay_client (t (p_uuid p) (p_now p) (p_req p))"
    and s: "command_step W srv sy sy'"
  shows "(map (\<lambda>p. residue (t (p_uuid p) (p_now p) (p_req p)) (p_answers p)) (sy_procs sy'),
    map (\<lambda>p. residue (t (p_uuid p) (p_now p) (p_req p)) (p_answers p)) (sy_procs sy)) \<in> listrel1 prog_less"
  using s
proof cases
  case (command_stepI i c)
  let ?left = "\<lambda>p. residue (t (p_uuid p) (p_now p) (p_req p)) (p_answers p)"
  let ?p = "sy_procs sy ! i"
  obtain k where k: "?left ?p = Call c k"
    using command_stepI(3) next_command_residue [OF t [of ?p]] by (auto split: prog.splits)
  let ?a = "fst (exec_cmd (wR W) c (sy_store sy))"
  have "?left (?p\<lparr>p_answers := p_answers ?p @ [?a]\<rparr>) = k ?a"
    using k by (simp add: residue_append)
  then have "map ?left (sy_procs sy') = (map ?left (sy_procs sy))[i := k ?a]"
    using command_stepI(1) by (simp add: map_update)
  moreover have "(k ?a, map ?left (sy_procs sy) ! i) \<in> prog_less"
    using command_stepI(2) k by (auto simp: prog_less_def)
  ultimately show ?thesis
    using command_stepI(2) listrel1_update [of i "map ?left (sy_procs sy)" "k ?a" prog_less] by simp
qed

lemma command_steps_end: "wfP (\<lambda>sy' sy. command_step W srv sy sy')"
proof -
  have "\<forall>uuid now req. \<exists>t. serve (replay_world W) srv uuid now req = run replay_client t"
    using serve_resumption unfolding follows_def by metis
  then obtain t where t: "\<And>uuid now req. serve (replay_world W) srv uuid now req = run replay_client (t uuid now req)"
    by metis
  let ?f = "\<lambda>sy. map (\<lambda>p. residue (t (p_uuid p) (p_now p) (p_req p)) (p_answers p)) (sy_procs sy)"
  have "wf (inv_image (listrel1 prog_less) ?f)"
    by (intro wf_inv_image) (simp add: wf_listrel1_iff wf_prog_less)
  then show ?thesis
    unfolding wfp_def by (rule wf_subset) (auto simp: inv_image_def intro: command_step_less t)
qed

subsection \<open>Which command comes first\<close>

fun call_command :: "(string \<Rightarrow> string) \<Rightarrow> session_call \<Rightarrow> redis_cmd" where
  "call_command sid_of (CCreate jti q ttl) = CmdSetNXGet (session_key (sid_of jti)) (itoa q)"
| "call_command sid_of (CDeduct i a) = CmdDecrBy (session_key i) a"

text \<open>The state of a replayed session call: before its answer, the command; after it, nothing more.\<close>

lemma replayed_create:
  "snd (sm_CreateSession L replay_client m jti q ttl ([], None)) =
     ([], Some (CmdSetNXGet (session_key (hashToSessionId L m jti)) (itoa q)))"
  "snd (sm_CreateSession L replay_client m jti q ttl (a # as, None)) = (as, None)"
  by (auto simp: sm_CreateSession_def replay_client_def Let_def split: sum.split redis_any.split)

lemma replayed_deduct:
  "0 < p \<Longrightarrow> sm_DeductSessionBalance replay_client i p ([], None) =
     (Err (Errorf ''session not found or expired''), ([], Some (CmdDecrBy (session_key i) p)))"
  "snd (sm_DeductSessionBalance replay_client i p (a # as, None)) = (if 0 < p then as else a # as, None)"
  "is_Ok (fst (sm_DeductSessionBalance replay_client i p (a # as, None))) \<longleftrightarrow>
     0 < p \<and> (\<exists>n \<ge> 0. a = AnsInt (Inr n))"
  by (auto simp: sm_DeductSessionBalance_def replay_client_def elim: ans_int.elims split: sum.split)

text \<open>What a request has paid to a session: its charge, when its \<open>DECRBY\<close> has left a balance.\<close>

definition paid_by :: "'r world \<Rightarrow> Server \<Rightarrow> string \<Rightarrow> process \<Rightarrow> int" where
  "paid_by W srv i p =
     (case request_calls W srv (p_now p) (p_req p) of
        [CDeduct j a] \<Rightarrow>
          (case p_answers p of
             AnsInt (Inr n) # _ \<Rightarrow> if j = i \<and> 0 < a \<and> 0 \<le> n then a else 0
           | _ \<Rightarrow> 0)
      | _ \<Rightarrow> 0)"

definition process_cost :: "'r world \<Rightarrow> Server \<Rightarrow> string \<Rightarrow> process \<Rightarrow> int" where
  "process_cost W srv i p =
     (case answer W srv p of
        None \<Rightarrow> 0
      | Some r \<Rightarrow> event_cost W srv i (Request (p_uuid p) (p_now p) (p_req p) r))"

lemma login_calls_cases:
  "login_calls W srv now msg = [] \<or> (\<exists>jti q ttl. login_calls W srv now msg = [CCreate jti q ttl])"
  by (auto simp: login_calls_def split: message.split option.split)

lemma paid_by_nonneg: "0 \<le> paid_by W srv i p"
  by (auto simp: paid_by_def split: list.split session_call.split redis_ans.split sum.split)

lemma paid_by_start: "p_answers p = [] \<Longrightarrow> paid_by W srv i p = 0"
  by (auto simp: paid_by_def split: list.split session_call.split)

lemma paid_by_later: "p_answers p \<noteq> [] \<Longrightarrow> paid_by W srv i (p\<lparr>p_answers := p_answers p @ bs\<rparr>) = paid_by W srv i p"
  by (cases "p_answers p") (auto simp: paid_by_def split: list.split session_call.split)

text \<open>A request that is charged and answered without an error has paid.\<close>

lemma process_cost_paid: "process_cost W srv i p \<le> paid_by W srv i p"
proof (cases "answer W srv p")
  case None
  then show ?thesis by (simp add: process_cost_def paid_by_nonneg)
next
  case (Some r)
  let ?req = "p_req p"
  show ?thesis
  proof (cases "is_Ok r \<and> routed ?req \<and> \<not> open_door srv ?req \<and> (\<exists>q. plan W srv (p_now p) ?req = Inr q)")
    case False
    with Some have "process_cost W srv i p = 0" by (auto simp: process_cost_def split: sum.split)
    then show ?thesis by (simp add: paid_by_nonneg)
  next
    case True
    then obtain j a where q: "plan W srv (p_now p) ?req = Inr (j, a)" by auto
    have c: "request_calls W srv (p_now p) ?req = [CDeduct j a]" using True q by (simp add: request_calls_def)
    have n: "next_command W srv p = None" and r: "is_Ok (fst (replayed W srv p))"
      using Some True by (auto simp: answer_def split: if_splits)
    let ?d = "sm_DeductSessionBalance replay_client j a (p_answers p, None)"
    have d: "is_Ok (fst ?d)"
      using r True q by (cases ?d; cases "fst ?d") (auto simp: replayed_def serve_plan)
    show ?thesis
    proof (cases "p_answers p")
      case Nil
      show ?thesis
      proof (cases "0 < a")
        case True
        with d Nil show ?thesis by (simp add: replayed_deduct)
      next
        case False
        with d show ?thesis by (simp add: sm_DeductSessionBalance_def)
      qed
    next
      case (Cons b bs)
      with d obtain m where "0 < a" "0 \<le> m" "b = AnsInt (Inr m)" by (auto simp: replayed_deduct)
      with Some True q c Cons show ?thesis by (auto simp: process_cost_def paid_by_def)
    qed
  qed
qed

context service_world
begin

text \<open>The first command of a request is its session call; every other keeps the invariant.\<close>

lemma next_after_handler:
  assumes n: "well_named (AnyMsg req)" and l: "\<And>m. AnyMsg req \<noteq> MCreateSession m"
    and c: "snd (snd (NewConnectValidationInterceptor (wValidate W) (svc (replay_world W) srv uuid) now cs req (as, None))) = Some c"
  shows "keeps (wR W) (wL W) view up c"
proof -
  have "follows (keeps (wR W) (wL W) view up) (wR W) (NewConnectValidationInterceptor (wValidate W) (svc W srv uuid) now cs req)
      (NewConnectValidationInterceptor (wValidate W) (svc (replay_world W) srv uuid) now cs req)"
    by (intro follows_validated svc_keeps refl n l)
  from follows_next [OF this c] show ?thesis .
qed

lemma first_login:
  assumes a: "p_answers p = []" and c: "next_command W srv p = Some c"
    and r: "routed (p_req p)" and o: "open_door srv (p_req p)" and m: "AnyMsg (p_req p) = MCreateSession m"
  shows "\<exists>jti q ttl. request_calls W srv (p_now p) (p_req p) = [CCreate jti q ttl] \<and>
    c = call_command (hashToSessionId (wL W) (srv_sessionManager srv)) (CCreate jti q ttl)"
proof -
  let ?g = "quota_grant (VerifyAndParseJwt (wJ W) (srv_authmanager srv)) (p_now p) m"
  have s: "replayed W srv p =
      NewConnectValidationInterceptor (wValidate W) (svc (replay_world W) srv (p_uuid p)) (p_now p) None (p_req p) ([], None)"
    using r o a by (simp add: replayed_def serve_plan)
  have v: "wValidate W (AnyMsg (p_req p)) = None" using c s by (auto simp: next_command_def validated_state split: if_splits)
  with c s m obtain jti q ttl where g: "?g = Some (jti, q, ttl)"
    by (auto simp: next_command_def validated_state svc_def CreateSession_state split: option.splits)
  with c s m v have "c = CmdSetNXGet (session_key (hashToSessionId (wL W) (srv_sessionManager srv) jti)) (itoa q)"
    by (simp add: next_command_def validated_state svc_def CreateSession_state replayed_create)
  moreover have "request_calls W srv (p_now p) (p_req p) = [CCreate jti q ttl]"
    using r o m v g by (simp add: request_calls_def login_calls_def)
  ultimately show ?thesis by simp
qed

lemma first_next:
  assumes a: "p_answers p = []" and c: "next_command W srv p = Some c" and n: "well_named (AnyMsg (p_req p))"
  shows "request_calls W srv (p_now p) (p_req p) = [] \<and> keeps (wR W) (wL W) view up c \<or>
    (\<exists>call. request_calls W srv (p_now p) (p_req p) = [call] \<and>
       c = call_command (hashToSessionId (wL W) (srv_sessionManager srv)) call \<and> (\<forall>i q. call = CDeduct i q \<longrightarrow> 0 < q))"
proof -
  let ?req = "p_req p"
  have r: "routed ?req" using c a by (auto simp: next_command_def replayed_def serve_plan split: if_splits)
  show ?thesis
  proof (cases "open_door srv ?req")
    case o: True
    have s: "replayed W srv p = NewConnectValidationInterceptor (wValidate W) (svc (replay_world W) srv (p_uuid p)) (p_now p) None ?req ([], None)"
      using r o a by (simp add: replayed_def serve_plan)
    show ?thesis
    proof (cases "\<exists>m. AnyMsg ?req = MCreateSession m")
      case True
      then obtain m where "AnyMsg ?req = MCreateSession m" by blast
      from first_login [OF a c r o this] show ?thesis by auto
    next
      case False
      then have "request_calls W srv (p_now p) ?req = []"
        using r o by (auto simp: request_calls_def login_calls_def split: message.split)
      moreover have "keeps (wR W) (wL W) view up c"
        using next_after_handler [OF n] False c s by (auto simp: next_command_def)
      ultimately show ?thesis by blast
    qed
  next
    case o: False
    with r c a obtain j q where q: "plan W srv (p_now p) ?req = Inr (j, q)"
      by (auto simp: next_command_def replayed_def serve_plan split: sum.splits)
    have "0 < q"
      using r o q c a by (cases "0 < q") (auto simp: next_command_def replayed_def serve_plan sm_DeductSessionBalance_def)
    moreover from this have "c = CmdDecrBy (session_key j) q"
      using r o q c a by (simp add: next_command_def replayed_def serve_plan replayed_deduct)
    ultimately show ?thesis using r o q by (simp add: request_calls_def)
  qed
qed


lemma later_next:
  assumes a: "p_answers p \<noteq> []" and c: "next_command W srv p = Some c" and n: "well_named (AnyMsg (p_req p))"
  shows "keeps (wR W) (wL W) view up c"
proof -
  let ?req = "p_req p"
  obtain b bs where b: "p_answers p = b # bs" using a by (cases "p_answers p") auto
  have r: "routed ?req" using c by (auto simp: next_command_def replayed_def serve_plan split: if_splits)
  show ?thesis
  proof (cases "open_door srv ?req")
    case o: True
    have s: "replayed W srv p = NewConnectValidationInterceptor (wValidate W) (svc (replay_world W) srv (p_uuid p)) (p_now p) None ?req (b # bs, None)"
      using r o b by (simp add: replayed_def serve_plan)
    have "AnyMsg ?req \<noteq> MCreateSession m" for m
      using c s by (auto simp: next_command_def validated_state svc_def CreateSession_state replayed_create split: if_splits option.splits)
    from next_after_handler [OF n this] c s show ?thesis by (auto simp: next_command_def)
  next
    case o: False
    with r c obtain j q where q: "plan W srv (p_now p) ?req = Inr (j, q)"
      by (auto simp: next_command_def replayed_def serve_plan split: sum.splits)
    let ?d = "sm_DeductSessionBalance replay_client j q (b # bs, None)"
    have d: "snd (snd ?d) = None" by (simp add: replayed_deduct)
    with r o q c b obtain x as where
      "?d = (Ok x, (as, None))"
      "snd (snd (NewConnectValidationInterceptor (wValidate W) (svc (replay_world W) srv (p_uuid p)) (p_now p) (Some x) ?req (as, None))) = Some c"
      by (cases ?d; cases "fst ?d") (auto simp: next_command_def replayed_def serve_plan)
    with next_after_handler [OF n charged_not_login [OF r o]] show ?thesis by blast
  qed
qed

text \<open>What the session calls do to the ledger, as commands.\<close>

lemma create_command:
  "snd (exec_cmd (wR W) (call_command (hashToSessionId (wL W) m) (CCreate jti q ttl)) s) =
     snd (sm_CreateSession (wL W) (wR W) m jti q ttl s)"
  by (auto simp: sm_CreateSession_def Let_def split: prod.split sum.split redis_any.split)

lemma deduct_command:
  assumes "0 < q"
  shows "snd (exec_cmd (wR W) (CmdDecrBy (session_key j) q) s) = snd (sm_DeductSessionBalance (wR W) j q s)"
    and "is_Ok (fst (sm_DeductSessionBalance (wR W) j q s)) \<longleftrightarrow>
      (\<exists>n \<ge> 0. fst (exec_cmd (wR W) (CmdDecrBy (session_key j) q) s) = AnsInt (Inr n))"
  using assms by (auto simp: sm_DeductSessionBalance_def split: prod.split sum.split)

lemma call_effect:
  fixes m :: RedisSessionManager and s :: 'r
  assumes i: "service_inv (wL W) view up s" and k: "call_ok call" and p: "\<And>j q. call = CDeduct j q \<Longrightarrow> 0 < q"
  defines "r \<equiv> exec_cmd (wR W) (call_command (hashToSessionId (wL W) m) call) s"
    and "e \<equiv> call_event (hashToSessionId (wL W) m) call"
  shows "service_inv (wL W) view up (snd r) \<and> session_led view (snd r) = ledger_step e (session_led view s)"
    and "call = CDeduct j q \<Longrightarrow> fst (ledger_charge j q (session_led view s)) \<longleftrightarrow> (\<exists>n \<ge> 0. fst r = AnsInt (Inr n))"
proof -
  have w: "sessions_wf view up s" using i by (simp add: service_inv_def)
  show "service_inv (wL W) view up (snd r) \<and> session_led view (snd r) = ledger_step e (session_led view s)"
  proof (cases call)
    case (CCreate jti b ttl)
    then have b: "in_int64 b" using k by simp
    from create_inv [OF i b, of "wL W" m jti ttl] create_session_refines [OF w b, of "wL W" m jti ttl] CCreate
    show ?thesis by (simp add: r_def e_def create_command del: call_command.simps)
  next
    case (CDeduct h b)
    then have b: "in_int64 b" "0 < b" using k p by simp_all
    from deduct_inv [OF i b(1), of h] deduct_session_refines [OF w b(1), of h] CDeduct
    show ?thesis by (simp add: r_def e_def deduct_command(1) [OF b(2)] del: exec_cmd.simps)
  qed
  assume c: "call = CDeduct j q"
  then have q: "in_int64 q" "0 < q" using k p by simp_all
  show "fst (ledger_charge j q (session_led view s)) \<longleftrightarrow> (\<exists>n \<ge> 0. fst r = AnsInt (Inr n))"
    using deduct_session_refines [OF w q(1), of j] deduct_command(2) [OF q(2)] c by (simp add: r_def del: exec_cmd.simps)
qed

end

subsection \<open>The invariant of a system\<close>

lemma sum_list_update_int: "i < length xs \<Longrightarrow> sum_list (map f (xs[i := y])) = sum_list (map f xs) + (f y - f (xs ! i) :: int)"
  by (induction xs arbitrary: i) (auto split: nat.split)

definition calls_events :: "'r world \<Rightarrow> Server \<Rightarrow> session_call list \<Rightarrow> ledger_event list" where
  "calls_events W srv = map (call_event (hashToSessionId (wL W) (srv_sessionManager srv)))"

definition system_inv :: "'r world \<Rightarrow> Server \<Rightarrow> ('r \<Rightarrow> keyspace) \<Rightarrow> ('r \<Rightarrow> bool) \<Rightarrow> string \<Rightarrow> ledger \<Rightarrow> 'r system \<Rightarrow> bool" where
  "system_inv W srv view up i l sy \<longleftrightarrow>
     service_inv (wL W) view up (sy_store sy) \<and>
     session_led view (sy_store sy) = foldl (\<lambda>l e. ledger_step e l) l (calls_events W srv (sy_calls sy)) \<and>
     list_all call_ok (sy_calls sy) \<and>
     list_all (\<lambda>p. well_named (AnyMsg (p_req p))) (sy_procs sy) \<and>
     sum_list (map (paid_by W srv i) (sy_procs sy)) \<le> admitted i (calls_events W srv (sy_calls sy)) l"

context service_world
begin

text \<open>What a request has paid by its session call is admitted by the ledger.\<close>

lemma paid_by_call:
  assumes a: "p_answers p = []" and call: "request_calls W srv (p_now p) (p_req p) = [call]"
    and s: "service_inv (wL W) view up s" and ok: "call_ok call"
    and c: "c = call_command (hashToSessionId (wL W) (srv_sessionManager srv)) call" and q: "\<And>j q. call = CDeduct j q \<Longrightarrow> 0 < q"
  shows "paid_by W srv i (p\<lparr>p_answers := [fst (exec_cmd (wR W) c s)]\<rparr>) \<le> admitted i (calls_events W srv [call]) (session_led view s)"
proof (cases call)
  case (CCreate jti q ttl)
  with call show ?thesis by (simp add: paid_by_def calls_events_def)
next
  case (CDeduct j q)
  with call call_effect(2) [OF s ok q, where m = "srv_sessionManager srv", folded c, OF _ CDeduct] q show ?thesis
    by (auto simp: paid_by_def calls_events_def split: redis_ans.split sum.split)
qed

lemma system_step_named: "system_step W srv view clock up sy sy' \<Longrightarrow> all_named sy' \<Longrightarrow> all_named sy"
proof (induction rule: system_step.induct)
  case (step_command sy sy')
  then show ?case
  proof cases
    case (command_stepI k c)
    with step_command(2) have "well_named (AnyMsg (p_req (sy_procs sy ! i)))" if "i < length (sy_procs sy)" for i
      using that by (cases "i = k") (auto simp: all_named_def list_all_length nth_list_update)
    then show ?thesis by (simp add: all_named_def list_all_length)
  qed
qed (simp_all add: all_named_def)

lemma system_inv_advance:
  assumes v: "system_inv W srv view up i l sy" and k: "k < length (sy_procs sy)"
    and c: "next_command W srv (sy_procs sy ! k) = Some c"
  shows "system_inv W srv view up i l (advance W srv k c sy)"
proof -
  let ?p = "sy_procs sy ! k"
  let ?a = "fst (exec_cmd (wR W) c (sy_store sy))"
  let ?s = "snd (exec_cmd (wR W) c (sy_store sy))"
  let ?q = "?p\<lparr>p_answers := p_answers ?p @ [?a]\<rparr>"
  let ?l = "foldl (\<lambda>l e. ledger_step e l) l (calls_events W srv (sy_calls sy))"
  have i: "service_inv (wL W) view up (sy_store sy)" and led: "session_led view (sy_store sy) = ?l"
    and ok: "list_all call_ok (sy_calls sy)" and nm: "list_all (\<lambda>p. well_named (AnyMsg (p_req p))) (sy_procs sy)"
    and paid: "sum_list (map (paid_by W srv i) (sy_procs sy)) \<le> admitted i (calls_events W srv (sy_calls sy)) l"
    using v by (simp_all add: system_inv_def)
  have n: "well_named (AnyMsg (p_req ?p))" using nm k by (simp add: list_all_length)
  have nm': "list_all (\<lambda>p. well_named (AnyMsg (p_req p))) ((sy_procs sy)[k := ?q])"
    using nm k n by (simp add: list_all_length nth_list_update)
  have sum: "sum_list (map (paid_by W srv i) ((sy_procs sy)[k := ?q])) =
      sum_list (map (paid_by W srv i) (sy_procs sy)) + (paid_by W srv i ?q - paid_by W srv i ?p)"
    by (rule sum_list_update_int [OF k])
  let ?cs = "if p_answers ?p = [] then request_calls W srv (p_now ?p) (p_req ?p) else []"
  show ?thesis
  proof (cases "?cs = []")
    case True
    have "keeps (wR W) (wL W) view up c"
      using first_next [OF _ c n] later_next [OF _ c n] True by (cases "p_answers ?p = []") auto
    then have "quiet (wL W) view up (sy_store sy) ?s"
      using i by (simp add: keeps_def service_inv_def sessions_wf_def)
    moreover have "paid_by W srv i ?q = paid_by W srv i ?p"
      using True paid_by_later by (cases "p_answers ?p = []") (auto simp: paid_by_def)
    ultimately show ?thesis
      using i led ok nm' sum paid True quiet_inv [of "wL W" view up] quiet_session_led [of "wL W" view up]
      by (auto simp: system_inv_def)
  next
    case False
    then have a: "p_answers ?p = []" by (simp split: if_splits)
    obtain call where call: "request_calls W srv (p_now ?p) (p_req ?p) = [call]"
        "c = call_command (hashToSessionId (wL W) (srv_sessionManager srv)) call" "\<And>j q. call = CDeduct j q \<Longrightarrow> 0 < q"
      using first_next [OF a c n] False a by auto
    have ck: "call_ok call" using request_calls_ok [of srv "p_now ?p" "p_req ?p"] call(1) by simp
    note e = call_effect [OF i ck call(3), where m = "srv_sessionManager srv", folded call(2)]
    have "paid_by W srv i ?q \<le> admitted i (calls_events W srv [call]) ?l"
      using paid_by_call [OF a call(1) i ck call(2,3)] led a by simp
    moreover have "paid_by W srv i ?p = 0" by (rule paid_by_start [OF a])
    ultimately show ?thesis
      using e(1) led ok nm' sum paid a call(1) ck
      by (auto simp: system_inv_def calls_events_def admitted_append)
  qed
qed


lemma system_inv_step:
  assumes "system_step W srv view clock up sy sy'" and "system_inv W srv view up i l sy" and "all_named sy'"
  shows "system_inv W srv view up i l sy'"
  using assms
proof cases
  case (step_arrive req uuid now)
  with assms(2,3) show ?thesis by (simp add: system_inv_def paid_by_start all_named_def)
next
  case step_command
  with assms(2) system_inv_advance show ?thesis by (auto elim: command_step.cases)
next
  case (step_time s')
  with assms(2) elapse_inv [of view clock up "sy_store sy" s' "wL W"] show ?thesis by (simp add: system_inv_def)
qed

lemma system_inv_reachable:
  assumes "(system_step W srv view clock up)\<^sup>*\<^sup>* (idle s) sy" and "service_inv (wL W) view up s" and "all_named sy"
  shows "system_inv W srv view up i (session_led view s) sy"
  using assms(1,3)
proof (induction rule: rtranclp_induct)
  case base
  with assms(2) show ?case by (simp add: system_inv_def idle_def calls_events_def)
next
  case (step sy sy')
  then show ?case by (blast intro: system_inv_step system_step_named)
qed

lemma system_spending:
  assumes "(system_step W srv view clock up)\<^sup>*\<^sup>* (idle s) sy" and "service_inv (wL W) view up s" and "all_named sy"
  shows "sum_list (map (process_cost W srv i) (sy_procs sy)) \<le> admitted i (calls_events W srv (sy_calls sy)) (session_led view s)"
proof -
  have "sum_list (map (process_cost W srv i) (sy_procs sy)) \<le> sum_list (map (paid_by W srv i) (sy_procs sy))"
    by (rule sum_list_mono) (rule process_cost_paid)
  with system_inv_reachable [OF assms, of i] show ?thesis by (simp add: system_inv_def)
qed

lemma admitted_of_calls:
  assumes "list_all call_ok cs"
  shows "admitted i (calls_events W srv cs) l \<le> max 0 (bal l i)
    + (if l i = None then first_quantity (hashToSessionId (wL W) (srv_sessionManager srv)) i cs else 0)"
proof -
  have q: "\<forall>j q. Create j q \<in> set (calls_events W srv cs) \<longrightarrow> 0 \<le> q"
  proof (intro allI impI)
    fix j q assume "Create j q \<in> set (calls_events W srv cs)"
    then obtain c where c: "c \<in> set cs" "call_event (hashToSessionId (wL W) (srv_sessionManager srv)) c = Create j q"
      by (auto simp: calls_events_def)
    with assms have "call_ok c" by (simp add: list_all_iff)
    with c(2) show "0 \<le> q" by (cases c) auto
  qed
  from admitted_le_granted [OF q, of i l] granted_existing [of l i "calls_events W srv cs"]
    granted_le_first [OF assms, of i "hashToSessionId (wL W) (srv_sessionManager srv)" l]
  show ?thesis unfolding calls_events_def by (cases "l i = None") simp_all
qed

end

subsection \<open>Sequential runs\<close>

text \<open>Every run of requests that do not wait, one after the other, is the run of a system.\<close>

fun event_prompt :: "event \<Rightarrow> bool" where
  "event_prompt (Request uuid now req r) = (\<forall>m. AnyMsg req \<noteq> MGetStreamValue m)"
| "event_prompt Elapse = True"

fun event_process :: "event \<Rightarrow> (string \<times> int \<times> AnyRequest \<times> response result option) list" where
  "event_process (Request uuid now req r) = [(uuid, now, req, Some r)]"
| "event_process Elapse = []"

definition outcome :: "'r world \<Rightarrow> Server \<Rightarrow> process \<Rightarrow> string \<times> int \<times> AnyRequest \<times> response result option" where
  "outcome W srv p = (p_uuid p, p_now p, p_req p, answer W srv p)"

lemma service_run_system:
  assumes "service_run W srv view clock up (sy_store sy) es s'" and "list_all event_prompt es"
  shows "\<exists>sy'. (system_step W srv view clock up)\<^sup>*\<^sup>* sy sy' \<and> sy_store sy' = s' \<and>
    map (outcome W srv) (sy_procs sy') = map (outcome W srv) (sy_procs sy) @ concat (map event_process es)"
  using assms
proof (induction es arbitrary: sy)
  case Nil
  then show ?case by (intro exI [of _ sy]) (simp add: run_simps)
next
  case (Cons e es)
  show ?case
  proof (cases e)
    case (Request uuid now req r)
    then obtain s1 where r: "serve W srv uuid now req (sy_store sy) = (r, s1)" "service_run W srv view clock up s1 es s'"
      using Cons.prems(1) by (auto simp: run_simps)
    have n: "\<And>m. AnyMsg req \<noteq> MGetStreamValue m" "list_all event_prompt es" using Cons.prems(2) Request by simp_all
    obtain sy1 as where y: "(system_step W srv view clock up)\<^sup>*\<^sup>* sy sy1" "sy_store sy1 = s1"
        "sy_procs sy1 = sy_procs sy @ [\<lparr>p_uuid = uuid, p_now = now, p_req = req, p_answers = as\<rparr>]"
        "answer W srv \<lparr>p_uuid = uuid, p_now = now, p_req = req, p_answers = as\<rparr> = Some r"
      using serve_alone [OF n(1) r(1), of view clock up] by blast
    from Cons.IH [of sy1] r(2) y(2) n(2) obtain sy' where
      "(system_step W srv view clock up)\<^sup>*\<^sup>* sy1 sy'" "sy_store sy' = s'"
      "map (outcome W srv) (sy_procs sy') = map (outcome W srv) (sy_procs sy1) @ concat (map event_process es)" by auto
    moreover have "outcome W srv \<lparr>p_uuid = uuid, p_now = now, p_req = req, p_answers = as\<rparr> = (uuid, now, req, Some r)"
      using y(4) by (simp add: outcome_def)
    ultimately show ?thesis using y(1,3) Request by (intro exI [of _ sy']) auto
  next
    case Elapse
    then obtain s1 where e: "elapse view clock up (sy_store sy) s1" "service_run W srv view clock up s1 es s'"
      using Cons.prems(1) by (auto simp: run_simps)
    let ?sy = "sy\<lparr>sy_store := s1\<rparr>"
    from Cons.IH [of ?sy] e(2) Cons.prems(2) obtain sy' where
      "(system_step W srv view clock up)\<^sup>*\<^sup>* ?sy sy'" "sy_store sy' = s'"
      "map (outcome W srv) (sy_procs sy') = map (outcome W srv) (sy_procs sy) @ concat (map event_process es)" by auto
    with step_time [OF e(1), of W srv] Elapse show ?thesis
      by (intro exI [of _ sy']) (auto intro: converse_rtranclp_into_rtranclp)
  qed
qed

subsection \<open>Where the answers of a request come from\<close>

text \<open>
  Every answer a request has had was given by a store that keeps the invariant. So what \<open>GetValue\<close>
  answers in an interleaving is what it would answer in one such store.
\<close>

definition genuine_answers :: "'r world \<Rightarrow> Server \<Rightarrow> ('r \<Rightarrow> keyspace) \<Rightarrow> ('r \<Rightarrow> bool) \<Rightarrow> process \<Rightarrow> bool" where
  "genuine_answers W srv view up p \<longleftrightarrow>
     (\<forall>n < length (p_answers p). \<exists>t c. service_inv (wL W) view up t \<and>
        next_command W srv (p\<lparr>p_answers := take n (p_answers p)\<rparr>) = Some c \<and> p_answers p ! n = fst (exec_cmd (wR W) c t))"

lemma genuine_append:
  assumes "genuine_answers W srv view up p" and "service_inv (wL W) view up t" and "next_command W srv p = Some c"
  shows "genuine_answers W srv view up (p\<lparr>p_answers := p_answers p @ [fst (exec_cmd (wR W) c t)]\<rparr>)"
  unfolding genuine_answers_def
proof (intro allI impI)
  fix n assume "n < length (p_answers (p\<lparr>p_answers := p_answers p @ [fst (exec_cmd (wR W) c t)]\<rparr>))"
  then consider "n < length (p_answers p)" | "n = length (p_answers p)" by fastforce
  then show "\<exists>u d. service_inv (wL W) view up u \<and>
      next_command W srv (p\<lparr>p_answers := p_answers p @ [fst (exec_cmd (wR W) c t)]\<rparr>
        \<lparr>p_answers := take n (p_answers (p\<lparr>p_answers := p_answers p @ [fst (exec_cmd (wR W) c t)]\<rparr>))\<rparr>) = Some d \<and>
      p_answers (p\<lparr>p_answers := p_answers p @ [fst (exec_cmd (wR W) c t)]\<rparr>) ! n = fst (exec_cmd (wR W) d u)"
  proof cases
    case 1
    with assms(1) show ?thesis by (auto simp: genuine_answers_def nth_append)
  next
    case 2
    with assms(2,3) show ?thesis by (intro exI [of _ t] exI [of _ c]) simp
  qed
qed

lemma GetValue_replay:
  assumes "fst (GetValue L replay_client m (as, None)) = Ok resp" and "snd (snd (GetValue L replay_client m (as, None))) = None"
  obtains k b bs where "as = AnsBytes (Inr b) # bs" and "snd (snd (GetValue L replay_client m ([], None))) = Some (CmdGet k)"
    and "\<And>R s. fst (rGet R k s) = Inr b \<Longrightarrow> fst (GetValue L R m s) = Ok resp"
proof -
  obtain c where c: "CutPrefix (gv_Name m) ''values/'' = (c, True)"
    using assms(1) by (cases "CutPrefix (gv_Name m) ''values/''") (auto simp: GetValue_def split: if_splits)
  obtain v1 where v: "NormalizeCidToV1 L c = Inr v1"
    using assms(1) c by (cases "NormalizeCidToV1 L c") (auto simp: GetValue_def)
  note g = GetValue_def [of L _ m, unfolded c v Let_def prod.case sum.case not_True_eq_False if_False]
  obtain a bs where as: "as = a # bs" using assms(1) by (cases as) (auto simp: g replay_client_def)
  obtain b where b: "a = AnsBytes (Inr b)"
    using assms(1) by (auto simp: g as replay_client_def elim: ans_bytes.elims split: sum.splits if_splits)
  show thesis
  proof (rule that)
    show "as = AnsBytes (Inr b) # bs" by (simp add: as b)
    show "snd (snd (GetValue L replay_client m ([], None))) = Some (CmdGet (value_key v1))"
      by (simp add: g replay_client_def)
    show "fst (GetValue L R m s) = Ok resp" if "fst (rGet R (value_key v1) s) = Inr b" for R and s :: 'x
      using assms(1) that by (cases "rGet R (value_key v1) s") (simp add: g as b replay_client_def)
  qed
qed

context service_world
begin

lemma genuine_reachable:
  assumes "(system_step W srv view clock up)\<^sup>*\<^sup>* (idle s) sy" and "service_inv (wL W) view up s" and "all_named sy"
  shows "list_all (genuine_answers W srv view up) (sy_procs sy)"
  using assms(1,3)
proof (induction rule: rtranclp_induct)
  case base
  then show ?case by (simp add: idle_def)
next
  case (step sy sy')
  have n: "all_named sy" using system_step_named step.hyps(2) step.prems .
  note IH = step.IH [OF n]
  have i: "service_inv (wL W) view up (sy_store sy)"
    using system_inv_reachable [OF step.hyps(1) assms(2) n] by (simp add: system_inv_def)
  from step.hyps(2) IH show ?case
  proof cases
    case (step_arrive req uuid now)
    with IH show ?thesis by (simp add: genuine_answers_def)
  next
    case step_command
    then show ?thesis
    proof cases
      case (command_stepI k c)
      have "genuine_answers W srv view up (sy_procs sy ! k)" using IH command_stepI(2) by (simp add: list_all_length)
      from genuine_append [OF this i command_stepI(3)] IH command_stepI show ?thesis
        by (auto simp: list_all_length nth_list_update)
    qed
  next
    case (step_time s')
    with IH show ?thesis by simp
  qed
qed

text \<open>
  The run of a request that is answered without an error: after the answers \<open>pre\<close> of the gate it runs the method,
  which takes the rest of the answers.
\<close>

lemma answered_method:
  fixes srv :: Server
  assumes "answer W srv p = Some (Ok r)"
  obtains pre as cs where "p_answers p = pre @ as"
    and "fst (svc (replay_world W) srv (p_uuid p) (p_now p) cs (p_req p) (as, None)) = Ok r"
    and "snd (snd (svc (replay_world W) srv (p_uuid p) (p_now p) cs (p_req p) (as, None))) = None"
    and "\<And>bs. next_command W srv (p\<lparr>p_answers := pre @ bs\<rparr>) =
      snd (snd (svc (replay_world W) srv (p_uuid p) (p_now p) cs (p_req p) (bs, None)))"
proof -
  let ?req = "p_req p"
  have a: "fst (replayed W srv p) = Ok r" "snd (snd (replayed W srv p)) = None"
    using assms by (auto simp: answer_def next_command_def split: if_splits)
  have rt: "routed ?req" using a(1) by (auto simp: replayed_def serve_plan split: if_splits)
  show thesis
  proof (cases "open_door srv ?req")
    case True
    with a rt show thesis
      by (intro that [of "[]" "p_answers p" None]) (auto simp: replayed_def serve_plan next_command_def validation_pass split: if_splits)
  next
    case o: False
    obtain j q where q: "plan W srv (p_now p) ?req = Inr (j, q)"
      using a(1) rt o gate_plan_Inl [of GetPrice "VerifyAndParseJwt (wJ W) (srv_authmanager srv)" "p_now p" ?req]
      by (cases "plan W srv (p_now p) ?req") (auto simp: replayed_def serve_plan plan_def)
    let ?d = "\<lambda>as. sm_DeductSessionBalance replay_client j q (as, None)"
    obtain x st where d: "?d (p_answers p) = (Ok x, st)"
      using a(1) rt o q by (cases "?d (p_answers p)"; cases "fst (?d (p_answers p))") (auto simp: replayed_def serve_plan)
    obtain c as where c: "p_answers p = c # as" "\<And>bs. ?d (c # bs) = (Ok x, (bs, None))"
      using d by (cases "p_answers p") (auto simp: sm_DeductSessionBalance_def replay_client_def split: if_splits sum.splits)
    show thesis
      by (rule that [of "[c]" as "Some x"])
         (use a rt o q c in \<open>auto simp: replayed_def serve_plan next_command_def validation_pass split: if_splits\<close>)
  qed
qed

text \<open>So the answer to a command of the method is the answer of a store that keeps the invariant.\<close>

lemma answered_command:
  assumes "genuine_answers W srv view up p" and "p_answers p = pre @ a # bs"
    and "next_command W srv (p\<lparr>p_answers := pre\<rparr>) = Some c"
  obtains t where "service_inv (wL W) view up t" and "a = fst (exec_cmd (wR W) c t)"
proof -
  have "length pre < length (p_answers p)" "take (length pre) (p_answers p) = pre" "p_answers p ! length pre = a" using assms(2) by simp_all
  with assms(1,3) that show thesis unfolding genuine_answers_def by (metis option.inject)
qed

lemma map_result_OkE: "map_result f r = Ok y \<Longrightarrow> (\<And>x. r = Ok x \<Longrightarrow> y = f x \<Longrightarrow> thesis) \<Longrightarrow> thesis"
  by (cases r) simp_all

lemma served_GetValue:
  assumes g: "genuine_answers W srv view up p" and m: "AnyMsg (p_req p) = MGetValue m"
    and r: "answer W srv p = Some (Ok (RGetValue resp))"
  shows "\<exists>t. service_inv (wL W) view up t \<and> fst (GetValue (wL W) (wR W) m t) = Ok resp"
proof -
  obtain pre as cs where p: "p_answers p = pre @ as"
      "fst (svc (replay_world W) srv (p_uuid p) (p_now p) cs (p_req p) (as, None)) = Ok (RGetValue resp)"
      "snd (snd (svc (replay_world W) srv (p_uuid p) (p_now p) cs (p_req p) (as, None))) = None"
      "\<And>bs. next_command W srv (p\<lparr>p_answers := pre @ bs\<rparr>) =
        snd (snd (svc (replay_world W) srv (p_uuid p) (p_now p) cs (p_req p) (bs, None)))"
    using answered_method [OF r, of thesis] by blast
  have "fst (GetValue (wL W) replay_client m (as, None)) = Ok resp" "snd (snd (GetValue (wL W) replay_client m (as, None))) = None"
    using p(2,3) m by (auto simp: svc_def lift_resp_map elim!: map_result_OkE)
  from GetValue_replay [OF this] obtain k b bs where k: "as = AnsBytes (Inr b) # bs"
      "snd (snd (GetValue (wL W) replay_client m ([], None))) = Some (CmdGet k)"
      "\<And>t. fst (rGet (wR W) k t) = Inr b \<Longrightarrow> fst (GetValue (wL W) (wR W) m t) = Ok resp" by metis
  have "next_command W srv (p\<lparr>p_answers := pre\<rparr>) = Some (CmdGet k)"
    using p(4) [of "[]"] m k(2) by (simp add: svc_def lift_resp_map)
  from answered_command [OF g _ this] p(1) k(1) obtain t where "service_inv (wL W) view up t" "AnsBytes (Inr b) = fst (exec_cmd (wR W) (CmdGet k) t)"
    by metis
  with k(3) show ?thesis by (intro exI [of _ t]) simp
qed

end

subsection \<open>Running a system step by step\<close>

definition reaches ::
    "'r world \<Rightarrow> Server \<Rightarrow> ('r \<Rightarrow> keyspace) \<Rightarrow> ('r \<Rightarrow> int) \<Rightarrow> ('r \<Rightarrow> bool) \<Rightarrow> 'r \<Rightarrow> 'r \<Rightarrow> process list \<Rightarrow> bool" where
  "reaches W srv view clock up s0 s ps \<longleftrightarrow>
     (\<exists>cs. (system_step W srv view clock up)\<^sup>*\<^sup>* (idle s0) \<lparr>sy_store = s, sy_procs = ps, sy_calls = cs\<rparr>)"

lemma reaches_idle: "reaches W srv view clock up s s []"
  by (auto simp: reaches_def idle_def)

lemma reaches_arrive:
  assumes "reaches W srv view clock up s0 s ps"
  shows "reaches W srv view clock up s0 s (ps @ [\<lparr>p_uuid = uuid, p_now = now, p_req = req, p_answers = []\<rparr>])"
proof -
  obtain cs where r: "(system_step W srv view clock up)\<^sup>*\<^sup>* (idle s0) \<lparr>sy_store = s, sy_procs = ps, sy_calls = cs\<rparr>"
    using assms(1) by (auto simp: reaches_def)
  from step_arrive [of W srv view clock up "\<lparr>sy_store = s, sy_procs = ps, sy_calls = cs\<rparr>" uuid now req]
  show ?thesis
    unfolding reaches_def arrive_def by (intro exI [of _ cs]) (simp add: rtranclp.rtrancl_into_rtrancl [OF r])
qed

lemma reaches_command:
  assumes "reaches W srv view clock up s0 s ps" and "k < length ps" and "next_command W srv (ps ! k) = Some c"
    and "exec_cmd (wR W) c s = (a, s')" and "\<not> is_waiting a" and "ps' = ps[k := (ps ! k)\<lparr>p_answers := p_answers (ps ! k) @ [a]\<rparr>]"
  shows "reaches W srv view clock up s0 s' ps'"
proof -
  obtain cs where r: "(system_step W srv view clock up)\<^sup>*\<^sup>* (idle s0) \<lparr>sy_store = s, sy_procs = ps, sy_calls = cs\<rparr>"
    using assms(1) by (auto simp: reaches_def)
  have "command_step W srv \<lparr>sy_store = s, sy_procs = ps, sy_calls = cs\<rparr> (advance W srv k c \<lparr>sy_store = s, sy_procs = ps, sy_calls = cs\<rparr>)"
    using assms(2-5) by (intro command_stepI) simp_all
  then show ?thesis
    unfolding reaches_def using rtranclp.rtrancl_into_rtrancl [OF r step_command] assms(4,6)
    by (auto simp: advance_def Let_def)
qed

lemma reaches_elapse:
  assumes "reaches W srv view clock up s0 s ps" and "elapse view clock up s s'"
  shows "reaches W srv view clock up s0 s' ps"
proof -
  obtain cs where r: "(system_step W srv view clock up)\<^sup>*\<^sup>* (idle s0) \<lparr>sy_store = s, sy_procs = ps, sy_calls = cs\<rparr>"
    using assms(1) by (auto simp: reaches_def)
  from step_time [of view clock up "\<lparr>sy_store = s, sy_procs = ps, sy_calls = cs\<rparr>" s' W srv] assms(2) show ?thesis
    unfolding reaches_def by (intro exI [of _ cs]) (simp add: rtranclp.rtrancl_into_rtrancl [OF r])
qed

end
