(* ===== verification/Prolong_Race.thy ===== *)
theory Prolong_Race
  imports Concurrency
begin

section \<open>Two prolongations at the same time\<close>

text \<open>
  \<open>ProlongValue\<close> reads the time a value has left (\<open>TTL\<close>) and writes the new one (\<open>EXPIRE\<close>) in two
  commands. This theory follows the commands of two such requests in one system and shows that an
  update is lost when both read before either writes.
\<close>

subsection \<open>The commands of a prolongation\<close>

text \<open>
  The commands of a paid \<open>ProlongValue\<close> request, one after the other: the charge, the size, the time
  left, the new time.
\<close>

locale prolong_request =
  fixes W :: "'r world" and srv :: Server and uuid :: string and now :: int and req :: AnyRequest and m :: ProlongValueRequest
    and i :: string and price :: int
  assumes routed: "routed req" and charged: "\<not> open_door srv req" and msg: "AnyMsg req = MProlongValue m"
    and plan: "plan W srv now req = Inr (i, price)" and price: "0 < price"
    and valid: "wValidate W (AnyMsg req) = None" and ttl: "0 < AsDuration (wL W) (pv_Ttl m)"
begin

abbreviation proc :: "redis_ans list \<Rightarrow> process" where
  "proc as \<equiv> \<lparr>p_uuid = uuid, p_now = now, p_req = req, p_answers = as\<rparr>"

lemma replayed_prolong:
  "replayed W srv (proc []) = (Err (Status Internal ''failed to deduct: %s''), ([], Some (CmdDecrBy (session_key i) price)))"
  "0 \<le> b \<Longrightarrow> replayed W srv (proc (AnsInt (Inr b) # as)) = lift_resp RProlongValue (ProlongValue (wL W) replay_client m (as, None))"
  using routed charged plan price valid msg
  by (simp_all add: replayed_def serve_plan replayed_deduct)
     (simp add: sm_DeductSessionBalance_def replay_client_def NewConnectValidationInterceptor_def protoValidation_def svc_def)

lemma prolong_commands:
  "next_command W srv (proc []) = Some (CmdDecrBy (session_key i) price)"
  "0 \<le> b \<Longrightarrow> next_command W srv (proc [AnsInt (Inr b)]) = Some (CmdMemoryUsage (pv_Name m))"
  "0 \<le> b \<Longrightarrow> n \<le> pv_MaxSize m \<Longrightarrow>
     next_command W srv (proc [AnsInt (Inr b), AnsInt (Inr n)]) = Some (CmdTTL (pv_Name m))"
  "0 \<le> b \<Longrightarrow> n \<le> pv_MaxSize m \<Longrightarrow>
     next_command W srv (proc [AnsInt (Inr b), AnsInt (Inr n), AnsInt (Inr old)]) =
       Some (CmdExpire (pv_Name m) (wrap64 (AsDuration (wL W) (pv_Ttl m) + old)))"
  "0 \<le> b \<Longrightarrow> n \<le> pv_MaxSize m \<Longrightarrow>
     \<exists>r. answer W srv (proc [AnsInt (Inr b), AnsInt (Inr n), AnsInt (Inr old), AnsBool (Inr x)]) = Some (Ok r)"
  using ttl by (simp_all add: next_command_def answer_def replayed_prolong ProlongValue_def replay_client_def Let_def)

end

context service_world
begin

text \<open>A command's answer and what it leaves, for the four commands of a prolongation.\<close>

lemma charge_command:
  assumes i: "service_inv (wL W) view up s" and p: "0 < p" "p \<le> bal (session_led view s) j" and a: "in_int64 p"
  obtains b s' where "0 \<le> b" and "exec_cmd (wR W) (CmdDecrBy (session_key j) p) s = (AnsInt (Inr b), s')"
    and "service_inv (wL W) view up s'" and "clock s' = clock s"
    and "session_led view s' = (session_led view s)(j \<mapsto> bal (session_led view s) j - p)"
    and "\<And>k. (\<And>i. k \<noteq> session_key i) \<Longrightarrow> view s' k = view s k"
proof -
  have w: "sessions_wf view up s" "sessions_permanent (view s)" "up s" using i by (simp_all add: service_inv_def sessions_wf_def)
  let ?r = "exec_cmd (wR W) (CmdDecrBy (session_key j) p) s"
  obtain x s' where d: "sm_DeductSessionBalance (wR W) j p s = (Ok x, s')"
    using session_affordable [OF w(1) p] by blast
  have s': "snd ?r = s'" using deduct_command(1) [OF p(1), of j s] d by simp
  obtain b where b: "0 \<le> b" "fst ?r = AnsInt (Inr b)" using deduct_command(2) [OF p(1), of j s] d by auto
  show thesis
  proof (rule that [of b s'])
    show "0 \<le> b" by (rule b(1))
    show "?r = (AnsInt (Inr b), s')" using b(2) s' by (simp add: prod_eq_iff)
    show "service_inv (wL W) view up s'" using deduct_inv [OF i a, of j] d by simp
    show "clock s' = clock s" using decr_healthy [OF w(3), of "session_key j" p] s' by auto
    show "session_led view s' = (session_led view s)(j \<mapsto> bal (session_led view s) j - p)"
      using session_admission [OF w(1) a, of j x] d by simp
    show "view s' k = view s k" if "\<And>i. k \<noteq> session_key i" for k
      using deduct_sessions_only [OF w(1,2) a, of j] d that by (auto simp: sessions_only_def)
  qed
qed

end

text \<open>The service with such a request, on a value whose size is within the limit that was paid for.\<close>

locale prolong_service = service_world W view clock up decode verifies + prolong_request W srv uuid now req m i price
  for W :: "'r world" and view clock up decode verifies srv uuid now req m i price +
  fixes val :: rval
  assumes named: "HasPrefix (pv_Name m) ''values/''"
    and size: "up t \<Longrightarrow> view t (pv_Name m) = Some (val, e) \<Longrightarrow>
      \<exists>n \<le> pv_MaxSize m. fst (rMemoryUsage (wR W) (pv_Name m) t) = Inr n"
begin

abbreviation reach :: "'r \<Rightarrow> 'r \<Rightarrow> process list \<Rightarrow> bool" where
  "reach \<equiv> reaches W srv view clock up"

lemmas step = reaches_command [where W = W and srv = srv and view = view and clock = clock and up = up]

lemma named_well: "well_named (AnyMsg req)" "pv_Name m \<noteq> session_key j"
  using named msg session_key_other(5) [of j] by auto

lemma charge_step:
  assumes r: "reach s0 s ps" and j: "j < length ps" "ps ! j = proc []"
    and s: "service_inv (wL W) view up s" and funds: "price \<le> bal (session_led view s) i"
  shows "\<exists>b s'. reach s0 s' (ps[j := proc [AnsInt (Inr b)]]) \<and> 0 \<le> b \<and> service_inv (wL W) view up s' \<and> clock s' = clock s \<and>
    session_led view s' = (session_led view s)(i \<mapsto> bal (session_led view s) i - price) \<and>
    view s' (pv_Name m) = view s (pv_Name m)"
proof -
  obtain b s' where c: "0 \<le> b" "exec_cmd (wR W) (CmdDecrBy (session_key i) price) s = (AnsInt (Inr b), s')"
    "service_inv (wL W) view up s'" "clock s' = clock s"
    "session_led view s' = (session_led view s)(i \<mapsto> bal (session_led view s) i - price)" "view s' (pv_Name m) = view s (pv_Name m)"
    using charge_command [OF s price funds plan_ok [OF plan]] named_well(2) by metis
  have "reach s0 s' (ps[j := proc [AnsInt (Inr b)]])"
    by (rule step [OF r j(1) _ c(2)]) (simp_all add: j prolong_commands(1))
  with c show ?thesis by blast
qed

lemma read_steps:
  assumes r: "reach s0 s ps" and j: "j < length ps" "ps ! j = proc [AnsInt (Inr b)]" "0 \<le> b"
    and u: "up s" and v: "view s (pv_Name m) = Some (val, Some till)"
  shows "\<exists>n t s'. reach s0 s' (ps[j := proc [AnsInt (Inr b), AnsInt (Inr n), AnsInt (Inr (t * Second))]]) \<and>
    n \<le> pv_MaxSize m \<and> 0 \<le> t \<and> \<bar>t * 1000 - (till - clock s)\<bar> < 1000 \<and>
    up s' \<and> view s' = view s \<and> clock s' = clock s"
proof -
  let ?k = "pv_Name m"
  let ?s1 = "snd (rMemoryUsage (wR W) ?k s)"
  let ?s2 = "snd (rTTL (wR W) ?k ?s1)"
  obtain n where n: "n \<le> pv_MaxSize m" "fst (rMemoryUsage (wR W) ?k s) = Inr n" using size [OF u v] by blast
  have u1: "up ?s1" "view ?s1 = view s" "clock ?s1 = clock s" using u by simp_all
  obtain t where t: "fst (rTTL (wR W) ?k ?s1) = Inr (t * Second)" "0 \<le> t" "\<bar>t * 1000 - (till - clock s)\<bar> < 1000"
    using ttl_some [of ?s1 ?k val till] u1 v by auto
  have r1: "reach s0 ?s1 (ps[j := proc [AnsInt (Inr b), AnsInt (Inr n)]])"
    by (rule step [OF r j(1), where c = "CmdMemoryUsage ?k" and a = "AnsInt (Inr n)"])
       (simp_all add: j prolong_commands(2) n(2) prod_eq_iff)
  have "reach s0 ?s2 (ps[j := proc [AnsInt (Inr b), AnsInt (Inr n), AnsInt (Inr (t * Second))]])"
    by (rule step [OF r1, where k = j and c = "CmdTTL ?k" and a = "AnsInt (Inr (t * Second))"])
       (simp_all add: j prolong_commands(3) n(1) t(1) prod_eq_iff)
  with n(1) t(2,3) u1 show ?thesis by (intro exI [of _ n] exI [of _ t] exI [of _ ?s2]) simp
qed

text \<open>The new time is reckoned from the time that was read, whatever has happened to the key since.\<close>

lemma write_step:
  assumes r: "reach s0 s ps"
    and j: "j < length ps" "ps ! j = proc [AnsInt (Inr b), AnsInt (Inr n), AnsInt (Inr (t * Second))]" "0 \<le> b" "n \<le> pv_MaxSize m"
    and t: "0 \<le> t" "\<bar>t * 1000 - (till - clock s)\<bar> < 1000"
    and u: "up s" and v: "view s (pv_Name m) = Some (val, e)"
    and fits: "in_int64 (AsDuration (wL W) (pv_Ttl m) + (till - clock s + 1000) * Millisecond)"
  shows "\<exists>s' p till'. reach s0 s' (ps[j := p]) \<and> p_req p = req \<and> (\<exists>resp. answer W srv p = Some (Ok resp)) \<and>
    up s' \<and> clock s' = clock s \<and> view s' = (view s)(pv_Name m \<mapsto> (val, Some till')) \<and>
    \<bar>till' * Millisecond - (till * Millisecond + AsDuration (wL W) (pv_Ttl m))\<bar> < 2 * Second"
proof -
  let ?k = "pv_Name m" and ?n = "AsDuration (wL W) (pv_Ttl m) + t * Second"
  let ?p = "proc [AnsInt (Inr b), AnsInt (Inr n), AnsInt (Inr (t * Second)), AnsBool (Inr True)]"
  let ?s = "snd (rExpire (wR W) ?k ?n s)"
  have pos: "0 < ?n" using ttl t(1) by (simp add: Second_def)
  note x = expire_secs_bounds [OF pos]
  have "?n \<le> AsDuration (wL W) (pv_Ttl m) + (till - clock s + 1000) * Millisecond" using t(2) by (simp add: duration_defs)
  with pos fits have w: "wrap64 ?n = ?n" by (intro wrap64_id) (simp add: in_int64_def int64_min_def)
  note e = expire_some [OF u v x(1)]
  have "reach s0 ?s (ps[j := ?p])"
    by (rule step [OF r j(1), where c = "CmdExpire ?k ?n" and a = "AnsBool (Inr True)"])
       (simp_all add: j prolong_commands(4) w e prod_eq_iff)
  moreover have "\<bar>(clock s + expire_secs ?n * 1000) * Millisecond - (till * Millisecond + AsDuration (wL W) (pv_Ttl m))\<bar> < 2 * Second"
    using x(2,3) t(2) by (simp add: duration_defs)
  moreover have "\<exists>resp. answer W srv ?p = Some (Ok resp)" by (rule prolong_commands(5) [OF j(3,4)])
  ultimately show ?thesis
    using e u by (intro exI [of _ ?s] exI [of _ ?p] exI [of _ "clock s + expire_secs ?n * 1000"]) simp
qed

text \<open>Both read the time left before either writes the new one.\<close>

lemma prolongations_interleaved:
  assumes s: "service_inv (wL W) view up s" and funds: "2 * price \<le> bal (session_led view s) i"
    and v: "view s (pv_Name m) = Some (val, Some till)"
    and fits: "in_int64 (AsDuration (wL W) (pv_Ttl m) + (till - clock s + 1000) * Millisecond)"
  shows "\<exists>s' ps till'. reach s s' ps \<and> length ps = 2 \<and>
    (\<forall>p \<in> set ps. p_req p = req \<and> (\<exists>r. answer W srv p = Some (Ok r))) \<and>
    session_led view s' = (session_led view s)(i \<mapsto> bal (session_led view s) i - 2 * price) \<and>
    view s' (pv_Name m) = Some (val, Some till') \<and>
    \<bar>till' * Millisecond - (till * Millisecond + AsDuration (wL W) (pv_Ttl m))\<bar> < 2 * Second"
proof -
  have r0: "reach s s [proc [], proc []]"
    using reaches_arrive [OF reaches_arrive [OF reaches_idle]] by simp
  have "price \<le> bal (session_led view s) i" using funds price by linarith
  from charge_step [OF r0, of 0, OF _ _ s this] obtain b1 s1 where
    s1: "reach s s1 [proc [AnsInt (Inr b1)], proc []]" "0 \<le> b1" "service_inv (wL W) view up s1" "clock s1 = clock s"
      "session_led view s1 = (session_led view s)(i \<mapsto> bal (session_led view s) i - price)" "view s1 (pv_Name m) = Some (val, Some till)"
    using v by auto
  have "price \<le> bal (session_led view s1) i" using s1(5) funds by (simp add: bal_def)
  from charge_step [OF s1(1), of 1, OF _ _ s1(3) this] obtain b2 s2 where
    s2: "reach s s2 [proc [AnsInt (Inr b1)], proc [AnsInt (Inr b2)]]" "0 \<le> b2" "service_inv (wL W) view up s2" "clock s2 = clock s"
      "session_led view s2 = (session_led view s)(i \<mapsto> bal (session_led view s) i - 2 * price)" "view s2 (pv_Name m) = Some (val, Some till)"
    using s1 by (auto simp: bal_def)
  have u2: "up s2" using s2(3) by (simp add: service_inv_def sessions_wf_def)
  from read_steps [OF s2(1), of 0, OF _ _ s1(2) u2 s2(6)] obtain n1 t1 s4 where
    s4: "reach s s4 [proc [AnsInt (Inr b1), AnsInt (Inr n1), AnsInt (Inr (t1 * Second))], proc [AnsInt (Inr b2)]]"
      "n1 \<le> pv_MaxSize m" "0 \<le> t1" "\<bar>t1 * 1000 - (till - clock s)\<bar> < 1000" "up s4" "view s4 = view s2" "clock s4 = clock s"
    using s2(4) by auto
  from read_steps [OF s4(1), of 1, OF _ _ s2(2) s4(5)] obtain n2 t2 s6 where
    s6: "reach s s6 [proc [AnsInt (Inr b1), AnsInt (Inr n1), AnsInt (Inr (t1 * Second))],
        proc [AnsInt (Inr b2), AnsInt (Inr n2), AnsInt (Inr (t2 * Second))]]"
      "n2 \<le> pv_MaxSize m" "0 \<le> t2" "\<bar>t2 * 1000 - (till - clock s)\<bar> < 1000" "up s6" "view s6 = view s2" "clock s6 = clock s"
    using s2(6) s4(6,7) by auto
  from write_step [OF s6(1), of 1, OF _ _ s2(2) s6(2,3) _ s6(5), of till "Some till"] obtain s7 p2 till2 where
    s7: "reach s s7 [proc [AnsInt (Inr b1), AnsInt (Inr n1), AnsInt (Inr (t1 * Second))], p2]"
      "p_req p2 = req" "\<exists>r. answer W srv p2 = Some (Ok r)" "up s7" "clock s7 = clock s" "view s7 = (view s2)(pv_Name m \<mapsto> (val, Some till2))"
    using s6(4,6,7) s2(6) fits by auto
  from write_step [OF s7(1), of 0, OF _ _ s1(2) s4(2,3) _ s7(4), of till "Some till2"] obtain s8 p1 till1 where
    s8: "reach s s8 [p1, p2]" "p_req p1 = req" "\<exists>r. answer W srv p1 = Some (Ok r)" "view s8 = (view s2)(pv_Name m \<mapsto> (val, Some till1))"
      "\<bar>till1 * Millisecond - (till * Millisecond + AsDuration (wL W) (pv_Ttl m))\<bar> < 2 * Second"
    using s4(4) s7(5,6) fits by auto
  have "session_led view s8 = session_led view s2" using named_well(2) [symmetric] by (intro ext) (simp add: session_led_def s8(4))
  with s2(5) s7(2,3) s8 show ?thesis by (intro exI [of _ s8] exI [of _ "[p1, p2]"] exI [of _ till1]) auto
qed

end

subsection \<open>A concrete race\<close>

definition demo_race_prolong :: ProlongValueRequest where
  "demo_race_prolong = (demo_prolong 60)\<lparr>pv_Name := value_key demo_cid\<rparr>"

definition demo_race_request :: AnyRequest where
  "demo_race_request = \<lparr>Procedure = ProlongValueProcedure, AuthorizationHeader = [''Bearer sess''],
     AnyMsg = MProlongValue demo_race_prolong\<rparr>"

definition demo_race_mem :: mem where
  "demo_race_mem = \<lparr>mclock = 0, mkeys = [session_key demo_sid \<mapsto> (RStr (itoa 2000), None),
     value_key demo_cid \<mapsto> (RStr ''hello'', Some 5000)]\<rparr>"

lemma demo_race_facts:
  "pv_Name demo_race_prolong = value_key demo_cid" "pv_MaxSize demo_race_prolong = 1000"
  "AsDuration demo_libs (pv_Ttl demo_race_prolong) = 60 * Second"
  using demo_prolong_facts(2,4) [of 60] by (simp_all add: demo_race_prolong_def)

lemma demo_race_routed:
  "routed demo_race_request" "\<not> open_door demo_server demo_race_request" "AnyMsg demo_race_request = MProlongValue demo_race_prolong"
  by (simp_all add: routed_def procedures_def open_door_def free_of_charge_def skipAuth_def demo_race_request_def
      procedure_defs demo_login_config_def demo_config_def)

lemma demo_race_plan: "plan demo_world demo_server (1000 * Second) demo_race_request = Inr (demo_sid, 1000)"
proof -
  have "wrap64 1000 = 1000" by (rule wrap64_id) (simp add: in_int64_def int64_min_def int64_max_def)
  then show ?thesis
    by (simp add: plan_def gate_plan_def bearer_def demo_race_request_def HeaderGet_def VerifyAndParseJwt_def selfKeyFunc_def
        GetPrice_def demo_bearer empty_session_claims_def demo_jwt_defs procedure_defs Second_def price_defs demo_race_facts(2))
qed

interpretation demo_race: prolong_service demo_world mkeys mclock mup "table_decode demo_tokens" demo_verifies demo_server
    "''uuid''" "1000 * Second" demo_race_request demo_race_prolong demo_sid 1000 "RStr ''hello''"
proof (intro prolong_service.intro demo.service_world_axioms prolong_request.intro prolong_service_axioms.intro
    demo_race_routed demo_race_plan)
  show "\<exists>n \<le> pv_MaxSize demo_race_prolong. fst (rMemoryUsage (wR demo_world) (pv_Name demo_race_prolong) t) = Inr n"
    if "mup t" and "mkeys t (pv_Name demo_race_prolong) = Some (RStr ''hello'', e)" for t e
    using that by (simp add: demo_race_facts mem_MemoryUsage_def)
  show "HasPrefix (pv_Name demo_race_prolong) ''values/''" by (simp add: demo_race_facts value_key_def)
qed (simp_all add: demo_race_facts Second_def)

lemma demo_race_mem_inv: "service_inv demo_libs mkeys mup demo_race_mem" "session_led mkeys demo_race_mem = [demo_sid \<mapsto> 2000]"
proof -
  have i: "in_int64 2000" by (simp add: in_int64_def int64_min_def int64_max_def)
  have "values_intact demo_libs (mkeys demo_race_mem)"
    using demo_calculateCid
    by (auto simp: values_intact_def demo_create_def demo_race_mem_def intro!: exI [of _ demo_create] split: if_splits)
  moreover have "index_wf (mkeys demo_race_mem)"
    by (auto simp: index_wf_def demo_race_mem_def value_key_def index_key_def session_key_def intro: key_typed_other split: if_splits)
  ultimately show "service_inv demo_libs mkeys mup demo_race_mem"
    using i by (auto simp: service_inv_def sessions_wf_def sessions_permanent_def mup_def demo_race_mem_def split: if_splits)
  show "session_led mkeys demo_race_mem = [demo_sid \<mapsto> 2000]"
    by (rule ext) (auto simp: session_led_def demo_race_mem_def Atoi_itoa [OF i])
qed

end
