(* ===== verification/Paging.thy ===== *)
theory Paging
  imports Server
begin

section \<open>Following the page tokens of a stream\<close>

text \<open>
  A page of \<open>ListStreamValues\<close> starts at the entry of the page token, this entry included, and its own token
  is the identifier of the page's last entry. \<open>read_pages\<close> asks for page after page under the token of the page before,
  as the messages provide for, until the token stays as it is, and gives the pages as the service returned them. Nothing
  in the code bounds how many pages that takes, so it is a partial function: \<open>None\<close> would be a client that asks for ever.
\<close>

partial_function (option) read_pages ::
    "(string \<Rightarrow> 'r \<Rightarrow> ListStreamValuesResponse result \<times> 'r) \<Rightarrow> string \<Rightarrow> 'r \<Rightarrow> StreamValueInfo list list option" where
  "read_pages list_page token s =
     (case list_page token s of
        (Ok resp, s1) \<Rightarrow>
          if lsr_PageToken resp = token then Some [lsr_StreamValueInfo resp]
          else
            Option.bind (read_pages list_page (lsr_PageToken resp) s1)
              (\<lambda>pages. Some (lsr_StreamValueInfo resp # pages))
      | (Err e, s1) \<Rightarrow> Some []
      | (Panic m, s1) \<Rightarrow> Some [])"

lemma pages_stop:
  "list_page t s = (Ok resp, s') \<Longrightarrow> lsr_PageToken resp = t \<Longrightarrow> read_pages list_page t s = Some [lsr_StreamValueInfo resp]"
  by (subst read_pages.simps) simp

lemma pages_step:
  "list_page t s = (Ok resp, s') \<Longrightarrow> lsr_PageToken resp \<noteq> t \<Longrightarrow> read_pages list_page (lsr_PageToken resp) s' = Some pages \<Longrightarrow>
     read_pages list_page t s = Some (lsr_StreamValueInfo resp # pages)"
  by (subst read_pages.simps) simp

text \<open>
  Pages of which each begins with the entry the one before it ended with, and what they hold when this repetition
  is left out.
\<close>

definition overlapping :: "'a list list \<Rightarrow> bool" where
  "overlapping pages \<longleftrightarrow> successively (\<lambda>p q. p \<noteq> [] \<and> q \<noteq> [] \<and> hd q = last p) pages"

definition joined :: "'a list list \<Rightarrow> 'a list" where
  "joined pages = (case pages of [] \<Rightarrow> [] | p # qs \<Rightarrow> p @ concat (map tl qs))"

lemma joined_simps [simp]: "joined [] = []" "joined [p] = p" "joined (p # q # qs) = p @ tl q @ concat (map tl qs)"
  by (simp_all add: joined_def)

lemma overlapping_simps [simp]:
  "overlapping [p]" "overlapping (p # q # qs) \<longleftrightarrow> p \<noteq> [] \<and> q \<noteq> [] \<and> hd q = last p \<and> overlapping (q # qs)"
  by (auto simp: overlapping_def)

text \<open>A page in front of pages that begin with its last entry.\<close>

lemma joined_front:
  assumes "joined pages = y # ys" and "overlapping pages" and "hd pages \<noteq> []" and "pages \<noteq> []" and "p \<noteq> []" and "last p = y"
  shows "joined (p # pages) = p @ ys" and "overlapping (p # pages)"
proof -
  obtain q qs where q: "pages = q # qs" "q \<noteq> []" using assms(3,4) by (cases pages) auto
  then obtain z zs where z: "q = z # zs" by (cases q) auto
  with q assms(1) have "z = y" "zs @ concat (map tl qs) = ys" by (simp_all add: joined_def)
  with q z assms(2,5,6) show "joined (p # pages) = p @ ys" "overlapping (p # pages)" by simp_all
qed

lemma joined_in_pages: "x \<in> set (joined pages) \<Longrightarrow> x \<in> set (concat pages)"
proof (cases pages)
  case (Cons p qs)
  have "set (tl q) \<subseteq> set q" for q :: "'a list" by (cases q) auto
  moreover assume "x \<in> set (joined pages)"
  ultimately show ?thesis using Cons by (auto simp: joined_def)
qed simp

text \<open>The entries from an identifier on, in a stream whose identifiers increase.\<close>

abbreviation from_id :: "sid \<Rightarrow> stream_entry list \<Rightarrow> stream_entry list" where
  "from_id i es \<equiv> filter (\<lambda>x. i \<le> fst x) es"

abbreviation ids_increase :: "stream_entry list \<Rightarrow> bool" where
  "ids_increase es \<equiv> sorted_wrt (<) (map fst es)"

lemma ids_increase_sorted: "ids_increase es \<Longrightarrow> sorted (map fst es)"
  by (rule strict_sorted_imp_sorted)

lemma from_id_increase: "ids_increase es \<Longrightarrow> ids_increase (from_id i es)"
  by (induction es) auto

text \<open>Past a page, the rest of the stream starts with the page's last entry.\<close>

lemma from_last:
  assumes "ids_increase (xs @ y # ys)"
  shows "from_id (fst y) (xs @ y # ys) = y # ys"
proof -
  have "filter (\<lambda>x. fst y \<le> fst x) xs = []"
    using assms by (fastforce simp: sorted_wrt_append filter_empty_conv)
  moreover have "filter (\<lambda>x. fst y \<le> fst x) ys = ys"
    using assms by (auto simp: sorted_wrt_append less_imp_le)
  ultimately show ?thesis by simp
qed

lemma from_id_from:
  assumes "i \<le> j"
  shows "from_id j (from_id i es) = from_id j es"
  unfolding filter_filter using order_trans [OF assms] by (intro filter_cong) auto

lemma page_split:
  assumes o: "ids_increase es" and n: "0 < n" and l: "from_id i es \<noteq> []"
  defines "page \<equiv> take n (from_id i es)"
  shows "from_id (fst (last page)) es = last page # drop n (from_id i es)"
    and "from_id i es = butlast page @ from_id (fst (last page)) es"
proof -
  have p: "page \<noteq> []" using n l by (simp add: page_def)
  then have w: "from_id i es = butlast page @ last page # drop n (from_id i es)"
    unfolding page_def by (metis append.assoc append_Cons append_Nil append_butlast_last_id append_take_drop_id)
  have "last page \<in> set (from_id i es)" using p in_set_takeD last_in_set unfolding page_def by metis
  then have "i \<le> fst (last page)" by simp
  then have "from_id (fst (last page)) es = from_id (fst (last page)) (from_id i es)" by (simp only: from_id_from)
  also have "\<dots> = last page # drop n (from_id i es)"
    using from_last [of "butlast page" "last page" "drop n (from_id i es)"] from_id_increase [OF o, of i] w by metis
  finally show f: "from_id (fst (last page)) es = last page # drop n (from_id i es)" .
  show "from_id i es = butlast page @ from_id (fst (last page)) es" using w f by simp
qed

text \<open>
  What makes the reading end: the entries from the token on get fewer, and when a single one is left the token
  becomes its identifier and stays.
\<close>

definition entries_left :: "sid \<Rightarrow> stream_entry list \<Rightarrow> nat" where
  "entries_left i es = 2 * length (from_id i es) + (if from_id i es \<noteq> [] \<and> fst (hd (from_id i es)) = i then 0 else 1)"

lemma page_progress:
  assumes o: "ids_increase es" and n: "2 \<le> n" and l: "from_id i es \<noteq> []"
  defines "j \<equiv> fst (last (take n (from_id i es)))"
  assumes ij: "j \<noteq> i"
  shows "entries_left j es < entries_left i es"
proof -
  let ?F = "from_id i es"
  have w: "from_id j es = last (take n ?F) # drop n ?F" using page_split(1) [OF o _ l, of n] n by (simp add: j_def)
  then have N: "from_id j es \<noteq> []" "fst (hd (from_id j es)) = j" by (simp_all add: j_def)
  have L: "length (from_id j es) = Suc (length ?F - n)" using w by simp
  show ?thesis
  proof (cases "length ?F = 1")
    case True
    then have "fst (hd ?F) = j" using n by (cases ?F) (auto simp: j_def)
    with True L N ij n show ?thesis by (simp add: entries_left_def)
  next
    case False
    then have "2 \<le> length ?F" using l by (cases ?F) (auto simp: neq_Nil_conv)
    then have "Suc (length ?F - n) < length ?F" using n by linarith
    with L N show ?thesis by (simp add: entries_left_def)
  qed
qed

lemma page_of_last:
  assumes o: "ids_increase es" and n: "2 \<le> n" and l: "from_id i es \<noteq> []" and "fst (last (take n (from_id i es))) = i"
  shows "take n (from_id i es) = from_id i es"
proof -
  have "butlast (take n (from_id i es)) = []" using page_split(2) [OF o _ l, of n] n assms(4) by simp
  then have "length (take n (from_id i es)) \<le> 1" by (cases "take n (from_id i es)") (auto split: if_splits)
  then show ?thesis using n by simp
qed

text \<open>The pages a reader with one token and one page size asks for.\<close>

definition stream_pages ::
    "'r redis_client \<Rightarrow> (string \<Rightarrow> jwt_claims \<Rightarrow> bool \<Rightarrow> int \<Rightarrow> jwt_claims result) \<Rightarrow> int \<Rightarrow> ListStreamValuesRequest \<Rightarrow>
     string \<Rightarrow> 'r \<Rightarrow> ListStreamValuesResponse result \<times> 'r" where
  "stream_pages R verify now req token s = ListStreamValues R verify now (req\<lparr>ls_PageToken := token\<rparr>) s"

context redis_contract
begin

lemma stream_pages_answer:
  fixes verify :: "string \<Rightarrow> jwt_claims \<Rightarrow> bool \<Rightarrow> int \<Rightarrow> jwt_claims result" and i :: sid
  assumes u: "up s" and p: "ParseResourceName (ls_Parent req) [''accounts'', ''streams''] = Inr segs"
    and a: "ensureAuthToken verify now (ls_AuthToken req) (segs ! 0) = Ok ()"
    and v: "view s (ls_Parent req) = Some (RStream es, e)" and es: "list_all value_entry es" "ids_increase es"
    and n: "0 < ls_PageSize req"
  defines "page \<equiv> take (nat (ls_PageSize req)) (from_id i es)"
  obtains s' where "up s'" and "view s' = view s"
    and "stream_pages R verify now req (sid_str i) s =
      (Ok \<lparr>lsr_StreamValueInfo = map entry_info page,
           lsr_PageToken = (if page = [] then ''0-0'' else sid_str (fst (last page)))\<rparr>, s')"
proof -
  let ?q = "req\<lparr>ls_PageToken := sid_str i\<rparr>"
  have "fst (ListStreamValues R verify now ?q s) = Ok \<lparr>lsr_StreamValueInfo = map entry_info page,
      lsr_PageToken = (if page = [] then ''0-0'' else sid_str (fst (last page)))\<rparr>"
    unfolding page_def using ListStreamValues_page [OF u, of ?q segs verify now es e i] p a v es n ids_increase_sorted by simp
  with reads_streams(1,2) [OF u, of verify now ?q] show thesis
    by (intro that [of "snd (ListStreamValues R verify now ?q s)"]) (simp_all add: stream_pages_def prod_eq_iff)
qed

lemma read_pages_all:
  assumes p: "ParseResourceName (ls_Parent req) [''accounts'', ''streams''] = Inr segs"
    and a: "ensureAuthToken verify now (ls_AuthToken req) (segs ! 0) = Ok ()"
    and es: "list_all value_entry es" "ids_increase es" and n: "2 \<le> ls_PageSize req"
  shows "up s \<Longrightarrow> view s (ls_Parent req) = Some (RStream es, e) \<Longrightarrow> from_id i es \<noteq> [] \<or> i = (0, 0) \<Longrightarrow>
    \<exists>pages. read_pages (stream_pages R verify now req) (sid_str i) s = Some pages \<and>
      joined pages = map entry_info (from_id i es) \<and> overlapping pages \<and> pages \<noteq> [] \<and> (from_id i es \<noteq> [] \<longrightarrow> hd pages \<noteq> [])"
proof (induction "entries_left i es" arbitrary: i s rule: less_induct)
  case less
  let ?n = "nat (ls_PageSize req)" and ?F = "from_id i es" and ?list_page = "stream_pages R verify now req"
  have n0: "0 < ls_PageSize req" "0 < ?n" "2 \<le> ?n" using n by simp_all
  obtain s' where s': "up s'" "view s' = view s" "?list_page (sid_str i) s =
      (Ok \<lparr>lsr_StreamValueInfo = map entry_info (take ?n ?F),
           lsr_PageToken = (if take ?n ?F = [] then ''0-0'' else sid_str (fst (last (take ?n ?F))))\<rparr>, s')"
    by (rule stream_pages_answer [OF less.prems(1) p a less.prems(2) es n0(1)])
  show ?case
  proof (cases "?F = []")
    case True
    with less.prems(3) pages_stop [where list_page = ?list_page, OF s'(3)] show ?thesis by (simp add: zero_sid)
  next
    case F: False
    define j where "j = fst (last (take ?n ?F))"
    have T: "take ?n ?F \<noteq> []" using F n0(2) by simp
    note w = page_split [OF es(2) n0(2) F, folded j_def]
    show ?thesis
    proof (cases "j = i")
      case True
      then have "take ?n ?F = ?F" using page_of_last [OF es(2) n0(3) F] by (simp add: j_def)
      with True F pages_stop [where list_page = ?list_page, OF s'(3)] T show ?thesis by (simp add: j_def)
    next
      case False
      have "view s' (ls_Parent req) = Some (RStream es, e)" "from_id j es \<noteq> []" using s'(2) less.prems(2) w(1) by simp_all
      with less.hyps [of j s'] page_progress [OF es(2) n0(3) F] False s'(1) obtain pages where
        r: "read_pages ?list_page (sid_str j) s' = Some pages" "overlapping pages" "pages \<noteq> []" "hd pages \<noteq> []"
          "joined pages = entry_info (last (take ?n ?F)) # map entry_info (drop ?n ?F)"
        using w(1) by (auto simp: j_def)
      let ?p = "map entry_info (take ?n ?F)"
      have "?p \<noteq> []" "last ?p = entry_info (last (take ?n ?F))" using T by (simp_all add: last_map)
      from joined_front [OF r(5,2,4,3) this] have "joined (?p # pages) = map entry_info ?F" "overlapping (?p # pages)"
        by (simp_all flip: map_append)
      moreover have "?list_page (sid_str i) s = (Ok \<lparr>lsr_StreamValueInfo = ?p, lsr_PageToken = sid_str j\<rparr>, s')"
        using s'(3) T by (simp only: j_def if_False)
      from pages_step [where list_page = ?list_page, OF this] r(1) False
      have "read_pages ?list_page (sid_str i) s = Some (?p # pages)" by simp
      ultimately show ?thesis using T by (intro exI [of _ "?p # pages"]) simp
    qed
  qed
qed

text \<open>With pages of one entry the token of the first page never changes: the pages are that entry again.\<close>

lemma read_pages_one:
  assumes p: "ParseResourceName (ls_Parent req) [''accounts'', ''streams''] = Inr segs"
    and a: "ensureAuthToken verify now (ls_AuthToken req) (segs ! 0) = Ok ()"
    and es: "list_all value_entry es" "ids_increase es" "es = x # rest" and n: "ls_PageSize req = 1"
    and u: "up s" and v: "view s (ls_Parent req) = Some (RStream es, e)"
  shows "\<exists>pages. read_pages (stream_pages R verify now req) ''0-0'' s = Some pages \<and> set (concat pages) = {entry_info x}"
proof -
  have n0: "0 < ls_PageSize req" using n by simp
  have z: "from_id (0, 0) es = es" by (induction es) (auto simp: less_eq_prod_def)
  have f: "from_id (fst x) es = es" using from_last [of "[]" x rest] es(2,3) by simp
  obtain s1 where s1: "up s1" "view s1 = view s" "stream_pages R verify now req (sid_str (0, 0)) s =
      (Ok \<lparr>lsr_StreamValueInfo = [entry_info x], lsr_PageToken = sid_str (fst x)\<rparr>, s1)"
    using stream_pages_answer [OF u p a v es(1,2) n0, of "(0, 0)"] z es(3) n by auto
  have v1: "view s1 (ls_Parent req) = Some (RStream es, e)" using s1(2) v by simp
  obtain s2 where s2: "stream_pages R verify now req (sid_str (fst x)) s1 =
      (Ok \<lparr>lsr_StreamValueInfo = [entry_info x], lsr_PageToken = sid_str (fst x)\<rparr>, s2)"
    using stream_pages_answer [OF s1(1) p a v1 es(1,2) n0, of "fst x"] f es(3) n by auto
  have w: "read_pages (stream_pages R verify now req) (sid_str (fst x)) s1 = Some [[entry_info x]]"
    using pages_stop [where list_page = "stream_pages R verify now req", OF s2] by simp
  show ?thesis
    unfolding zero_sid
    using pages_stop [where list_page = "stream_pages R verify now req", OF s1(3)] pages_step [where list_page = "stream_pages R verify now req", OF s1(3)] w
    by (cases "fst x = (0, 0)") simp_all
qed

end

text \<open>
  The patterns of the messages ask for names \<open>accounts/did:.../streams/...\<close>, and neither they nor the handler's own
  expression, which knows no colon, are anchored. So the names that both accept are those that contain a second name.
\<close>

definition demo_nested :: string where
  "demo_nested = ''accounts/did:b/streams/accounts/bob/streams/in''"

lemma demo_nested_parses: "ParseResourceName demo_nested [''accounts'', ''streams''] = Inr [''bob'', ''in'']"
  unfolding demo_nested_def by code_simp

text \<open>
  C12. Following the page tokens of a stream ends, and sees all of it. For a stream whose entries have increasing
  identifiers, listed under a name from which the handler reads the account \<open>a\<close> and with a token of \<open>a\<close>, a client that
  asks for page after page from the start, with pages of two entries or more, comes to an end. The pages it was given are
  the entries of the stream in order, but that the service repeats the last entry of a page as the first one of the next,
  and nothing else. With pages of one entry it ends too, but has seen the first entry only: the page token is the
  identifier of the last entry returned and the next page starts with that entry, so the token never moves on. Names with
  a DID as the account, which the message definitions ask for, are not read by the handler unless they contain a second name.
\<close>

theorem paging_ends:
  assumes "redis_contract R view clock up" and "up s"
    and "ParseResourceName (ls_Parent req) [''accounts'', ''streams''] = Inr [a, b]"
    and "VerifyAndParseJwt J am (ls_AuthToken req) (Registered empty_registered) True now = Ok cl"
    and "registered_of cl = Some r" and "rc_Subject r = a"
    and "view s (ls_Parent req) = Some (RStream es, e)" and "list_all value_entry es" and "sorted_wrt (<) (map fst es)"
  shows "(2 \<le> ls_PageSize req \<longrightarrow>
      (\<exists>pages. read_pages (stream_pages R (VerifyAndParseJwt J am) now req) ''0-0'' s = Some pages \<and>
         overlapping pages \<and> joined pages = map entry_info es)) \<and>
    (ls_PageSize req = 1 \<and> es \<noteq> [] \<longrightarrow>
      (\<exists>pages. read_pages (stream_pages R (VerifyAndParseJwt J am) now req) ''0-0'' s = Some pages \<and>
         set (concat pages) = {entry_info (hd es)}))"
proof -
  have t: "ensureAuthToken (VerifyAndParseJwt J am) now (ls_AuthToken req) ([a, b] ! 0) = Ok ()"
    using assms(4-6) by (auto simp: ensureAuthToken_Ok)
  have z: "from_id (0, 0) es = es" by (induction es) (auto simp: less_eq_prod_def)
  from redis_contract.read_pages_all [OF assms(1,3) t assms(8,9) _ assms(2,7), of "(0, 0)"]
    redis_contract.read_pages_one [OF assms(1,3) t assms(8,9) _ _ assms(2,7), of "hd es" "tl es"] z
  show ?thesis by (auto simp: zero_sid simp del: concat.simps set_concat)
qed

theorem paging_ends_witness:
  "\<exists>s req pages. mkeys s demo_nested = Some (RStream demo_stream, None) \<and> ls_Parent req = demo_nested \<and> ls_PageSize req = 2 \<and>
     read_pages (stream_pages mem_redis (VerifyAndParseJwt demo_jwt demo_auth) (1000000 * Second) req) ''0-0'' s = Some pages \<and>
     overlapping pages \<and> joined pages = map entry_info demo_stream"
proof -
  let ?s = "\<lparr>mclock = 5, mkeys = [demo_nested \<mapsto> (RStream demo_stream, None)]\<rparr>"
  let ?req = "(demo_list (0, 0) 2)\<lparr>ls_Parent := demo_nested\<rparr>"
  have u: "mup ?s" by (simp add: mup_def)
  have l: "ls_Parent ?req = demo_nested" "ls_AuthToken ?req = ''ident''" "ls_PageSize ?req = 2"
    by (simp_all add: demo_list_def)
  have v: "mkeys ?s (ls_Parent ?req) = Some (RStream demo_stream, None)" by simp
  have o: "sorted_wrt (<) (map fst demo_stream)" by (simp add: demo_stream_def)
  have p: "ParseResourceName (ls_Parent ?req) [''accounts'', ''streams''] = Inr [''bob'', ''in'']"
    unfolding l(1) by (rule demo_nested_parses)
  have "VerifyAndParseJwt demo_jwt demo_auth (ls_AuthToken ?req) (Registered empty_registered) True (1000000 * Second) =
      Ok (Registered demo_identity_claims)"
    unfolding l(2) by (rule demo_ident)
  from paging_ends [OF mem.redis_contract_axioms u p this registered_of.simps(1) demo_ids(3) v demo_stream_ok(1) o]
  have "2 \<le> ls_PageSize ?req \<longrightarrow>
      (\<exists>pages. read_pages (stream_pages mem_redis (VerifyAndParseJwt demo_jwt demo_auth) (1000000 * Second) ?req) ''0-0'' ?s = Some pages \<and>
         overlapping pages \<and> joined pages = map entry_info demo_stream)" by (rule conjunct1)
  moreover have "mkeys ?s demo_nested = Some (RStream demo_stream, None)" "2 \<le> ls_PageSize ?req" using l(3) by simp_all
  ultimately show ?thesis using l(1,3) by blast
qed

end
