(* ===== verification/Stream_Log.thy ===== *)
theory Stream_Log
  imports Concurrency Paging
begin

section \<open>Streams under concurrent appends\<close>

text \<open>
  What the requests in flight do to the streams, as a log that many writers share. The abstract state is the time and
  the streams, a step of it is an append by one of the writers, the refresh of an expiry or the passing of time.
  Every step of a system (\<open>Concurrency\<close>) is a step of this log for the appends in flight (\<open>system_step_streams\<close>), so the
  order of a stream's entries, where they come from and how long they stay are shown once, on the log.
\<close>

subsection \<open>The log\<close>

type_synonym stream = "stream_entry list \<times> int option"

text \<open>An append in flight: the stream, the value and the time of the request.\<close>

type_synonym append = "string \<times> bytes \<times> int"

definition contents :: "stream option \<Rightarrow> stream" where
  "contents c = (case c of None \<Rightarrow> ([], None) | Some x \<Rightarrow> x)"

definition stream_lifetime :: int where
  "stream_lifetime = 7 * 24 * 3600 * 1000"

definition unexpired_streams :: "int \<Rightarrow> (string \<rightharpoonup> stream) \<Rightarrow> (string \<rightharpoonup> stream)" where
  "unexpired_streams t F k = (case F k of Some (es, e) \<Rightarrow> if unexpired t e then Some (es, e) else None | None \<Rightarrow> None)"

inductive stream_step :: "append set \<Rightarrow> int \<times> (string \<rightharpoonup> stream) \<Rightarrow> int \<times> (string \<rightharpoonup> stream) \<Rightarrow> bool" for ws where
  stream_same: "stream_step ws (t, F) (t, F)"
| stream_append: "stream_step ws (t, F) (t, F(k \<mapsto> (drop n es @ [(i, [(''value'', v)])], e)))"
    if "(k, v, now) \<in> ws" and "contents (F k) = (es, e)" and "\<forall>x \<in> set es. fst x < i"
      and "\<forall>x \<in> set (take n es). fst x < oldest_kept now"
| stream_refresh: "stream_step ws (t, F) (t, F(k \<mapsto> (es, Some (t + stream_lifetime))))"
    if "(k, v, now) \<in> ws" and "F k = Some (es, e)"
| stream_time: "stream_step ws (t, F) (t', unexpired_streams t' F)"
    if "t \<le> t'"

text \<open>The streams of a keyspace.\<close>

definition streams_of :: "keyspace \<Rightarrow> string \<rightharpoonup> stream" where
  "streams_of ks k =
     (if HasPrefix k ''accounts/''
      then (case ks k of Some (RStream es, e) \<Rightarrow> Some (es, e) | _ \<Rightarrow> None) else None)"

lemma streams_of_Some: "streams_of ks k = Some (es, e) \<longleftrightarrow> HasPrefix k ''accounts/'' \<and> ks k = Some (RStream es, e)"
  by (auto simp: streams_of_def split: option.splits rval.splits)

lemma streams_of_purge: "streams_of (purge t ks) = unexpired_streams t (streams_of ks)"
  by (rule ext) (auto simp: streams_of_def unexpired_streams_def purge_def Let_def split: option.split rval.split)

lemma streams_of_other:
  assumes "\<not> HasPrefix k ''accounts/''" and "\<And>k'. k' \<noteq> k \<Longrightarrow> ks' k' = ks k'"
  shows "streams_of ks' = streams_of ks"
proof (rule ext)
  fix x
  show "streams_of ks' x = streams_of ks x" using assms by (cases "x = k") (simp_all add: streams_of_def)
qed

lemma streams_of_update: "HasPrefix k ''accounts/'' \<Longrightarrow> streams_of (ks(k \<mapsto> (RStream es, e))) = (streams_of ks)(k \<mapsto> (es, e))"
  by (rule ext) (auto simp: streams_of_def)

lemma contents_streams: "contents (streams_of ks k) = (es, e) \<Longrightarrow> HasPrefix k ''accounts/'' \<Longrightarrow> (\<nexists>x d. ks k = Some (x, d) \<and> (\<nexists>es. x = RStream es)) \<Longrightarrow>
    (ks k = None \<and> es = [] \<and> e = None) \<or> ks k = Some (RStream es, e)"
  by (auto simp: contents_def streams_of_def split: option.splits rval.splits)

subsection \<open>Laws of the log\<close>

definition entry_in :: "(string \<rightharpoonup> stream) \<Rightarrow> string \<Rightarrow> stream_entry \<Rightarrow> bool" where
  "entry_in F k x \<longleftrightarrow> x \<in> set (fst (contents (F k)))"

lemma contents_simps [simp]: "contents None = ([], None)" "contents (Some x) = x"
  by (simp_all add: contents_def)

lemma entry_in_Some: "entry_in F k x \<longleftrightarrow> (\<exists>es e. F k = Some (es, e) \<and> x \<in> set es)"
  by (cases "F k") (auto simp: entry_in_def)

lemma entry_in_update: "entry_in (F(k \<mapsto> (es, e))) k' x \<longleftrightarrow> (if k' = k then x \<in> set es else entry_in F k' x)"
  by (simp add: entry_in_def)

lemma unexpired_streams_Some:
  "unexpired_streams t F k = Some (es, e) \<longleftrightarrow> F k = Some (es, e) \<and> unexpired t e"
  by (auto simp: unexpired_streams_def split: option.splits)

lemma ids_increase_append:
  "ids_increase es \<Longrightarrow> \<forall>x \<in> set es. fst x < i \<Longrightarrow> ids_increase (drop n es @ [(i, fs)])"
proof -
  assume o: "ids_increase es" and l: "\<forall>x \<in> set es. fst x < i"
  have "sorted_wrt (<) (drop n (map fst es))" using o by (rule sorted_wrt_drop)
  then have "ids_increase (drop n es)" by (simp only: drop_map)
  with l show ?thesis by (auto simp: sorted_wrt_append simp del: drop_map dest: in_set_dropD)
qed

text \<open>Every stream is in the order of its identifiers.\<close>

definition log_ordered :: "(string \<rightharpoonup> stream) \<Rightarrow> bool" where
  "log_ordered F \<longleftrightarrow> (\<forall>k. ids_increase (fst (contents (F k))))"

lemma stream_step_ordered: "stream_step ws x y \<Longrightarrow> log_ordered (snd x) \<Longrightarrow> log_ordered (snd y)"
proof (induction rule: stream_step.induct)
  case (stream_append k v now F es e i n t)
  moreover have "ids_increase es" using stream_append(2,5) by (auto simp: log_ordered_def dest: spec [of _ k])
  ultimately show ?case using ids_increase_append by (auto simp: log_ordered_def)
next
  case (stream_refresh k v now F es e t)
  then show ?case by (auto simp: log_ordered_def dest: spec [of _ k])
next
  case (stream_time t t' F)
  then show ?case by (auto simp: log_ordered_def unexpired_streams_def split: option.split) (metis contents_simps(2) fst_conv)
qed

text \<open>Every entry was there at the start or is an append to its stream.\<close>

definition log_from :: "append set \<Rightarrow> (string \<rightharpoonup> stream) \<Rightarrow> (string \<rightharpoonup> stream) \<Rightarrow> bool" where
  "log_from ws F0 F \<longleftrightarrow>
     (\<forall>k x. entry_in F k x \<longrightarrow> entry_in F0 k x \<or> (\<exists>v now. (k, v, now) \<in> ws \<and> snd x = [(''value'', v)]))"

lemma stream_step_from: "stream_step ws x y \<Longrightarrow> ws \<subseteq> ws' \<Longrightarrow> log_from ws' F0 (snd x) \<Longrightarrow> log_from ws' F0 (snd y)"
proof (induction rule: stream_step.induct)
  case (stream_append k v now F es e i n t)
  have "entry_in F k z" if "z \<in> set (drop n es)" for z
    using stream_append(2) that by (auto simp: entry_in_def dest: in_set_dropD)
  with stream_append(1,5,6) show ?case unfolding log_from_def snd_conv entry_in_update by (auto split: if_splits)
next
  case (stream_refresh k v now F es e t)
  then show ?case by (auto simp: log_from_def entry_in_Some)
next
  case (stream_time t t' F)
  have "entry_in F k z" if "entry_in (unexpired_streams t' F) k z" for k z
    using that by (auto simp: entry_in_Some unexpired_streams_Some)
  with stream_time(3) show ?case unfolding log_from_def by simp
qed

text \<open>No stream expires before the time \<open>d\<close>.\<close>

definition lasting :: "int \<Rightarrow> (string \<rightharpoonup> stream) \<Rightarrow> bool" where
  "lasting d F \<longleftrightarrow> (\<forall>k es e. F k = Some (es, Some e) \<longrightarrow> d \<le> e)"

lemma stream_step_lasting: "stream_step ws x y \<Longrightarrow> d \<le> fst x + stream_lifetime \<Longrightarrow> lasting d (snd x) \<Longrightarrow> lasting d (snd y)"
proof (induction rule: stream_step.induct)
  case (stream_append k v now F es e i n t)
  then show ?case by (cases "F k") (auto simp: lasting_def)
qed (auto simp: lasting_def unexpired_streams_Some)

lemma stream_step_time: "stream_step ws x y \<Longrightarrow> fst x \<le> fst y"
  by (induction rule: stream_step.induct) simp_all

text \<open>An entry stays until it is too old for an append or its stream expires.\<close>

lemma stream_step_keeps:
  "stream_step ws x y \<Longrightarrow> entry_in (snd x) k z \<Longrightarrow> lasting d (snd x) \<Longrightarrow> fst y < d \<Longrightarrow>
     \<forall>(k, v, now) \<in> ws. oldest_kept now \<le> fst z \<Longrightarrow> entry_in (snd y) k z"
proof (induction rule: stream_step.induct)
  case (stream_append k' v now F es e i n t)
  show ?case
  proof (cases "k = k'")
    case True
    have z: "z \<in> set es" using stream_append(2,5) True by (simp add: entry_in_def)
    have "oldest_kept now \<le> fst z" using stream_append(1,8) by blast
    then have "z \<notin> set (take n es)" using stream_append(4) by (auto simp: not_le)
    then have "z \<in> set (drop n es)" using z by (metis Un_iff append_take_drop_id set_append)
    then show ?thesis using True by (simp add: entry_in_def)
  next
    case False
    with stream_append show ?thesis by (simp add: entry_in_def)
  qed
next
  case (stream_time t t' F)
  then show ?case by (force simp: entry_in_Some unexpired_streams_Some lasting_def unexpired_def split: option.split)
qed (auto simp: entry_in_Some)

lemma stream_step_mono: "stream_step ws x y \<Longrightarrow> ws \<subseteq> ws' \<Longrightarrow> stream_step ws' x y"
  by (induction rule: stream_step.induct) (blast intro: stream_step.intros)+

subsection \<open>Commands on streams\<close>

definition timely :: "int \<Rightarrow> bool" where
  "timely now \<longleftrightarrow> streamTtl \<le> now \<and> in_int64 now"

definition stream_state :: "('r \<Rightarrow> keyspace) \<Rightarrow> ('r \<Rightarrow> int) \<Rightarrow> 'r \<Rightarrow> int \<times> (string \<rightharpoonup> stream)" where
  "stream_state view clock s = (clock s, streams_of (view s))"

text \<open>What the answer to an \<open>XADD\<close> says: the identifier is new and the entry is there.\<close>

definition entry_added :: "(string \<rightharpoonup> stream) \<Rightarrow> (string \<rightharpoonup> stream) \<Rightarrow> redis_cmd \<Rightarrow> redis_ans \<Rightarrow> bool" where
  "entry_added F F' c a \<longleftrightarrow>
     (\<forall>k mid ap fs i. c = CmdXAdd k mid ap fs \<longrightarrow> a = AnsString (Inr (sid_str i)) \<longrightarrow>
        (\<forall>x \<in> set (fst (contents (F k))). fst x < i) \<and> (i, fs) \<in> set (fst (contents (F' k))))"

definition logs :: "'r redis_client \<Rightarrow> ('r \<Rightarrow> keyspace) \<Rightarrow> ('r \<Rightarrow> int) \<Rightarrow> ('r \<Rightarrow> bool) \<Rightarrow> append set \<Rightarrow> redis_cmd \<Rightarrow> bool" where
  "logs R view clock up ws c \<longleftrightarrow>
     (\<forall>s. up s \<longrightarrow> stream_step ws (stream_state view clock s) (stream_state view clock (snd (exec_cmd R c s))) \<and>
        entry_added (streams_of (view s)) (streams_of (view (snd (exec_cmd R c s)))) c (fst (exec_cmd R c s)))"

definition appends :: "AnyRequest \<Rightarrow> int \<Rightarrow> append set" where
  "appends req now = (case AnyMsg req of MCreateStreamValue m \<Rightarrow> {(csv_Parent m, csv_Value m, now)} | _ \<Rightarrow> {})"

context redis_contract
begin

lemma logs_quiet:
  assumes "\<And>s. up s \<Longrightarrow> clock (snd (exec_cmd R c s)) = clock s"
    and "\<And>s. up s \<Longrightarrow> streams_of (view (snd (exec_cmd R c s))) = streams_of (view s)"
    and "\<And>k m ap fs. c \<noteq> CmdXAdd k m ap fs"
  shows "logs R view clock up ws c"
  unfolding logs_def stream_state_def entry_added_def using assms by (simp add: stream_same)

lemma logs_other:
  assumes "\<not> HasPrefix k ''accounts/''"
    and "\<And>s. up s \<Longrightarrow> clock (snd (exec_cmd R c s)) = clock s"
    and "\<And>s k'. up s \<Longrightarrow> k' \<noteq> k \<Longrightarrow> view (snd (exec_cmd R c s)) k' = view s k'"
    and "\<And>k m ap fs. c \<noteq> CmdXAdd k m ap fs"
  shows "logs R view clock up ws c"
  by (rule logs_quiet [OF assms(2) _ assms(4)], assumption, rule streams_of_other [OF assms(1)], rule assms(3))

lemma logs_read:
  assumes "\<And>s. up s \<Longrightarrow> clock (snd (exec_cmd R c s)) = clock s \<and> view (snd (exec_cmd R c s)) = view s"
    and "\<And>k m ap fs. c \<noteq> CmdXAdd k m ap fs"
  shows "logs R view clock up ws c"
  by (rule logs_quiet) (simp_all add: assms)

text \<open>The append: the stream grows by the entry whose identifier is the answer.\<close>

lemma xadd_streams:
  fixes fs :: "(string \<times> bytes) list"
  assumes u: "up s" and a: "HasPrefix k ''accounts/''" and now: "timely now"
  defines "r \<equiv> rXAdd R k (min_entry_id now) True fs s"
  shows "(\<exists>i es e n. fst r = Inr (sid_str i) \<and> contents (streams_of (view s) k) = (es, e) \<and> (\<forall>x \<in> set es. fst x < i) \<and>
      (\<forall>x \<in> set (take n es). fst x < oldest_kept now) \<and>
      streams_of (view (snd r)) = (streams_of (view s))(k \<mapsto> (drop n es @ [(i, fs)], e))) \<or>
    (\<exists>m. fst r = Inl m) \<and> view (snd r) = view s"
proof (cases "\<exists>x d. view s k = Some (x, d) \<and> (\<nexists>es. x = RStream es)")
  case True
  then show ?thesis using xadd_wrongtype [OF u, of k] unfolding r_def by blast
next
  case False
  obtain es e where c: "contents (streams_of (view s) k) = (es, e)" by fastforce
  note m = min_entry_id_sid [OF now [unfolded timely_def, THEN conjunct1] now [unfolded timely_def, THEN conjunct2]]
  obtain i n where "fst r = Inr (sid_str i)" "\<forall>x \<in> set es. fst x < i" "\<forall>x \<in> set (take n es). fst x < oldest_kept now"
      "view (snd r) = (view s)(k \<mapsto> (RStream (drop n es @ [(i, fs)]), e))"
    using xadd_stream [OF u contents_streams [OF c a False], of "oldest_kept now" True fs] unfolding r_def m by blast
  then show ?thesis
    using c streams_of_update [OF a] by (intro disjI1 exI [of _ i] exI [of _ es] exI [of _ e] exI [of _ n]) simp
qed

lemma logs_append:
  assumes a: "HasPrefix k ''accounts/''" and now: "timely now" and w: "(k, v, now) \<in> ws"
  shows "logs R view clock up ws (CmdXAdd k (min_entry_id now) True [(''value'', v)])"
  unfolding logs_def stream_state_def
proof (intro allI impI)
  fix s assume u: "up s"
  let ?r = "rXAdd R k (min_entry_id now) True [(''value'', v)] s"
  have c: "clock (snd ?r) = clock s" using xadd_healthy [OF u] by blast
  from xadd_streams [OF u a now, of "[(''value'', v)]"]
  show "stream_step ws (clock s, streams_of (view s)) (clock (snd (exec_cmd R (CmdXAdd k (min_entry_id now) True [(''value'', v)]) s)),
      streams_of (view (snd (exec_cmd R (CmdXAdd k (min_entry_id now) True [(''value'', v)]) s)))) \<and>
    entry_added (streams_of (view s)) (streams_of (view (snd (exec_cmd R (CmdXAdd k (min_entry_id now) True [(''value'', v)]) s))))
      (CmdXAdd k (min_entry_id now) True [(''value'', v)]) (fst (exec_cmd R (CmdXAdd k (min_entry_id now) True [(''value'', v)]) s))"
  proof (elim disjE exE conjE)
    fix i es e n
    assume r: "fst ?r = Inr (sid_str i)" and e: "contents (streams_of (view s) k) = (es, e)" "\<forall>x \<in> set es. fst x < i"
      "\<forall>x \<in> set (take n es). fst x < oldest_kept now"
      and f: "streams_of (view (snd ?r)) = (streams_of (view s))(k \<mapsto> (drop n es @ [(i, [(''value'', v)])], e))"
    from stream_append [where F = "streams_of (view s)", OF w e] r e(1,2) show ?thesis by (simp add: f c entry_added_def del: append_assoc)
  next
    fix m assume "fst ?r = Inl m" "view (snd ?r) = view s"
    then show ?thesis by (simp add: c stream_same entry_added_def del: append_assoc)
  qed
qed

lemma logs_refresh:
  assumes a: "HasPrefix k ''accounts/''" and w: "(k, v, now) \<in> ws"
  shows "logs R view clock up ws (CmdExpire k streamTtl)"
proof -
  have "stream_step ws (clock s, streams_of (view s)) (clock (snd (rExpire R k streamTtl s)), streams_of (view (snd (rExpire R k streamTtl s))))"
    if u: "up s" for s
  proof -
    note x = expire_some [OF u, of k _ _ streamTtl, unfolded expire_secs_stream, simplified]
    have c: "clock (snd (rExpire R k streamTtl s)) = clock s" using u by simp
    show ?thesis
    proof (cases "view s k")
      case None
      with expire_none [OF u None, of streamTtl] show ?thesis by (simp add: c stream_same)
    next
      case (Some p)
      obtain y e where p: "p = (y, e)" by (cases p)
      with Some x have v: "view (snd (rExpire R k streamTtl s)) = (view s)(k \<mapsto> (y, Some (clock s + stream_lifetime)))"
        by (simp add: stream_lifetime_def)
      show ?thesis
      proof (cases "\<exists>es. y = RStream es")
        case True
        then obtain es where y: "y = RStream es" by blast
        have "streams_of (view s) k = Some (es, e)" using Some p y a by (simp add: streams_of_Some)
        from stream_refresh [where F = "streams_of (view s)", OF w this] v y show ?thesis by (simp add: c streams_of_update [OF a])
      next
        case False
        then have "streams_of (view (snd (rExpire R k streamTtl s))) = streams_of (view s)"
          using Some p v by (intro ext) (auto simp: streams_of_def split: rval.splits)
        then show ?thesis by (simp add: c stream_same)
      qed
    qed
  qed
  then show ?thesis by (simp add: logs_def stream_state_def entry_added_def)
qed

lemma log_policy: "command_policy (logs R view clock up ws) L"
proof unfold_locales
  show "logs R view clock up ws (CmdGet k)" "logs R view clock up ws (CmdMemoryUsage k)" "logs R view clock up ws (CmdTTL k)"
    "logs R view clock up ws (CmdXRangeN k st en n)" "logs R view clock up ws (CmdHScan k n)"
    "logs R view clock up ws (CmdZRangeWithScores k i j)" for k st en n i j
    by (rule logs_read; simp)+
  note key_defs = value_key_def vsvc_cid_key_def vsvc_detail_key_def vsvc_instance_key_def instance_key_def cid_vsvc_key_def
  show "logs R view clock up ws (CmdSet (value_key c) (cv_Value m) d)" for c m d
    by (rule logs_other [of "value_key c"]) (simp_all add: frames key_defs)
  show "logs R view clock up ws (CmdHSet (vsvc_cid_key h) fvs)" for h fvs
    by (rule logs_other [of "vsvc_cid_key h"]) (simp_all add: frames key_defs)
  show "logs R view clock up ws (CmdExpire (vsvc_cid_key h) d)" for h d
    by (rule logs_other [of "vsvc_cid_key h"]) (simp_all add: expire_frame key_defs)
  show "logs R view clock up ws (CmdSet (vsvc_detail_key h) v d)" for h v d
    by (rule logs_other [of "vsvc_detail_key h"]) (simp_all add: frames key_defs)
  show "logs R view clock up ws (CmdZAddGT (vsvc_instance_key h) sc x)" for h sc x
    by (rule logs_other [of "vsvc_instance_key h"]) (simp_all add: frames key_defs)
  show "logs R view clock up ws (CmdExpire (vsvc_instance_key h) d)" for h d
    by (rule logs_other [of "vsvc_instance_key h"]) (simp_all add: expire_frame key_defs)
  show "logs R view clock up ws (CmdSet (instance_key h) v d)" for h v d
    by (rule logs_other [of "instance_key h"]) (simp_all add: frames key_defs)
  show "logs R view clock up ws (CmdHSet (cid_vsvc_key c) fvs)" for c fvs
    by (rule logs_other [of "cid_vsvc_key c"]) (simp_all add: frames key_defs)
  show "logs R view clock up ws (CmdHExpire (cid_vsvc_key c) d f)" for c d f
    by (rule logs_other [of "cid_vsvc_key c"]) (simp_all add: frames key_defs)
qed

end

subsection \<open>Every command of the service\<close>

context service_world
begin

lemma logs_charge:
  assumes "0 < p" and "in_int64 p"
  shows "logs (wR W) view clock up ws (CmdDecrBy (session_key i) p)"
proof -
  have "in_int64 (- p)" using assms by (simp add: in_int64_def int64_min_def int64_max_def)
  then show ?thesis by (intro logs_other [of "session_key i"]) (simp_all add: decr_frame session_key_def)
qed

lemma logs_create: "logs (wR W) view clock up ws (CmdSetNXGet (session_key i) v)"
  by (rule logs_other [of "session_key i"]) (simp_all add: setnx_frame session_key_def)

lemma svc_logs:
  assumes n: "well_named (AnyMsg req)" and now: "timely now"
  shows "follows (logs (wR W) view clock up (appends req now)) (wR W) (svc W srv uuid now cs req) (svc (replay_world W) srv uuid now cs req)"
proof (cases "\<exists>m. AnyMsg req = MCreateSession m")
  case True
  then show ?thesis
    by (auto simp: svc_def [abs_def] intro!: command_policy.follows_lift [OF log_policy] follows_CreateSession follows_create logs_create)
next
  case False
  then have "AnyMsg req \<noteq> MCreateSession m" for m by blast
  then show ?thesis
  proof (rule command_policy.follows_svc [OF log_policy refl refl])
    fix m assume "AnyMsg req = MCreateStreamValue m"
    with n have "HasPrefix (csv_Parent m) ''accounts/''" "(csv_Parent m, csv_Value m, now) \<in> appends req now" by (simp_all add: appends_def)
    with now show "logs (wR W) view clock up (appends req now) (CmdXAdd (csv_Parent m) (min_entry_id now) True [(''value'', csv_Value m)])"
        "logs (wR W) view clock up (appends req now) (CmdExpire (csv_Parent m) streamTtl)"
      by (blast intro: logs_append logs_refresh)+
  next
    fix m d assume "AnyMsg req = MProlongValue m"
    with n show "logs (wR W) view clock up (appends req now) (CmdExpire (pv_Name m) d)"
      by (intro logs_other [of "pv_Name m"]) (auto simp: expire_frame HasPrefix_iff)
  next
    show "logs (wR W) view clock up (appends req now) (CmdXRead [k] i 1 0)" for k i by (rule logs_read) simp_all
  qed
qed

lemma serve_logs:
  assumes "well_named (AnyMsg req)" and "timely now"
  shows "follows (logs (wR W) view clock up (appends req now)) (wR W) (serve W srv uuid now req) (serve (replay_world W) srv uuid now req)"
  unfolding serve_plan [abs_def] replay_plan replay_world_simps
  by (intro follows_rules follows_validated svc_logs [OF assms] follows_deduct logs_charge) (auto dest: plan_ok)

lemma next_logs:
  assumes "well_named (AnyMsg (p_req p))" and "timely (p_now p)" and "next_command W srv p = Some c"
  shows "logs (wR W) view clock up (appends (p_req p) (p_now p)) c"
  using follows_next [OF serve_logs [OF assms(1,2)]] assms(3) by (simp add: next_command_def replayed_def)

end

subsection \<open>The log of a system\<close>

definition all_appends :: "'r system \<Rightarrow> append set" where
  "all_appends sy = (\<Union>p \<in> set (sy_procs sy). appends (p_req p) (p_now p))"

text \<open>The appends of the requests that are not answered yet.\<close>

definition in_flight :: "'r world \<Rightarrow> Server \<Rightarrow> 'r system \<Rightarrow> append set" where
  "in_flight W srv sy = (\<Union>p \<in> {p \<in> set (sy_procs sy). answer W srv p = None}. appends (p_req p) (p_now p))"

definition on_time :: "'r system \<Rightarrow> bool" where
  "on_time sy \<longleftrightarrow> (\<forall>p \<in> set (sy_procs sy). timely (p_now p))"

lemma in_flight_appends: "in_flight W srv sy \<subseteq> all_appends sy"
  by (auto simp: in_flight_def all_appends_def)

lemma all_appends_request:
  "(k, v, now) \<in> all_appends sy \<Longrightarrow> \<exists>p \<in> set (sy_procs sy). \<exists>m. AnyMsg (p_req p) = MCreateStreamValue m \<and> csv_Parent m = k \<and> csv_Value m = v"
  unfolding all_appends_def appends_def by (elim UN_E) (auto split: message.split_asm)

lemma in_flight_now: "(k, v, now) \<in> in_flight W srv sy \<Longrightarrow> \<exists>q \<in> set (sy_procs sy). p_now q = now"
  unfolding in_flight_def appends_def by (elim UN_E) (auto split: message.split_asm)

text \<open>Requests come and stay, and only their answers change.\<close>

lemma system_step_procs:
  assumes "system_step W srv view clock up sy sy'" and "p \<in> set (sy_procs sy)"
  shows "\<exists>q \<in> set (sy_procs sy'). p_req q = p_req p \<and> p_now q = p_now p"
  using assms
proof cases
  case step_command
  then show ?thesis
  proof cases
    case (command_stepI i c)
    obtain j where j: "j < length (sy_procs sy)" "p = sy_procs sy ! j" using assms(2) by (metis in_set_conv_nth)
    show ?thesis
    proof (cases "j = i")
      case True
      with j command_stepI show ?thesis
        by (intro bexI [of _ "p\<lparr>p_answers := p_answers p @ [fst (exec_cmd (wR W) c (sy_store sy))]\<rparr>"]) (auto intro: set_update_memI)
    next
      case False
      with j command_stepI have "sy_procs sy' ! j = p" "j < length (sy_procs sy')" by simp_all
      then have "p \<in> set (sy_procs sy')" using nth_mem by metis
      then show ?thesis by blast
    qed
  qed
qed auto

lemma system_step_on_time: "system_step W srv view clock up sy sy' \<Longrightarrow> on_time sy' \<Longrightarrow> on_time sy"
  unfolding on_time_def using system_step_procs by metis

lemma system_step_appends: "system_step W srv view clock up sy sy' \<Longrightarrow> all_appends sy \<subseteq> all_appends sy'"
proof
  fix x assume s: "system_step W srv view clock up sy sy'" and "x \<in> all_appends sy"
  then obtain p where "p \<in> set (sy_procs sy)" "x \<in> appends (p_req p) (p_now p)" by (auto simp: all_appends_def)
  with system_step_procs [OF s] show "x \<in> all_appends sy'" unfolding all_appends_def by (metis UN_I)
qed

text \<open>The order, the origin and the life of the entries in a system.\<close>

definition streams_kept :: "('r \<Rightarrow> keyspace) \<Rightarrow> ('r \<Rightarrow> int) \<Rightarrow> 'r \<Rightarrow> 'r system \<Rightarrow> bool" where
  "streams_kept view clock s sy \<longleftrightarrow>
     log_ordered (streams_of (view (sy_store sy))) \<and>
     log_from (all_appends sy) (streams_of (view s)) (streams_of (view (sy_store sy))) \<and>
     (\<forall>d \<le> clock s + stream_lifetime. lasting d (streams_of (view s)) \<longrightarrow> lasting d (streams_of (view (sy_store sy)))) \<and>
     clock s \<le> clock (sy_store sy)"

context service_world
begin

lemma command_streams:
  assumes i: "system_inv W srv view up j l sy" and o: "on_time sy"
    and k: "k < length (sy_procs sy)" and c: "next_command W srv (sy_procs sy ! k) = Some c"
  shows "stream_step (in_flight W srv sy) (stream_state view clock (sy_store sy)) (stream_state view clock (snd (exec_cmd (wR W) c (sy_store sy))))"
    and "entry_added (streams_of (view (sy_store sy))) (streams_of (view (snd (exec_cmd (wR W) c (sy_store sy))))) c
      (fst (exec_cmd (wR W) c (sy_store sy)))"
proof -
  let ?p = "sy_procs sy ! k"
  have u: "up (sy_store sy)" using i by (simp add: system_inv_def service_inv_def sessions_wf_def)
  have p: "?p \<in> set (sy_procs sy)" using k by simp
  then have "well_named (AnyMsg (p_req ?p))" "timely (p_now ?p)"
    using i o by (auto simp: system_inv_def list_all_iff on_time_def)
  note l = next_logs [OF this c, unfolded logs_def, rule_format, OF u]
  have "appends (p_req ?p) (p_now ?p) \<subseteq> in_flight W srv sy" using p c by (auto simp: in_flight_def answer_def)
  with l stream_step_mono show "stream_step (in_flight W srv sy) (stream_state view clock (sy_store sy)) (stream_state view clock (snd (exec_cmd (wR W) c (sy_store sy))))"
    by blast
  from l show "entry_added (streams_of (view (sy_store sy))) (streams_of (view (snd (exec_cmd (wR W) c (sy_store sy))))) c
      (fst (exec_cmd (wR W) c (sy_store sy)))" by blast
qed

lemma system_step_streams:
  assumes i: "system_inv W srv view up j l sy" and o: "on_time sy" and s: "system_step W srv view clock up sy sy'"
  shows "stream_step (in_flight W srv sy) (stream_state view clock (sy_store sy)) (stream_state view clock (sy_store sy'))"
  using s
proof cases
  case (step_arrive req uuid now)
  then show ?thesis by (simp add: stream_state_def stream_same)
next
  case step_command
  then show ?thesis using command_streams(1) [OF i o] by (auto elim: command_step.cases)
next
  case (step_time s')
  then show ?thesis by (simp add: elapse_def stream_state_def streams_of_purge stream_time)
qed

lemma streams_kept_reachable:
  assumes "(system_step W srv view clock up)\<^sup>*\<^sup>* (idle s) sy" and i: "service_inv (wL W) view up s"
    and o: "log_ordered (streams_of (view s))"
  shows "all_named sy \<Longrightarrow> on_time sy \<Longrightarrow> streams_kept view clock s sy"
  using assms(1)
proof (induction rule: rtranclp_induct)
  case base
  with o show ?case by (simp add: streams_kept_def idle_def log_from_def)
next
  case (step sy sy')
  have n: "all_named sy" using system_step_named step.hyps(2) step.prems(1) .
  have t: "on_time sy" using system_step_on_time step.hyps(2) step.prems(2) .
  note v = step.IH [OF n t, unfolded streams_kept_def]
  note m = system_step_streams [OF system_inv_reachable [OF step.hyps(1) i n] t step.hyps(2)]
  have a: "log_from (all_appends sy') (streams_of (view s)) (streams_of (view (sy_store sy)))"
    using v system_step_appends [OF step.hyps(2)] unfolding log_from_def by blast
  have w: "in_flight W srv sy \<subseteq> all_appends sy'"
    using in_flight_appends system_step_appends [OF step.hyps(2)] by blast
  from v a stream_step_ordered [OF m] stream_step_from [OF m w] stream_step_lasting [OF m] stream_step_time [OF m]
  show ?case by (simp add: streams_kept_def stream_state_def)
qed

end

end
