(* ===== verification/Stream_Writers.thy ===== *)
theory Stream_Writers
  imports Stream_Log
begin

section \<open>Many writers of one stream\<close>

text \<open>
  What the writers and the readers of a stream can rely on when requests interleave: an append that was acknowledged stays, in an
  entry that no other append shares, until its age or the end of the stream's life removes it, and the owner who pages
  through the stream is given it. An append is a request's \<open>XADD\<close>, acknowledged when the request has its answer (\<open>wrote\<close>).
\<close>

subsection \<open>Acknowledged appends\<close>

text \<open>The entries a request knows it has written: the answers to its \<open>XADD\<close>.\<close>

definition wrote :: "'r world \<Rightarrow> Server \<Rightarrow> process \<Rightarrow> string \<Rightarrow> sid \<Rightarrow> (string \<times> bytes) list \<Rightarrow> bool" where
  "wrote W srv p k i fs \<longleftrightarrow>
     (\<exists>n < length (p_answers p). \<exists>mid ap. next_command W srv (p\<lparr>p_answers := take n (p_answers p)\<rparr>) = Some (CmdXAdd k mid ap fs) \<and>
        p_answers p ! n = AnsString (Inr (sid_str i)))"

lemma wrote_append:
  "wrote W srv (p\<lparr>p_answers := p_answers p @ [a]\<rparr>) k i fs \<longleftrightarrow>
     wrote W srv p k i fs \<or> (\<exists>mid ap. next_command W srv p = Some (CmdXAdd k mid ap fs)) \<and> a = AnsString (Inr (sid_str i))"
  by (auto simp: wrote_def less_Suc_eq nth_append)

text \<open>An entry may be gone when the time \<open>d\<close> has come or when it is too old for one of the requests.\<close>

definition may_be_lost :: "int \<Rightarrow> int \<Rightarrow> 'r system \<Rightarrow> sid \<Rightarrow> bool" where
  "may_be_lost d t sy i \<longleftrightarrow> d \<le> t \<or> (\<exists>q \<in> set (sy_procs sy). i < oldest_kept (p_now q))"

definition acknowledged_kept :: "'r world \<Rightarrow> Server \<Rightarrow> int \<Rightarrow> int \<Rightarrow> (string \<rightharpoonup> stream) \<Rightarrow> 'r system \<Rightarrow> bool" where
  "acknowledged_kept W srv d t F sy \<longleftrightarrow>
     (\<forall>p \<in> set (sy_procs sy). \<forall>k i fs. wrote W srv p k i fs \<longrightarrow> may_be_lost d t sy i \<or> entry_in F k (i, fs))"

text \<open>No two requests have written the same entry.\<close>

definition acknowledged_once :: "'r world \<Rightarrow> Server \<Rightarrow> int \<Rightarrow> int \<Rightarrow> 'r system \<Rightarrow> bool" where
  "acknowledged_once W srv d t sy \<longleftrightarrow>
     (\<forall>a < length (sy_procs sy). \<forall>b < length (sy_procs sy). \<forall>k i fs fs'.
        a \<noteq> b \<longrightarrow> wrote W srv (sy_procs sy ! a) k i fs \<longrightarrow> wrote W srv (sy_procs sy ! b) k i fs' \<longrightarrow> may_be_lost d t sy i)"

lemma may_be_lost_step:
  assumes "system_step W srv view clock up sy sy'" and "t \<le> t'" and "may_be_lost d t sy i"
  shows "may_be_lost d t' sy' i"
  using assms(2,3) system_step_procs [OF assms(1)] unfolding may_be_lost_def by (metis order_trans)

lemma wrote_nothing: "p_answers p = [] \<Longrightarrow> \<not> wrote W srv p k i fs"
  by (simp add: wrote_def)

context service_world
begin

lemma entry_stays:
  assumes i: "system_inv W srv view up j l sy" and o: "on_time sy" and s: "system_step W srv view clock up sy sy'"
    and d: "lasting d (streams_of (view (sy_store sy)))"
    and e: "may_be_lost d (clock (sy_store sy)) sy x \<or> entry_in (streams_of (view (sy_store sy))) k (x, fs)"
  shows "may_be_lost d (clock (sy_store sy')) sy' x \<or> entry_in (streams_of (view (sy_store sy'))) k (x, fs)"
proof (cases "may_be_lost d (clock (sy_store sy')) sy' x \<or> may_be_lost d (clock (sy_store sy)) sy x")
  case True
  note m = system_step_streams [OF i o s, unfolded stream_state_def]
  have "clock (sy_store sy) \<le> clock (sy_store sy')" using stream_step_time [OF m] by simp
  from True may_be_lost_step [OF s this, of d x] show ?thesis by blast
next
  case False
  note m = system_step_streams [OF i o s, unfolded stream_state_def]
  have "oldest_kept now \<le> x" if w: "(k, v, now) \<in> in_flight W srv sy" for k v now
  proof -
    obtain q where "q \<in> set (sy_procs sy)" "p_now q = now" using in_flight_now [OF w] by blast
    with False show ?thesis unfolding may_be_lost_def not_less [symmetric] by blast
  qed
  then have "\<forall>(k, v, now) \<in> in_flight W srv sy. oldest_kept now \<le> fst (x, fs)" by (simp only: fst_conv) blast
  with stream_step_keeps [OF m, of k "(x, fs)" d] e False d show ?thesis by (simp add: may_be_lost_def)
qed

text \<open>A command step writes at most one entry more, with an identifier that no entry of the stream has had.\<close>

lemma command_length: "command_step W srv sy sy' \<Longrightarrow> length (sy_procs sy') = length (sy_procs sy)"
  by (auto elim: command_step.cases)

lemma command_wrote:
  assumes i: "system_inv W srv view up j l sy" and o: "on_time sy" and s: "command_step W srv sy sy'"
  shows "\<exists>n. \<forall>x < length (sy_procs sy). \<forall>k e fs. wrote W srv (sy_procs sy' ! x) k e fs \<longrightarrow>
      wrote W srv (sy_procs sy ! x) k e fs \<or>
      x = n \<and> (\<forall>z \<in> set (fst (contents (streams_of (view (sy_store sy)) k))). fst z < e) \<and> entry_in (streams_of (view (sy_store sy'))) k (e, fs)"
  using s
proof cases
  case (command_stepI n c)
  let ?F = "streams_of (view (sy_store sy))" and ?F' = "streams_of (view (sy_store sy'))"
  let ?p = "sy_procs sy ! n" and ?a = "fst (exec_cmd (wR W) c (sy_store sy))"
  let ?q = "?p\<lparr>p_answers := p_answers ?p @ [?a]\<rparr>"
  have ps: "sy_procs sy' = (sy_procs sy)[n := ?q]" using command_stepI(1) by simp
  have "(\<forall>x \<in> set (fst (contents (?F k))). fst x < e) \<and> entry_in ?F' k (e, fs)"
    if "c = CmdXAdd k mid ap fs" "?a = AnsString (Inr (sid_str e))" for k mid ap fs e
    using command_streams(2) [OF i o command_stepI(2,3), unfolded entry_added_def, rule_format, OF that] command_stepI(1)
    by (simp add: entry_in_def)
  then have "wrote W srv ?q k e fs \<Longrightarrow> wrote W srv ?p k e fs \<or>
      (\<forall>x \<in> set (fst (contents (?F k))). fst x < e) \<and> entry_in ?F' k (e, fs)" for k e fs
    using command_stepI(3) unfolding wrote_append by (metis option.inject)
  then show ?thesis by (intro exI [of _ n] allI impI) (metis ps nth_list_update_eq nth_list_update_neq)
qed

lemma kept_command:
  assumes i: "system_inv W srv view up j l sy" and o: "on_time sy" and s: "command_step W srv sy sy'"
    and d: "lasting d (streams_of (view (sy_store sy)))"
    and kept: "acknowledged_kept W srv d (clock (sy_store sy)) (streams_of (view (sy_store sy))) sy"
  shows "acknowledged_kept W srv d (clock (sy_store sy')) (streams_of (view (sy_store sy'))) sy'"
  unfolding acknowledged_kept_def
proof (intro ballI allI impI)
  fix q k e fs assume q: "q \<in> set (sy_procs sy')" and we: "wrote W srv q k e fs"
  let ?F = "streams_of (view (sy_store sy))" and ?F' = "streams_of (view (sy_store sy'))"
  obtain x where x: "x < length (sy_procs sy)" "q = sy_procs sy' ! x"
    using q command_length [OF s] by (metis in_set_conv_nth)
  then have "wrote W srv (sy_procs sy ! x) k e fs \<or> entry_in ?F' k (e, fs)" using command_wrote [OF i o s] we by blast
  moreover have "may_be_lost d (clock (sy_store sy)) sy e \<or> entry_in ?F k (e, fs)" if "wrote W srv (sy_procs sy ! x) k e fs"
    using kept that nth_mem [OF x(1)] unfolding acknowledged_kept_def by blast
  ultimately show "may_be_lost d (clock (sy_store sy')) sy' e \<or> entry_in ?F' k (e, fs)"
    using entry_stays [OF i o step_command [OF s] d] by blast
qed

lemma once_command:
  assumes i: "system_inv W srv view up j l sy" and o: "on_time sy" and s: "command_step W srv sy sy'"
    and kept: "acknowledged_kept W srv d (clock (sy_store sy)) (streams_of (view (sy_store sy))) sy"
    and once: "acknowledged_once W srv d (clock (sy_store sy)) sy"
  shows "acknowledged_once W srv d (clock (sy_store sy')) sy'"
  unfolding acknowledged_once_def command_length [OF s]
proof (intro allI impI)
  fix a b k e fs fs'
  assume ab: "a < length (sy_procs sy)" "b < length (sy_procs sy)" "a \<noteq> b"
    and w: "wrote W srv (sy_procs sy' ! a) k e fs" "wrote W srv (sy_procs sy' ! b) k e fs'"
  let ?F = "streams_of (view (sy_store sy))"
  note y = step_command [of W srv sy sy' view clock up, OF s]
  obtain n where n: "wrote W srv (sy_procs sy ! x) k e fs \<or> x = n \<and> (\<forall>z \<in> set (fst (contents (?F k))). fst z < e)"
    if "x < length (sy_procs sy)" "wrote W srv (sy_procs sy' ! x) k e fs" for x fs
    using command_wrote [OF i o s] by blast
  have clash: "may_be_lost d (clock (sy_store sy)) sy e"
    if "x < length (sy_procs sy)" "wrote W srv (sy_procs sy ! x) k e fs" "\<forall>z \<in> set (fst (contents (?F k))). fst z < e" for x fs
    using kept that nth_mem [OF that(1)] unfolding acknowledged_kept_def entry_in_def by fastforce
  have "may_be_lost d (clock (sy_store sy)) sy e"
    using n [OF ab(1) w(1)] n [OF ab(2) w(2)] clash ab once unfolding acknowledged_once_def by metis
  moreover have "clock (sy_store sy) \<le> clock (sy_store sy')"
    using stream_step_time [OF system_step_streams [OF i o y]] by (simp add: stream_state_def)
  ultimately show "may_be_lost d (clock (sy_store sy')) sy' e" using may_be_lost_step [OF y] by blast
qed

lemma acknowledged_command:
  assumes "system_inv W srv view up j l sy" and "on_time sy" and "command_step W srv sy sy'"
    and "lasting d (streams_of (view (sy_store sy)))"
    and "acknowledged_kept W srv d (clock (sy_store sy)) (streams_of (view (sy_store sy))) sy"
    and "acknowledged_once W srv d (clock (sy_store sy)) sy"
  shows "acknowledged_kept W srv d (clock (sy_store sy')) (streams_of (view (sy_store sy'))) sy' \<and>
    acknowledged_once W srv d (clock (sy_store sy')) sy'"
  using kept_command [OF assms(1-5)] once_command [OF assms(1-3,5,6)] ..

lemma acknowledged_step:
  assumes i: "system_inv W srv view up j l sy" and o: "on_time sy" and s: "system_step W srv view clock up sy sy'"
    and d: "lasting d (streams_of (view (sy_store sy)))"
    and kept: "acknowledged_kept W srv d (clock (sy_store sy)) (streams_of (view (sy_store sy))) sy"
    and once: "acknowledged_once W srv d (clock (sy_store sy)) sy"
  shows "acknowledged_kept W srv d (clock (sy_store sy')) (streams_of (view (sy_store sy'))) sy' \<and>
    acknowledged_once W srv d (clock (sy_store sy')) sy'"
proof -
  have t: "clock (sy_store sy) \<le> clock (sy_store sy')"
    using stream_step_time [OF system_step_streams [OF i o s]] by (simp add: stream_state_def)
  note lost = may_be_lost_step [OF s t] and stays = entry_stays [OF i o s d]
  show ?thesis
    using s
  proof cases
    case (step_arrive uuid now req)
    let ?p = "\<lparr>p_uuid = uuid, p_now = now, p_req = req, p_answers = []\<rparr>"
    have ps: "sy_procs sy' = sy_procs sy @ [?p]" and n: "\<not> wrote W srv ?p k e fs" for k e fs
      using step_arrive(1) by (simp_all add: wrote_nothing)
    from kept stays n have "acknowledged_kept W srv d (clock (sy_store sy')) (streams_of (view (sy_store sy'))) sy'"
      by (auto simp: acknowledged_kept_def ps)
    moreover from once lost n have "acknowledged_once W srv d (clock (sy_store sy')) sy'"
      by (auto simp: acknowledged_once_def ps nth_append less_Suc_eq)
    ultimately show ?thesis ..
  next
    case step_command
    from acknowledged_command [OF i o this d kept once] show ?thesis .
  next
    case (step_time s')
    then have ps: "sy_procs sy' = sy_procs sy" by simp
    from kept stays once lost show ?thesis unfolding acknowledged_kept_def acknowledged_once_def ps by blast
  qed
qed

lemma acknowledged_reachable:
  assumes "(system_step W srv view clock up)\<^sup>*\<^sup>* (idle s) sy" and i: "service_inv (wL W) view up s"
    and o: "log_ordered (streams_of (view s))" and d: "lasting d (streams_of (view s))" "d \<le> clock s + stream_lifetime"
  shows "all_named sy \<Longrightarrow> on_time sy \<Longrightarrow> acknowledged_kept W srv d (clock (sy_store sy)) (streams_of (view (sy_store sy))) sy \<and>
    acknowledged_once W srv d (clock (sy_store sy)) sy"
  using assms(1)
proof (induction rule: rtranclp_induct)
  case base
  then show ?case by (simp add: idle_def acknowledged_kept_def acknowledged_once_def)
next
  case (step sy sy')
  have n: "all_named sy" using system_step_named step.hyps(2) step.prems(1) .
  have t: "on_time sy" using system_step_on_time step.hyps(2) step.prems(2) .
  have "lasting d (streams_of (view (sy_store sy)))"
    using streams_kept_reachable [OF step.hyps(1) i o n t] d by (simp add: streams_kept_def)
  from acknowledged_step [OF system_inv_reachable [OF step.hyps(1) i n] t step.hyps(2) this] step.IH [OF n t] show ?case by blast
qed

end

text \<open>A \<open>CreateStreamValue\<close> that is answered has had the answer to its \<open>XADD\<close>, and names the entry after it.\<close>

lemma CreateStreamValue_replay:
  assumes "fst (CreateStreamValue L replay_client now m (as, None)) = Ok resp"
  obtains eid bs where "as = AnsString (Inr eid) # bs" and "csvr_Name resp = csv_Parent m @ ''/values/'' @ eid"
    and "snd (snd (CreateStreamValue L replay_client now m ([], None))) =
      Some (CmdXAdd (csv_Parent m) (min_entry_id now) True [(''value'', csv_Value m)])"
proof -
  obtain a bs where as: "as = a # bs"
    using assms by (cases as) (auto simp: CreateStreamValue_def replay_client_def Let_def)
  obtain eid where a: "a = AnsString (Inr eid)"
    using assms by (auto simp: CreateStreamValue_def replay_client_def Let_def as elim: ans_string.elims split: sum.splits)
  show thesis
  proof (rule that)
    show "as = AnsString (Inr eid) # bs" by (simp add: as a)
    show "csvr_Name resp = csv_Parent m @ ''/values/'' @ eid"
      using assms by (auto simp: CreateStreamValue_def replay_client_def Let_def as a case_prod_beta split: sum.splits)
    show "snd (snd (CreateStreamValue L replay_client now m ([], None))) =
        Some (CmdXAdd (csv_Parent m) (min_entry_id now) True [(''value'', csv_Value m)])"
      by (simp add: CreateStreamValue_def replay_client_def Let_def)
  qed
qed

context service_world
begin

lemma answered_append:
  assumes g: "genuine_answers W srv view up p" and m: "AnyMsg (p_req p) = MCreateStreamValue m"
    and w: "well_named (AnyMsg (p_req p))" and now: "timely (p_now p)"
    and r: "answer W srv p = Some (Ok (RCreateStreamValue resp))"
  shows "\<exists>i. csvr_Name resp = csv_Parent m @ ''/values/'' @ sid_str i \<and> wrote W srv p (csv_Parent m) i [(''value'', csv_Value m)]"
proof -
  obtain pre as cs where p: "p_answers p = pre @ as"
      "fst (svc (replay_world W) srv (p_uuid p) (p_now p) cs (p_req p) (as, None)) = Ok (RCreateStreamValue resp)"
      "\<And>bs. next_command W srv (p\<lparr>p_answers := pre @ bs\<rparr>) =
        snd (snd (svc (replay_world W) srv (p_uuid p) (p_now p) cs (p_req p) (bs, None)))"
    using answered_method [OF r, of thesis] by blast
  have "fst (CreateStreamValue (wL W) replay_client (p_now p) m (as, None)) = Ok resp"
    using p(2) m by (auto simp: svc_def lift_resp_map elim!: map_result_OkE)
  from CreateStreamValue_replay [OF this] obtain eid bs where k: "as = AnsString (Inr eid) # bs"
      "csvr_Name resp = csv_Parent m @ ''/values/'' @ eid"
      "snd (snd (CreateStreamValue (wL W) replay_client (p_now p) m ([], None))) =
        Some (CmdXAdd (csv_Parent m) (min_entry_id (p_now p)) True [(''value'', csv_Value m)])" .
  have n: "next_command W srv (p\<lparr>p_answers := pre\<rparr>) =
      Some (CmdXAdd (csv_Parent m) (min_entry_id (p_now p)) True [(''value'', csv_Value m)])"
    using p(3) [of "[]"] m k(3) by (simp add: svc_def lift_resp_map)
  have as: "p_answers p = pre @ AnsString (Inr eid) # bs" using p(1) k(1) by simp
  from answered_command [OF g as n] obtain t where t: "service_inv (wL W) view up t"
      "AnsString (Inr eid) = fst (exec_cmd (wR W) (CmdXAdd (csv_Parent m) (min_entry_id (p_now p)) True [(''value'', csv_Value m)]) t)" .
  have u: "up t" using t(1) by (simp add: service_inv_def sessions_wf_def)
  have h: "HasPrefix (csv_Parent m) ''accounts/''" using w m by simp
  obtain i where i: "eid = sid_str i" using xadd_streams [OF u h now, of "[(''value'', csv_Value m)]"] t(2) by auto
  have "wrote W srv p (csv_Parent m) i [(''value'', csv_Value m)]"
    unfolding wrote_def using as n i by (intro exI [of _ "length pre"] conjI exI [of _ "min_entry_id (p_now p)"] exI [of _ True]) simp_all
  with k(2) i show ?thesis by blast
qed

lemma acknowledged_entry:
  assumes r: "(system_step W srv view clock up)\<^sup>*\<^sup>* (idle s) sy" "service_inv (wL W) view up s" "all_named sy" and t: "on_time sy"
    and p: "p \<in> set (sy_procs sy)" "AnyMsg (p_req p) = MCreateStreamValue m" "answer W srv p = Some (Ok (RCreateStreamValue resp))"
  shows "\<exists>i. csvr_Name resp = csv_Parent m @ ''/values/'' @ sid_str i \<and> wrote W srv p (csv_Parent m) i [(''value'', csv_Value m)]"
proof (rule answered_append [OF _ p(2) _ _ p(3)])
  show "genuine_answers W srv view up p" "timely (p_now p)" "well_named (AnyMsg (p_req p))"
    using genuine_reachable [OF r] r(3) t p(1) by (auto simp: list_all_iff on_time_def all_named_def)
qed

lemma wrote_entry:
  assumes "(system_step W srv view clock up)\<^sup>*\<^sup>* (idle s) sy" and "service_inv (wL W) view up s" and "all_named sy" and "on_time sy"
    and "log_ordered (streams_of (view s))" and "lasting d (streams_of (view s))" and "d \<le> clock s + stream_lifetime"
    and "p \<in> set (sy_procs sy)" and "wrote W srv p k i fs" and "\<not> may_be_lost d (clock (sy_store sy)) sy i"
  shows "\<exists>es e. view (sy_store sy) k = Some (RStream es, e) \<and> (i, fs) \<in> set es"
proof -
  have "entry_in (streams_of (view (sy_store sy))) k (i, fs)"
    using acknowledged_reachable [OF assms(1,2,5-7,3,4)] assms(8-10) unfolding acknowledged_kept_def by blast
  then show ?thesis by (auto simp: entry_in_Some streams_of_Some)
qed

text \<open>The entries of a stream as a reader sees them.\<close>

lemma stream_readable:
  assumes "(system_step W srv view clock up)\<^sup>*\<^sup>* (idle s) sy" and "service_inv (wL W) view up s" and "all_named sy" and "on_time sy"
    and "log_ordered (streams_of (view s))" and "\<And>k x. entry_in (streams_of (view s)) k x \<Longrightarrow> \<exists>v. snd x = [(''value'', v)]"
    and "view (sy_store sy) k = Some (RStream es, e)" and "HasPrefix k ''accounts/''" and "\<And>x. x \<in> set es \<Longrightarrow> sid_int64 (fst x)"
  shows "ids_increase es" and "list_all value_entry es"
proof -
  note v = streams_kept_reachable [OF assms(1,2,5,3,4), unfolded streams_kept_def]
  have k: "streams_of (view (sy_store sy)) k = Some (es, e)" using assms(7,8) by (simp add: streams_of_Some)
  with v show "ids_increase es" unfolding log_ordered_def by (metis contents_simps(2) fst_conv)
  have "\<exists>w. snd x = [(''value'', w)]" if "x \<in> set es" for x
  proof -
    have "entry_in (streams_of (view (sy_store sy))) k x" using that k by (auto simp: entry_in_Some)
    with v assms(6) show ?thesis unfolding log_from_def by blast
  qed
  with assms(9) show "list_all value_entry es" by (auto simp: list_all_iff value_entry_def)
qed

end

subsection \<open>Two writers and a reader\<close>

lemma demo_nested_prefix [simp]: "HasPrefix demo_nested ''accounts/''"
  unfolding demo_nested_def by code_simp

definition demo_append_request :: "bytes \<Rightarrow> AnyRequest" where
  "demo_append_request v = \<lparr>Procedure = CreateStreamValueProcedure, AuthorizationHeader = [],
     AnyMsg = MCreateStreamValue \<lparr>csv_Parent = demo_nested, csv_Value = v\<rparr>\<rparr>"

definition demo_writer :: "bytes \<Rightarrow> redis_ans list \<Rightarrow> process" where
  "demo_writer v as = \<lparr>p_uuid = ''uuid'', p_now = streamTtl, p_req = demo_append_request v, p_answers = as\<rparr>"

lemma demo_writer_simps [simp]:
  "p_now (demo_writer v as) = streamTtl" "p_req (demo_writer v as) = demo_append_request v" "p_answers (demo_writer v as) = as"
  "demo_writer v as\<lparr>p_answers := bs\<rparr> = demo_writer v bs"
  "AnyMsg (demo_append_request v) = MCreateStreamValue \<lparr>csv_Parent = demo_nested, csv_Value = v\<rparr>"
  by (simp_all add: demo_writer_def demo_append_request_def)

lemma demo_writer_replayed:
  "replayed demo_world demo_open_server (demo_writer v as) =
     lift_resp RCreateStreamValue (CreateStreamValue demo_libs replay_client streamTtl
       \<lparr>csv_Parent = demo_nested, csv_Value = v\<rparr> (as, None))"
proof -
  have "routed (demo_append_request v)" "open_door demo_open_server (demo_append_request v)"
    by (simp_all add: routed_def open_door_def procedures_def demo_append_request_def demo_open_server_def)
  then show ?thesis
    by (simp add: replayed_def serve_plan validation_pass svc_def demo_writer_def)
qed

lemma demo_writer_commands:
  "next_command demo_world demo_open_server (demo_writer v []) =
     Some (CmdXAdd demo_nested (min_entry_id streamTtl) True [(''value'', v)])"
  "next_command demo_world demo_open_server (demo_writer v [AnsString (Inr i)]) = Some (CmdExpire demo_nested streamTtl)"
  "answer demo_world demo_open_server (demo_writer v [AnsString (Inr i), AnsBool (Inr b)]) =
     Some (Ok (RCreateStreamValue \<lparr>csvr_Name = demo_nested @ ''/values/'' @ i, csvr_Ttl = Some (durationpb_New demo_libs streamTtl)\<rparr>))"
  by (simp_all add: next_command_def answer_def demo_writer_replayed CreateStreamValue_def replay_client_def Let_def)

lemma demo_writer_arrives:
  "reaches demo_world demo_open_server mkeys mclock mup s0 s ps \<Longrightarrow>
     reaches demo_world demo_open_server mkeys mclock mup s0 s (ps @ [demo_writer v []])"
  unfolding demo_writer_def by (rule reaches_arrive)

text \<open>Both writers append before either refreshes the expiry.\<close>

definition demo_entry :: "nat \<Rightarrow> bytes \<Rightarrow> stream_entry" where
  "demo_entry n v = ((5, n), [(''value'', v)])"

definition demo_written :: "stream_entry list \<Rightarrow> int option \<Rightarrow> mem" where
  "demo_written es e = \<lparr>mclock = 5, mkeys = [demo_nested \<mapsto> (RStream (demo_stream @ es), e)]\<rparr>"

lemma demo_written_commands:
  "exec_cmd mem_redis (CmdXAdd demo_nested m True [(''value'', v)]) (demo_written [] None) =
     (AnsString (Inr (sid_str (5, 0))), demo_written [demo_entry 0 v] None)"
  "exec_cmd mem_redis (CmdXAdd demo_nested m True [(''value'', v)]) (demo_written [demo_entry 0 w] None) =
     (AnsString (Inr (sid_str (5, 1))), demo_written [demo_entry 0 w, demo_entry 1 v] None)"
  "exec_cmd mem_redis (CmdExpire demo_nested streamTtl) (demo_written es e) =
     (AnsBool (Inr True), demo_written es (Some (5 + stream_lifetime)))"
  by (simp_all add: demo_written_def demo_stream_def demo_entry_def mem_XAdd_def next_sid_def put_def mem_Expire_def
      expire_secs_stream stream_lifetime_def Let_def max_def)

definition demo_writers :: "process list" where
  "demo_writers =
     [demo_writer ''x'' [AnsString (Inr (sid_str (5, 1))), AnsBool (Inr True)],
      demo_writer ''y'' [AnsString (Inr (sid_str (5, 0))), AnsBool (Inr True)]]"

lemma demo_writers_run:
  "reaches demo_world demo_open_server mkeys mclock mup (demo_written [] None)
     (demo_written [demo_entry 0 ''y'', demo_entry 1 ''x''] (Some (5 + stream_lifetime)))
     [demo_writer ''x'' [AnsString (Inr (sid_str (5, 1))), AnsBool (Inr True)], demo_writer ''y'' [AnsString (Inr (sid_str (5, 0)))]]"
  "reaches demo_world demo_open_server mkeys mclock mup (demo_written [] None)
     (demo_written [demo_entry 0 ''y'', demo_entry 1 ''x''] (Some (5 + stream_lifetime))) demo_writers"
proof -
  let ?reach = "reaches demo_world demo_open_server mkeys mclock mup (demo_written [] None)"
  note step = reaches_command [where W = demo_world and srv = demo_open_server and view = mkeys and clock = mclock and up = mup]
  have r0: "?reach (demo_written [] None) [demo_writer ''x'' [], demo_writer ''y'' []]"
    using demo_writer_arrives [OF demo_writer_arrives [OF reaches_idle]] by simp
  have r1: "?reach (demo_written [demo_entry 0 ''y''] None) [demo_writer ''x'' [], demo_writer ''y'' [AnsString (Inr (sid_str (5, 0)))]]"
    by (rule step [OF r0, of 1, OF _ _ demo_written_commands(1) [folded demo_world_simps(3)]]) (simp_all add: demo_writer_commands)
  have r2: "?reach (demo_written [demo_entry 0 ''y'', demo_entry 1 ''x''] None)
      [demo_writer ''x'' [AnsString (Inr (sid_str (5, 1)))], demo_writer ''y'' [AnsString (Inr (sid_str (5, 0)))]]"
    by (rule step [OF r1, of 0, OF _ _ demo_written_commands(2) [folded demo_world_simps(3)]]) (simp_all add: demo_writer_commands)
  show r3: "?reach (demo_written [demo_entry 0 ''y'', demo_entry 1 ''x''] (Some (5 + stream_lifetime)))
      [demo_writer ''x'' [AnsString (Inr (sid_str (5, 1))), AnsBool (Inr True)], demo_writer ''y'' [AnsString (Inr (sid_str (5, 0)))]]"
    by (rule step [OF r2, of 0, OF _ _ demo_written_commands(3) [folded demo_world_simps(3)]]) (simp_all add: demo_writer_commands)
  show "?reach (demo_written [demo_entry 0 ''y'', demo_entry 1 ''x''] (Some (5 + stream_lifetime))) demo_writers"
    unfolding demo_writers_def
    by (rule step [OF r3, of 1, OF _ _ demo_written_commands(3) [folded demo_world_simps(3)]]) (simp_all add: demo_writer_commands)
qed

lemma demo_written_inv: "service_inv demo_libs mkeys mup (demo_written [] None)"
proof -
  have "index_wf (mkeys (demo_written [] None))"
    by (auto simp: index_wf_def demo_written_def index_key_def demo_nested_def intro: key_typed_other split: if_splits)
  then show ?thesis
    by (auto simp: service_inv_def sessions_wf_def sessions_permanent_def values_intact_def mup_def demo_written_def demo_nested_def
        session_key_def value_key_def split: if_splits)
qed

lemma demo_written_streams:
  "streams_of (mkeys (demo_written es e)) = [demo_nested \<mapsto> (demo_stream @ es, e)]"
  by (rule ext) (simp add: streams_of_def demo_written_def)

lemma demo_written_start:
  "log_ordered (streams_of (mkeys (demo_written [] None)))" "lasting d (streams_of (mkeys (demo_written [] None)))"
  by (auto simp: demo_written_streams log_ordered_def lasting_def demo_stream_def split: if_splits)

abbreviation demo_half_refreshed :: "session_call list \<Rightarrow> mem system" where
  "demo_half_refreshed cs \<equiv> \<lparr>sy_store = demo_written [demo_entry 0 ''y'', demo_entry 1 ''x''] (Some (5 + stream_lifetime)),
     sy_procs = [demo_writer ''x'' [AnsString (Inr (sid_str (5, 1))), AnsBool (Inr True)], demo_writer ''y'' [AnsString (Inr (sid_str (5, 0)))]],
     sy_calls = cs\<rparr>"

abbreviation demo_refreshed :: "session_call list \<Rightarrow> mem system" where
  "demo_refreshed cs \<equiv> \<lparr>sy_store = demo_written [demo_entry 0 ''y'', demo_entry 1 ''x''] (Some (5 + stream_lifetime)),
     sy_procs = demo_writers, sy_calls = cs\<rparr>"

lemma demo_writers_reached:
  "\<exists>cs. (system_step demo_world demo_open_server mkeys mclock mup)\<^sup>*\<^sup>* (idle (demo_written [] None)) (demo_half_refreshed cs)"
  "\<exists>cs. (system_step demo_world demo_open_server mkeys mclock mup)\<^sup>*\<^sup>* (idle (demo_written [] None)) (demo_refreshed cs)"
  using demo_writers_run unfolding reaches_def by blast+

lemma demo_writers_named: "all_named (demo_half_refreshed cs)" "all_named (demo_refreshed cs)"
  by (simp_all add: all_named_def demo_writers_def)

lemma demo_writers_on_time: "on_time (demo_half_refreshed cs)" "on_time (demo_refreshed cs)"
  by (simp_all add: on_time_def demo_writers_def timely_def streamTtl_def Second_def in_int64_def int64_min_def int64_max_def)

subsection \<open>Properties\<close>

text \<open>
  An append and the refresh of the stream's life are two commands, and the answer of the second is not looked at. When the old
  life of the stream ends between them the whole stream is gone, with the entry just appended, and the request is
  answered without an error all the same.
\<close>

theorem acknowledged_append_lost:
  "\<exists>s p. reaches demo_world demo_open_server mkeys mclock mup (demo_written [] (Some 6)) s [p] \<and>
     (\<exists>resp. answer demo_world demo_open_server p = Some (Ok (RCreateStreamValue resp)) \<and>
        csvr_Name resp = demo_nested @ ''/values/'' @ sid_str (5, 0)) \<and>
     mkeys s demo_nested = None"
proof -
  let ?k = demo_nested
  let ?reach = "reaches demo_world demo_open_server mkeys mclock mup (demo_written [] (Some 6))"
  let ?gone = "\<lparr>mclock = 7, mkeys = Map.empty\<rparr> :: mem"
  note step = reaches_command [where W = demo_world and srv = demo_open_server and view = mkeys and clock = mclock and up = mup]
  have r0: "?reach (demo_written [] (Some 6)) [demo_writer ''x'' []]"
    using demo_writer_arrives [OF reaches_idle] by simp
  have x: "exec_cmd mem_redis (CmdXAdd ?k m True [(''value'', v)]) (demo_written [] (Some 6)) =
      (AnsString (Inr (sid_str (5, 0))), demo_written [demo_entry 0 v] (Some 6))" for m v
    by (simp add: demo_written_def demo_stream_def demo_entry_def mem_XAdd_def next_sid_def put_def Let_def max_def)
  have r1: "?reach (demo_written [demo_entry 0 ''x''] (Some 6)) [demo_writer ''x'' [AnsString (Inr (sid_str (5, 0)))]]"
    by (rule step [OF r0, of 0, OF _ _ x [folded demo_world_simps(3)]]) (simp_all add: demo_writer_commands)
  have "elapse mkeys mclock mup (demo_written [demo_entry 0 ''x''] (Some 6)) ?gone"
    by (auto simp: elapse_def mup_def demo_written_def purge_def unexpired_def fun_eq_iff)
  then have r2: "?reach ?gone [demo_writer ''x'' [AnsString (Inr (sid_str (5, 0)))]]" by (rule reaches_elapse [OF r1])
  have e: "exec_cmd mem_redis (CmdExpire ?k streamTtl) ?gone = (AnsBool (Inr False), ?gone)" by (simp add: mem_Expire_def)
  have "?reach ?gone [demo_writer ''x'' [AnsString (Inr (sid_str (5, 0))), AnsBool (Inr False)]]"
    by (rule step [OF r2, of 0, OF _ _ e [folded demo_world_simps(3)]]) (simp_all add: demo_writer_commands)
  then show ?thesis
    using demo_writer_commands(3) [of "''x''" "sid_str (5, 0)" False]
    by (intro exI [of _ ?gone] exI [of _ "demo_writer ''x'' [AnsString (Inr (sid_str (5, 0))), AnsBool (Inr False)]"]) simp
qed

text \<open>
  C5. Streams are an append-only log for any number of writers. Every step of the interleaved service is, on the
  streams of all accounts, a step of the log: nothing, the append of a new last entry with the value of a
  \<open>CreateStreamValue\<close> request that is in flight to the stream that it names, which may drop entries at the front that
  are older than this request's limit and none else, the refresh of the stream's life to seven days by such a request, or
  the loss of whole streams whose time has come. No other request, charged or not, touches an entry or the life of a stream.
  This holds as long as all requests that arrive name streams under \<open>accounts/\<close> and values under \<open>values/\<close> (\<open>all_named\<close>): the patterns of
  the messages are not anchored, so a \<open>ProlongValue\<close> request whose name is that of a stream is valid as well and prolongs
  this stream's life, and a \<open>CreateStreamValue\<close> request may write a stream under a key of another kind.
\<close>

theorem streams_refine_log:
  assumes "service_world W view clock up decode verifies" and "(system_step W srv view clock up)\<^sup>*\<^sup>* (idle s) sy"
    and "service_inv (wL W) view up s" and "all_named sy" and "on_time sy" and "system_step W srv view clock up sy sy'"
  shows "stream_step (in_flight W srv sy) (stream_state view clock (sy_store sy)) (stream_state view clock (sy_store sy'))"
  using service_world.system_step_streams [OF assms(1) service_world.system_inv_reachable [OF assms(1-4)] assms(5,6)] .

theorem streams_refine_log_witness:
  "\<exists>sy sy' :: mem system. in_flight demo_world demo_open_server sy = {(demo_nested, ''y'', streamTtl)} \<and>
     stream_step (in_flight demo_world demo_open_server sy) (stream_state mkeys mclock (sy_store sy)) (stream_state mkeys mclock (sy_store sy'))"
proof -
  obtain cs where r: "(system_step demo_world demo_open_server mkeys mclock mup)\<^sup>*\<^sup>* (idle (demo_written [] None)) (demo_half_refreshed cs)"
    using demo_writers_reached(1) by blast
  let ?sy = "demo_half_refreshed cs"
  let ?sy' = "advance demo_world demo_open_server 1 (CmdExpire demo_nested streamTtl) ?sy"
  have s: "system_step demo_world demo_open_server mkeys mclock mup ?sy ?sy'"
    by (intro step_command command_stepI) (simp_all add: demo_writer_commands)
  have f: "in_flight demo_world demo_open_server ?sy = {(demo_nested, ''y'', streamTtl)}"
    using demo_writer_commands(2) [of "''y''" "sid_str (5, 0)"]
    by (auto simp: in_flight_def appends_def demo_writer_commands(3)) (auto simp: answer_def)
  have "stream_step (in_flight demo_world demo_open_server ?sy) (stream_state mkeys mclock (sy_store ?sy)) (stream_state mkeys mclock (sy_store ?sy'))"
    by (rule streams_refine_log [OF demo.service_world_axioms r _ demo_writers_named(1) demo_writers_on_time(1) s]) (simp add: demo_written_inv)
  with f show ?thesis by (intro exI [of _ ?sy] exI [of _ ?sy'] conjI)
qed

text \<open>
  C8. A stream is always in order and holds only what was appended to it. However the requests are interleaved, the
  identifiers of a stream's entries increase strictly from one entry to the next, and every entry was there at
  the start or has the value of a \<open>CreateStreamValue\<close> request that named this very stream. All requests that have arrived name
  streams under \<open>accounts/\<close> and values under \<open>values/\<close> (\<open>all_named\<close>).
\<close>

theorem streams_ordered_and_authentic:
  assumes "service_world W view clock up decode verifies" and "(system_step W srv view clock up)\<^sup>*\<^sup>* (idle s) sy"
    and "service_inv (wL W) view up s" and "all_named sy" and "on_time sy" and "log_ordered (streams_of (view s))"
    and "streams_of (view (sy_store sy)) k = Some (es, e)"
  shows "sorted_wrt (<) (map fst es) \<and>
    (\<forall>x \<in> set es. entry_in (streams_of (view s)) k x \<or>
       (\<exists>p \<in> set (sy_procs sy). \<exists>m. AnyMsg (p_req p) = MCreateStreamValue m \<and> csv_Parent m = k \<and> snd x = [(''value'', csv_Value m)]))"
proof -
  note v = service_world.streams_kept_reachable [OF assms(1-3,6,4,5), unfolded streams_kept_def]
  from v assms(7) have "ids_increase es" unfolding log_ordered_def by (metis contents_simps(2) fst_conv)
  moreover have "entry_in (streams_of (view s)) k x \<or>
      (\<exists>p \<in> set (sy_procs sy). \<exists>m. AnyMsg (p_req p) = MCreateStreamValue m \<and> csv_Parent m = k \<and> snd x = [(''value'', csv_Value m)])"
    if x: "x \<in> set es" for x
  proof -
    have "entry_in (streams_of (view (sy_store sy))) k x" using x assms(7) by (auto simp: entry_in_Some)
    with v consider "entry_in (streams_of (view s)) k x" | v now where "(k, v, now) \<in> all_appends sy" "snd x = [(''value'', v)]"
      unfolding log_from_def by blast
    then show ?thesis
    proof cases
      case 2
      with all_appends_request [OF 2(1)] show ?thesis by blast
    qed simp
  qed
  ultimately show ?thesis by blast
qed

theorem streams_ordered_and_authentic_witness:
  "\<exists>sy :: mem system. reaches demo_world demo_open_server mkeys mclock mup (demo_written [] None) (sy_store sy) (sy_procs sy) \<and> length (sy_procs sy) = 2 \<and>
     streams_of (mkeys (sy_store sy)) demo_nested =
       Some (demo_stream @ [demo_entry 0 ''y'', demo_entry 1 ''x''], Some (5 + stream_lifetime)) \<and>
     sorted_wrt (<) (map fst (demo_stream @ [demo_entry 0 ''y'', demo_entry 1 ''x'']))"
proof -
  obtain cs where r: "(system_step demo_world demo_open_server mkeys mclock mup)\<^sup>*\<^sup>* (idle (demo_written [] None)) (demo_refreshed cs)"
    using demo_writers_reached(2) by blast
  let ?sy = "demo_refreshed cs"
  have k: "streams_of (mkeys (sy_store ?sy)) demo_nested =
      Some (demo_stream @ [demo_entry 0 ''y'', demo_entry 1 ''x''], Some (5 + stream_lifetime))"
    by (simp add: demo_written_streams)
  from streams_ordered_and_authentic [OF demo.service_world_axioms r _ demo_writers_named(2) demo_writers_on_time(2) demo_written_start(1) k] demo_written_inv demo_writers_run(2) k
  show ?thesis by (intro exI [of _ ?sy]) (simp add: demo_writers_def del: map_append)
qed

text \<open>
  C7. Appends that are acknowledged are kept, each in an entry of its own. However the requests are interleaved, when
  a \<open>CreateStreamValue\<close> request has been answered without an error, the name in the answer is that of an entry \<open>i\<close>, and unless
  the time \<open>d\<close> has come, before which no stream of the start expires and which is at most seven days ahead, or \<open>i\<close> is older than
  the limit of some request, the stream holds the entry \<open>i\<close> with the value of the request and every other
  acknowledged append to the stream has a name of its own. No append is lost to another one. All requests that have
  arrived name streams under \<open>accounts/\<close> and values under \<open>values/\<close> (\<open>all_named\<close>).
\<close>

theorem acknowledged_appends_kept:
  assumes "service_world W view clock up decode verifies" and "(system_step W srv view clock up)\<^sup>*\<^sup>* (idle s) sy"
    and "service_inv (wL W) view up s" and "all_named sy" and "on_time sy" and "log_ordered (streams_of (view s))"
    and "lasting d (streams_of (view s))" and "d \<le> clock s + stream_lifetime"
    and "a < length (sy_procs sy)" and "AnyMsg (p_req (sy_procs sy ! a)) = MCreateStreamValue m"
    and "answer W srv (sy_procs sy ! a) = Some (Ok (RCreateStreamValue resp))"
  shows "\<exists>i. csvr_Name resp = csv_Parent m @ ''/values/'' @ sid_str i \<and>
    (may_be_lost d (clock (sy_store sy)) sy i \<or>
     (\<exists>es e. view (sy_store sy) (csv_Parent m) = Some (RStream es, e) \<and> (i, [(''value'', csv_Value m)]) \<in> set es) \<and>
     (\<forall>b < length (sy_procs sy). \<forall>m' resp'. b \<noteq> a \<longrightarrow> AnyMsg (p_req (sy_procs sy ! b)) = MCreateStreamValue m' \<longrightarrow>
        csv_Parent m' = csv_Parent m \<longrightarrow> answer W srv (sy_procs sy ! b) = Some (Ok (RCreateStreamValue resp')) \<longrightarrow>
        csvr_Name resp' \<noteq> csvr_Name resp))"
proof -
  note ack = service_world.acknowledged_entry [OF assms(1-5)]
  obtain i where i: "csvr_Name resp = csv_Parent m @ ''/values/'' @ sid_str i"
      "wrote W srv (sy_procs sy ! a) (csv_Parent m) i [(''value'', csv_Value m)]"
    using ack [OF nth_mem [OF assms(9)] assms(10,11)] by blast
  show ?thesis
  proof (cases "may_be_lost d (clock (sy_store sy)) sy i")
    case True
    with i(1) show ?thesis by blast
  next
    case False
    from service_world.wrote_entry [OF assms(1-8) nth_mem [OF assms(9)] i(2) this]
    have "\<exists>es e. view (sy_store sy) (csv_Parent m) = Some (RStream es, e) \<and> (i, [(''value'', csv_Value m)]) \<in> set es" .
    moreover have "csvr_Name resp' \<noteq> csvr_Name resp"
      if b: "b < length (sy_procs sy)" "b \<noteq> a" "AnyMsg (p_req (sy_procs sy ! b)) = MCreateStreamValue m'"
        "csv_Parent m' = csv_Parent m" "answer W srv (sy_procs sy ! b) = Some (Ok (RCreateStreamValue resp'))" for b m' resp'
    proof
      assume "csvr_Name resp' = csvr_Name resp"
      with ack [OF nth_mem [OF b(1)] b(3,5)] i(1) b(4) have "wrote W srv (sy_procs sy ! b) (csv_Parent m) i [(''value'', csv_Value m')]" by auto
      with service_world.acknowledged_reachable [OF assms(1-3,6-8,4,5)] i(2) b(1,2) assms(9) False show False unfolding acknowledged_once_def by blast
    qed
    ultimately show ?thesis using i(1) by blast
  qed
qed

theorem acknowledged_appends_kept_witness:
  "\<exists>sy :: mem system. reaches demo_world demo_open_server mkeys mclock mup (demo_written [] None) (sy_store sy) (sy_procs sy) \<and> length (sy_procs sy) = 2 \<and>
     (\<exists>es e. mkeys (sy_store sy) demo_nested = Some (RStream es, e) \<and> ((5, 1), [(''value'', ''x'')]) \<in> set es)"
proof -
  obtain cs where r: "(system_step demo_world demo_open_server mkeys mclock mup)\<^sup>*\<^sup>* (idle (demo_written [] None)) (demo_refreshed cs)"
    using demo_writers_reached(2) by blast
  let ?sy = "demo_refreshed cs"
  have a: "0 < length (sy_procs ?sy)" "AnyMsg (p_req (sy_procs ?sy ! 0)) = MCreateStreamValue \<lparr>csv_Parent = demo_nested, csv_Value = ''x''\<rparr>"
    "answer demo_world demo_open_server (sy_procs ?sy ! 0) = Some (Ok (RCreateStreamValue
       \<lparr>csvr_Name = demo_nested @ ''/values/'' @ sid_str (5, 1), csvr_Ttl = Some (durationpb_New demo_libs streamTtl)\<rparr>))"
    by (simp_all add: demo_writers_def demo_writer_commands)
  have d: "5 + stream_lifetime \<le> mclock (demo_written [] None) + stream_lifetime" by (simp add: demo_written_def)
  have l: "\<not> may_be_lost (5 + stream_lifetime) (mclock (sy_store ?sy)) ?sy i" for i
    by (simp add: may_be_lost_def demo_writers_def demo_written_def oldest_kept_def stream_lifetime_def not_less less_eq_prod_def)
  from acknowledged_appends_kept [OF demo.service_world_axioms r _ demo_writers_named(2) demo_writers_on_time(2) demo_written_start d a] demo_written_inv l
  have "\<exists>es e. mkeys (sy_store ?sy) demo_nested = Some (RStream es, e) \<and> ((5, 1), [(''value'', ''x'')]) \<in> set es"
    by auto
  with demo_writers_run(2) show ?thesis by (intro exI [of _ ?sy]) (simp add: demo_writers_def)
qed

text \<open>
  C6. A reader sees every append that was acknowledged. In a state that the interleaved service reaches before the time
  \<open>d\<close>, before which no stream of the start expires and which is at most seven days ahead, the owner of a stream who asks
  for page after page from the start, with pages of two entries or more, comes to an end. Each page begins with the entry
  the one before it ended with, apart from this no entry is returned twice, and some page has the value of every \<open>CreateStreamValue\<close>
  request to this stream that was answered without an error, under the identifier in its answer, if no request has come
  whose limit is past this identifier. The name of the stream begins with \<open>accounts/\<close> and is one from which the handler reads the owner.
  A name with a DID as the account, \<open>accounts/did:...\<close>, which the message definitions ask for, is one only if it contains a second
  name (as \<open>demo_nested\<close> does): streams under all others are appended to and cannot be listed. All requests name streams
  under \<open>accounts/\<close> and values under \<open>values/\<close> (\<open>all_named\<close>), all entries at the start have one value, and the
  identifiers are in the range of the reader's integers.
\<close>

theorem acknowledged_appends_read:
  assumes "service_world W view clock up decode verifies" and "(system_step W srv view clock up)\<^sup>*\<^sup>* (idle s) sy"
    and "service_inv (wL W) view up s" and "all_named sy" and "on_time sy" and "log_ordered (streams_of (view s))"
    and "lasting d (streams_of (view s))" and "d \<le> clock s + stream_lifetime" and "clock (sy_store sy) < d"
    and "\<forall>k x. entry_in (streams_of (view s)) k x \<longrightarrow> (\<exists>v. snd x = [(''value'', v)])"
    and "ParseResourceName (ls_Parent req) [''accounts'', ''streams''] = Inr [a, b]" and "HasPrefix (ls_Parent req) ''accounts/''"
    and "2 \<le> ls_PageSize req"
    and "VerifyAndParseJwt (wJ W) (srv_authmanager srv) (ls_AuthToken req) (Registered empty_registered) True now = Ok cl"
    and "registered_of cl = Some r" and "rc_Subject r = a"
    and "view (sy_store sy) (ls_Parent req) = Some (RStream es, e)" and "\<forall>x \<in> set es. sid_int64 (fst x)"
  shows "\<exists>pages. read_pages (stream_pages (wR W) (VerifyAndParseJwt (wJ W) (srv_authmanager srv)) now req) ''0-0'' (sy_store sy) = Some pages \<and>
    overlapping pages \<and> distinct (map sv_StreamEntryId (joined pages)) \<and>
    (\<forall>p \<in> set (sy_procs sy). \<forall>m resp i. AnyMsg (p_req p) = MCreateStreamValue m \<longrightarrow> csv_Parent m = ls_Parent req \<longrightarrow>
       answer W srv p = Some (Ok (RCreateStreamValue resp)) \<longrightarrow> csvr_Name resp = csv_Parent m @ ''/values/'' @ sid_str i \<longrightarrow>
       (\<forall>q \<in> set (sy_procs sy). oldest_kept (p_now q) \<le> i) \<longrightarrow>
       \<lparr>sv_Value = csv_Value m, sv_StreamEntryId = sid_str i\<rparr> \<in> set (concat pages))"
proof -
  have R: "redis_contract (wR W) view clock up" using assms(1) by (simp add: service_world_def token_redis_def)
  have u: "up (sy_store sy)"
    using service_world.system_inv_reachable [OF assms(1-4), of "[]"] by (simp add: system_inv_def service_inv_def sessions_wf_def)
  have es: "ids_increase es" "list_all value_entry es"
    using service_world.stream_readable [OF assms(1-6) _ assms(17,12)] assms(10,18) by blast+
  have z: "from_id (0, 0) es = es" by (induction es) (auto simp: less_eq_prod_def)
  have t: "ensureAuthToken (VerifyAndParseJwt (wJ W) (srv_authmanager srv)) now (ls_AuthToken req) ([a, b] ! 0) = Ok ()"
    using assms(14-16) by (auto simp: ensureAuthToken_Ok)
  obtain pages where pages: "read_pages (stream_pages (wR W) (VerifyAndParseJwt (wJ W) (srv_authmanager srv)) now req) ''0-0'' (sy_store sy) = Some pages"
      "joined pages = map entry_info es" "overlapping pages"
    using redis_contract.read_pages_all [where i = "(0, 0)", OF R assms(11) t es(2,1) assms(13) u assms(17)] z by (auto simp: zero_sid)
  have d: "distinct (map sv_StreamEntryId (joined pages))"
    using es(1) [unfolded strict_sorted_iff] pages(2) by (simp add: distinct_map entry_info_def comp_def inj_on_def)
  have "\<lparr>sv_Value = csv_Value m, sv_StreamEntryId = sid_str i\<rparr> \<in> set (concat pages)"
    if q: "p \<in> set (sy_procs sy)" "AnyMsg (p_req p) = MCreateStreamValue m" "csv_Parent m = ls_Parent req"
      "answer W srv p = Some (Ok (RCreateStreamValue resp))" "csvr_Name resp = csv_Parent m @ ''/values/'' @ sid_str i"
      and o: "\<forall>q \<in> set (sy_procs sy). oldest_kept (p_now q) \<le> i" for p m resp i
  proof -
    have w: "wrote W srv p (csv_Parent m) i [(''value'', csv_Value m)]"
      using service_world.acknowledged_entry [OF assms(1-5) q(1,2,4)] q(5) by auto
    have "\<not> may_be_lost d (clock (sy_store sy)) sy i" using o assms(9) by (auto simp: may_be_lost_def not_less)
    from service_world.wrote_entry [OF assms(1-8) q(1) w this] assms(17) q(3)
    have "(i, [(''value'', csv_Value m)]) \<in> set es" by simp
    then have "entry_info (i, [(''value'', csv_Value m)]) \<in> entry_info ` set es" by (rule imageI)
    then have "entry_info (i, [(''value'', csv_Value m)]) \<in> set (concat pages)" using pages(2) by (intro joined_in_pages) simp
    then show ?thesis by (simp add: entry_info_def del: set_concat)
  qed
  with pages(1,3) d show ?thesis by blast
qed

theorem acknowledged_appends_read_witness:
  "\<exists>(s :: mem) req. ls_Parent req = demo_nested \<and> ls_PageSize req = 2 \<and>
     mkeys s demo_nested = Some (RStream (demo_stream @ [demo_entry 0 ''y'', demo_entry 1 ''x'']), Some (5 + stream_lifetime)) \<and>
     (\<exists>pages. read_pages (stream_pages mem_redis (VerifyAndParseJwt demo_jwt demo_auth) (1000000 * Second) req) ''0-0'' s = Some pages \<and>
        overlapping pages \<and> distinct (map sv_StreamEntryId (joined pages)) \<and>
        \<lparr>sv_Value = ''x'', sv_StreamEntryId = sid_str (5, 1)\<rparr> \<in> set (concat pages))"
proof -
  obtain cs where r: "(system_step demo_world demo_open_server mkeys mclock mup)\<^sup>*\<^sup>* (idle (demo_written [] None)) (demo_refreshed cs)"
    using demo_writers_reached(2) by blast
  let ?sy = "demo_refreshed cs" and ?es = "demo_stream @ [demo_entry 0 ''y'', demo_entry 1 ''x'']"
  let ?req = "(demo_list (0, 0) 2)\<lparr>ls_Parent := demo_nested\<rparr>"
  have a: "demo_writer ''x'' [AnsString (Inr (sid_str (5, 1))), AnsBool (Inr True)] \<in> set (sy_procs ?sy)" by (simp add: demo_writers_def)
  have l: "ls_Parent ?req = demo_nested" "ls_PageSize ?req = 2" "2 \<le> ls_PageSize ?req"
    by (simp_all add: demo_list_def)
  have p: "ParseResourceName (ls_Parent ?req) [''accounts'', ''streams''] = Inr [''bob'', ''in'']" "HasPrefix (ls_Parent ?req) ''accounts/''"
    unfolding l(1) by (rule demo_nested_parses demo_nested_prefix)+
  have t: "VerifyAndParseJwt (wJ demo_world) (srv_authmanager demo_open_server) (ls_AuthToken ?req) (Registered empty_registered) True (1000000 * Second) =
      Ok (Registered demo_identity_claims)"
    using demo_ident by (simp add: demo_list_def demo_open_server_def)
  have v: "mkeys (sy_store ?sy) (ls_Parent ?req) = Some (RStream ?es, Some (5 + stream_lifetime))"
    by (simp add: demo_written_def)
  have d: "5 + stream_lifetime \<le> mclock (demo_written [] None) + stream_lifetime" "mclock (sy_store ?sy) < 5 + stream_lifetime"
    by (simp_all add: demo_written_def stream_lifetime_def)
  have e: "\<forall>k x. entry_in (streams_of (mkeys (demo_written [] None))) k x \<longrightarrow> (\<exists>v. snd x = [(''value'', v)])"
    by (auto simp: entry_in_Some demo_written_streams demo_stream_def split: if_splits)
  have i: "\<forall>x \<in> set ?es. sid_int64 (fst x)"
    by (auto simp: demo_stream_def demo_entry_def sid_int64_def in_int64_def int64_min_def int64_max_def)
  have n: "\<forall>q \<in> set (sy_procs ?sy). oldest_kept (p_now q) \<le> (5, 1)"
    by (simp add: demo_writers_def oldest_kept_def less_eq_prod_def)
  have "service_inv (wL demo_world) mkeys mup (demo_written [] None)" using demo_written_inv by simp
  from acknowledged_appends_read [OF demo.service_world_axioms r this demo_writers_named(2) demo_writers_on_time(2) demo_written_start d e p l(3) t
      registered_of.simps(1) demo_ids(3) v i] obtain pages where
    pages: "read_pages (stream_pages (wR demo_world) (VerifyAndParseJwt (wJ demo_world) (srv_authmanager demo_open_server)) (1000000 * Second)
        ?req) ''0-0'' (sy_store ?sy) = Some pages" "overlapping pages" "distinct (map sv_StreamEntryId (joined pages))"
      and all: "\<forall>p \<in> set (sy_procs ?sy). \<forall>m resp i. AnyMsg (p_req p) = MCreateStreamValue m \<longrightarrow> csv_Parent m = ls_Parent ?req \<longrightarrow>
        answer demo_world demo_open_server p = Some (Ok (RCreateStreamValue resp)) \<longrightarrow> csvr_Name resp = csv_Parent m @ ''/values/'' @ sid_str i \<longrightarrow>
        (\<forall>q \<in> set (sy_procs ?sy). oldest_kept (p_now q) \<le> i) \<longrightarrow> \<lparr>sv_Value = csv_Value m, sv_StreamEntryId = sid_str i\<rparr> \<in> set (concat pages)"
    by blast
  from all [rule_format, OF a _ _ demo_writer_commands(3) _ n [rule_format], of "\<lparr>csv_Parent = demo_nested, csv_Value = ''x''\<rparr>"]
  have "\<lparr>sv_Value = ''x'', sv_StreamEntryId = sid_str (5, 1)\<rparr> \<in> set (concat pages)" by (simp del: set_concat)
  with pages v l(1,2) show ?thesis
    by (intro exI [of _ "sy_store ?sy"] exI [of _ ?req] conjI exI [of _ pages]) (simp_all only: demo_world_simps demo_open_server_auth l(1))
qed

end
