(* ===== verification/Waiting.thy ===== *)
theory Waiting
  imports Concurrency
begin

section \<open>Requests that wait\<close>
















end
