(* ===== verification/Panics.thy ===== *)
theory Panics
  imports Service
begin

section \<open>Which requests crash their handler\<close>

text \<open>
  Every panic of the handlers and of the interceptors is a value of the model (\<open>Panic\<close>). This theory shows which requests end in
  one: over a Redis and a token library that keep their contracts only \<open>CreateSession\<close> does, for two kinds of tokens, and
  nothing has been written by then. A panic takes down the goroutine of its request.
\<close>

definition is_Panic :: "'a result \<Rightarrow> bool" where
  "is_Panic r \<longleftrightarrow> (\<exists>m. r = Panic m)"

lemma is_Panic_simps [simp]: "\<not> is_Panic (Ok x)" "\<not> is_Panic (Err e)" "is_Panic (Panic m)"
  by (simp_all add: is_Panic_def)

lemma is_Panic_lift [simp]: "is_Panic (fst (lift_resp f p)) \<longleftrightarrow> is_Panic (fst p)"
  by (cases p; cases "fst p") auto

subsection \<open>What is relied on\<close>




subsection \<open>The two kinds of tokens\<close>




subsection \<open>Verification\<close>





subsection \<open>The handlers\<close>









context redis_contract
begin

lemma searches_calm:
  assumes "up s"
  shows "\<not> is_Panic (fst (SearchInstance L R req s))" and "\<not> is_Panic (fst (SearchCid L R f creq s))"
    and "\<not> is_Panic (fst (DelegatedRouting L R f dreq s))"
proof -
  have "0 < defaultInstanceCount" by (simp add: defaultInstanceCount_def)
  from searchInstances_bound [OF assms this, of L "si_VirtualService req"] show "\<not> is_Panic (fst (SearchInstance L R req s))"
    by (auto simp: SearchInstance_def case_prod_beta)
  from doSearchCid_calm [OF assms, of L f creq] show "\<not> is_Panic (fst (SearchCid L R f creq s))"
    by (auto simp: SearchCid_def is_Panic_def split: result.split)
  from doSearchCid_calm [OF assms, of L f "\<lparr>sc_Cid = dr_Cid dreq\<rparr>"] show "\<not> is_Panic (fst (DelegatedRouting L R f dreq s))"
    by (auto simp: DelegatedRouting_def case_prod_beta is_Panic_def split: result.split)
qed

lemma create_calm:
  assumes "up s"
  shows "\<not> is_Panic (fst (sm_CreateSession L R m jti q ttl s))"
proof -
  have "fst (rSetNXGet R k v s) \<noteq> Inr AnyOther" for k v
  proof (cases "view s k")
    case None
    with setnx_none [OF assms None, of v] show ?thesis by simp
  next
    case (Some p)
    then show ?thesis
      using setnx_str [OF assms, of k _ "snd p" v] setnx_wrongtype [OF assms, of k "fst p" "snd p" v]
      by (cases p; cases "\<exists>w. fst p = RStr w") auto
  qed
  then show ?thesis
    by (auto simp: sm_CreateSession_def Let_def case_prod_beta split: sum.split redis_any.split)
qed

end

subsection \<open>Opening a session\<close>


subsection \<open>The service\<close>


subsection \<open>Properties\<close>







end
