(* ===== verification/Value_Store.thy ===== *)
theory Value_Store
  imports Service
begin

section \<open>The value store\<close>

text \<open>
  What the three value handlers promise, as an abstract store: a map from content identifiers to contents and times of expiry.
  \<open>value_step\<close> has one rule for every way a request can end, with the answer and the new store; the handlers over any
  Redis that keeps its contract take steps of it (\<open>svc_value_step\<close>), and every other handler leaves it as it is.
\<close>

subsection \<open>The abstract store\<close>

type_synonym value_store = "string \<rightharpoonup> bytes \<times> int option"

text \<open>A prolongation of a value at a time: the new expiry is reckoned from the time left, which is read in whole seconds.\<close>

definition prolonged :: "int \<Rightarrow> int \<Rightarrow> int \<Rightarrow> bool" where
  "prolonged d till till' \<longleftrightarrow> \<bar>till' * Millisecond - (till * Millisecond + d)\<bar> < 2 * Second"

inductive value_step ::
    "libs \<Rightarrow> int \<Rightarrow> message \<Rightarrow> value_store \<Rightarrow> response result \<Rightarrow> value_store \<Rightarrow> bool" for L t where
  create_ok: "value_step L t (MCreateValue m) M (Ok (RCreateValue \<lparr>cvr_Name = value_key c, cvr_Ttl = cv_Ttl m\<rparr>))
      (M(c \<mapsto> (cv_Value m, set_expiry t (AsDuration L (cv_Ttl m)))))"
    if "calculateCid L m = Ok c" and "0 \<le> AsDuration L (cv_Ttl m)"
| create_refused: "value_step L t (MCreateValue m) M (Err (Status InvalidArgument ''failed to calculate cid: %s'')) M"
    if "calculateCid L m = Err e"
| create_crash: "value_step L t (MCreateValue m) M (Panic msg) M"
    if "calculateCid L m = Panic msg"
| get_ok: "value_step L t (MGetValue m) M (Ok (RGetValue \<lparr>gvr_Value = v\<rparr>)) M"
    if "gv_Name m = value_key c" and "NormalizeCidToV1 L c = Inr c'" and "M c' = Some (v, e)"
| get_missing: "value_step L t (MGetValue m) M (Err (Status NotFound ''resource not found'')) M"
    if "gv_Name m = value_key c" and "NormalizeCidToV1 L c = Inr c'" and "M c' = None"
| get_bad_cid: "value_step L t (MGetValue m) M (Err e) M"
    if "gv_Name m = value_key c" and "NormalizeCidToV1 L c = Inl e"
| get_bad_name: "value_step L t (MGetValue m) M
      (Err (Status InvalidArgument ''expected resource name begin with \"values/\" but got %s'')) M"
    if "\<not> HasPrefix (gv_Name m) ''values/''"
| prolong_no_ttl: "value_step L t (MProlongValue m) M (Err (Status InvalidArgument ''ttl and/or maxSize missing or corrupted'')) M"
    if "AsDuration L (pv_Ttl m) \<le> 0"
| prolong_missing: "value_step L t (MProlongValue m) M (Err (Status NotFound ''resource not found'')) M"
    if "0 < AsDuration L (pv_Ttl m)" and "pv_Name m = value_key c" and "M c = None"
| prolong_too_big: "value_step L t (MProlongValue m) M (Err (Status PermissionDenied ''value size exceeded'')) M"
    if "0 < AsDuration L (pv_Ttl m)" and "pv_Name m = value_key c" and "M c \<noteq> None"
| prolong_ok: "value_step L t (MProlongValue m) M (Ok (RProlongValue \<lparr>pvr_Name = value_key c, pvr_Ttl = ttl\<rparr>))
      (M(c \<mapsto> (v, Some till')))"
    if "0 < AsDuration L (pv_Ttl m)" and "pv_Name m = value_key c" and "M c = Some (v, Some till)"
      and "prolonged (AsDuration L (pv_Ttl m)) till till'"
      and "AsDuration L (pv_Ttl m) + (till - t - 1000) * Millisecond \<le> int64_max"
| prolong_overflow: "value_step L t (MProlongValue m) M (Ok (RProlongValue \<lparr>pvr_Name = value_key c, pvr_Ttl = ttl\<rparr>)) (M(c := None))"
    if "0 < AsDuration L (pv_Ttl m)" and "pv_Name m = value_key c" and "M c = Some (v, Some till)"
      and "int64_max < AsDuration L (pv_Ttl m) + (till - t + 1000) * Millisecond"
| prolong_forever: "value_step L t (MProlongValue m) M (Ok (RProlongValue \<lparr>pvr_Name = value_key c, pvr_Ttl = ttl\<rparr>))
      (M(c \<mapsto> (v, Some (t + expire_secs (AsDuration L (pv_Ttl m) - 1) * 1000))))"
    if "1 < AsDuration L (pv_Ttl m)" and "pv_Name m = value_key c" and "M c = Some (v, None)"
| prolong_forever_gone: "value_step L t (MProlongValue m) M (Ok (RProlongValue \<lparr>pvr_Name = value_key c, pvr_Ttl = ttl\<rparr>)) (M(c := None))"
    if "AsDuration L (pv_Ttl m) = 1" and "pv_Name m = value_key c" and "M c = Some (v, None)"
| other: "value_step L t msg M r M"
    if "\<nexists>m. msg = MCreateValue m" and "\<nexists>m. msg = MGetValue m" and "\<nexists>m. msg = MProlongValue m"

text \<open>The store of a keyspace whose value keys hold strings.\<close>

definition values_of :: "keyspace \<Rightarrow> value_store" where
  "values_of ks c = (case ks (value_key c) of Some (RStr v, e) \<Rightarrow> Some (v, e) | _ \<Rightarrow> None)"

definition values_strings :: "keyspace \<Rightarrow> bool" where
  "values_strings ks \<longleftrightarrow> (\<forall>c x e. ks (value_key c) = Some (x, e) \<longrightarrow> (\<exists>v. x = RStr v))"

lemma values_of_Some: "values_of ks c = Some (v, e) \<longleftrightarrow> ks (value_key c) = Some (RStr v, e)"
  by (auto simp: values_of_def split: option.splits rval.splits)

lemma values_of_None: "values_strings ks \<Longrightarrow> values_of ks c = None \<longleftrightarrow> ks (value_key c) = None"
  by (auto simp: values_of_def values_strings_def split: option.splits rval.splits)

lemma values_of_update: "values_of (ks(value_key c \<mapsto> (RStr v, e))) = (values_of ks)(c \<mapsto> (v, e))"
  by (rule ext) (simp add: values_of_def)

lemma values_of_delete: "values_of (ks(value_key c := None)) = (values_of ks)(c := None)"
  by (rule ext) (simp add: values_of_def)

lemma values_of_same: "(\<And>c. ks' (value_key c) = ks (value_key c)) \<Longrightarrow> values_of ks' = values_of ks"
  by (rule ext) (simp add: values_of_def)

context redis_contract
begin

lemma CreateValue_step:
  assumes u: "up s" and d: "0 \<le> AsDuration L (cv_Ttl m)"
  shows "value_step L (clock s) (MCreateValue m) (values_of (view s)) (fst (lift_resp RCreateValue (CreateValue L R m s)))
    (values_of (view (snd (CreateValue L R m s))))"
proof (cases "calculateCid L m")
  case (Ok c)
  note e = CreateValue_effect [OF u d Ok]
  from value_step.create_ok [OF Ok d, of "clock s" "values_of (view s)"] e show ?thesis
    by (cases "CreateValue L R m s") (simp add: values_of_update)
next
  case (Err e)
  with value_step.create_refused [where M = "values_of (view s)", OF Err] show ?thesis by (simp add: CreateValue_def)
next
  case (Panic x)
  with value_step.create_crash [where M = "values_of (view s)", OF Panic] show ?thesis by (simp add: CreateValue_def)
qed

lemma GetValue_step:
  assumes u: "up s" and w: "values_strings (view s)"
  shows "value_step L (clock s) (MGetValue m) (values_of (view s)) (fst (lift_resp RGetValue (GetValue L R m s)))
    (values_of (view (snd (GetValue L R m s))))"
proof -
  have v: "values_of (view (snd (GetValue L R m s))) = values_of (view s)" using GetValue_reads [OF u] by simp
  show ?thesis
  proof (cases "HasPrefix (gv_Name m) ''values/''")
    case False
    then have "snd (CutPrefix (gv_Name m) ''values/'') = False" by (simp add: CutPrefix_def)
    then have "GetValue L R m s = (Err (Status InvalidArgument ''expected resource name begin with \"values/\" but got %s''), s)"
      by (simp add: GetValue_def case_prod_beta)
    with value_step.get_bad_name [where M = "values_of (view s)", OF False] show ?thesis by simp
  next
    case True
    then obtain c where c: "gv_Name m = value_key c" by (auto simp: HasPrefix_iff value_key_def)
    then have m: "m = \<lparr>gv_Name = value_key c\<rparr>" by simp
    show ?thesis
    proof (cases "NormalizeCidToV1 L c")
      case (Inl e)
      with value_step.get_bad_cid [where M = "values_of (view s)", OF c Inl] show ?thesis by (simp add: m GetValue_key)
    next
      case n: (Inr c')
      show ?thesis
      proof (cases "values_of (view s) c'")
        case None
        with GetValue_missing [OF u n] values_of_None [OF w] value_step.get_missing [where M = "values_of (view s)", OF c n None] show ?thesis
          unfolding v by (cases "GetValue L R m s") (simp add: m)
      next
        case (Some p)
        obtain x e where p: "p = (x, e)" by (cases p)
        with Some have k: "view s (value_key c') = Some (RStr x, e)" by (simp add: values_of_Some)
        from GetValue_found [OF u n k] value_step.get_ok [where M = "values_of (view s)", OF c n Some [unfolded p]] show ?thesis
          unfolding v by (cases "GetValue L R m s") (simp add: m)
      qed
    qed
  qed
qed

end

text \<open>What a prolongation reads as the time left of a value with expiry \<open>e\<close>, at the time \<open>t\<close>.\<close>

definition reads_left :: "int \<Rightarrow> int option \<Rightarrow> int \<Rightarrow> bool" where
  "reads_left t e old \<longleftrightarrow>
     (case e of None \<Rightarrow> old = - 1 | Some till \<Rightarrow> \<exists>n \<ge> 0. old = n * Second \<and> \<bar>n * 1000 - (till - t)\<bar> < 1000)"

text \<open>The store after \<open>EXPIRE\<close> with a duration \<open>d\<close> on a value that is there.\<close>

definition expiring :: "int \<Rightarrow> string \<Rightarrow> bytes \<Rightarrow> int \<Rightarrow> value_store \<Rightarrow> value_store" where
  "expiring t c v d M = M(c := if 0 < expire_secs d then Some (v, Some (t + expire_secs d * 1000)) else None)"

lemma prolong_forever_step:
  fixes L :: libs and m :: ProlongValueRequest
  defines "d \<equiv> AsDuration L (pv_Ttl m)"
  assumes d: "0 < d" "d \<le> int64_max" and n: "pv_Name m = value_key c" and M: "M c = Some (v, None)" and old: "reads_left t None old"
  shows "value_step L t (MProlongValue m) M (Ok (RProlongValue \<lparr>pvr_Name = value_key c, pvr_Ttl = ttl\<rparr>)) (expiring t c v (wrap64 (d + old)) M)"
proof -
  have o: "wrap64 (d + old) = d - 1" using old d by (simp add: reads_left_def in_int64_def int64_min_def)
  show ?thesis
  proof (cases "d = 1")
    case True
    with o value_step.prolong_forever_gone [where M = M, OF True [unfolded d_def] n M] show ?thesis
      by (simp add: expiring_def expire_secs_def)
  next
    case False
    with d have "1 < d" "0 < expire_secs (d - 1)" using expire_secs_bounds(1) by simp_all
    with o value_step.prolong_forever [where M = M, OF _ n M] show ?thesis by (simp add: expiring_def d_def)
  qed
qed

lemma prolong_till_step:
  fixes L :: libs and m :: ProlongValueRequest
  defines "d \<equiv> AsDuration L (pv_Ttl m)"
  assumes d: "0 < d" "d \<le> int64_max" and n: "pv_Name m = value_key c" and M: "M c = Some (v, Some till)"
    and old: "reads_left t (Some till) old" and f: "(till - t + 1000) * Millisecond \<le> int64_max"
  shows "value_step L t (MProlongValue m) M (Ok (RProlongValue \<lparr>pvr_Name = value_key c, pvr_Ttl = ttl\<rparr>)) (expiring t c v (wrap64 (d + old)) M)"
proof -
  obtain q where q: "0 \<le> q" "old = q * Second" "\<bar>q * 1000 - (till - t)\<bar> < 1000" using old by (auto simp: reads_left_def)
  show ?thesis
  proof (cases "d + old \<le> int64_max")
    case True
    have pos: "0 < d + old" using d q(1,2) by (simp add: Second_def)
    with True have o: "wrap64 (d + old) = d + old" by (intro wrap64_id) (simp add: in_int64_def int64_min_def)
    note b = expire_secs_bounds [OF pos]
    have "prolonged d till (t + expire_secs (d + old) * 1000)"
      using b(2,3) q by (simp add: prolonged_def duration_defs)
    moreover have "d + (till - t - 1000) * Millisecond \<le> int64_max" using True q by (simp add: duration_defs)
    ultimately show ?thesis
      using value_step.prolong_ok [where M = M, OF d(1) [unfolded d_def] n M] b(1) by (simp add: expiring_def o [unfolded d_def] d_def)
  next
    case False
    have "d + old \<le> 2 * int64_max" using d(2) f q by (simp add: duration_defs)
    moreover have "int64_max < d + old" using False by simp
    ultimately have "wrap64 (d + old) < 0" using wrap64_over by blast
    then have "expire_secs (wrap64 (d + old)) \<le> 0" by (rule expire_secs_neg)
    moreover have "int64_max < d + (till - t + 1000) * Millisecond" using False q by (simp add: duration_defs)
    ultimately show ?thesis
      using value_step.prolong_overflow [where M = M, OF d(1) [unfolded d_def] n M] by (simp add: expiring_def d_def)
  qed
qed

context redis_contract
begin

lemma expire_values:
  assumes "up s" and "view s (value_key c) = Some (RStr v, e)"
  shows "values_of (view (snd (rExpire R (value_key c) d s))) = expiring (clock s) c v d (values_of (view s))"
  using expire_some [OF assms, of d] expire_past [OF assms, of d]
  by (cases "0 < expire_secs d") (simp_all add: expiring_def values_of_update values_of_delete)

text \<open>A prolongation of a key that is there and small enough: what \<open>EXPIRE\<close> is sent.\<close>

lemma ProlongValue_live:
  assumes u: "up s" and d: "0 < AsDuration L (pv_Ttl m)" and k: "view s (pv_Name m) = Some (x, e)"
  shows "ProlongValue L R m s = (Err (Status PermissionDenied ''value size exceeded''), snd (rMemoryUsage R (pv_Name m) s)) \<or>
    (\<exists>old s2 ttl. up s2 \<and> view s2 = view s \<and> clock s2 = clock s \<and> reads_left (clock s) e old \<and>
       ProlongValue L R m s = (Ok \<lparr>pvr_Name = pv_Name m, pvr_Ttl = ttl\<rparr>,
         snd (rExpire R (pv_Name m) (wrap64 (AsDuration L (pv_Ttl m) + old)) s2)))"
proof -
  let ?s1 = "snd (rMemoryUsage R (pv_Name m) s)"
  let ?s2 = "snd (rTTL R (pv_Name m) ?s1)"
  obtain n where n: "fst (rMemoryUsage R (pv_Name m) s) = Inr n" using mem_some [OF u, of "pv_Name m"] k by auto
  have s1: "up ?s1" "view ?s1 = view s" "clock ?s1 = clock s" using u by simp_all
  have s2: "up ?s2" "view ?s2 = view s" "clock ?s2 = clock s" using s1 by simp_all
  have "\<exists>old. fst (rTTL R (pv_Name m) ?s1) = Inr old \<and> reads_left (clock s) e old"
    using ttl_forever [OF s1(1), of "pv_Name m" x] ttl_some [OF s1(1), of "pv_Name m" x] s1(2,3) k
    by (cases e) (auto simp: reads_left_def)
  then obtain old where old: "fst (rTTL R (pv_Name m) ?s1) = Inr old" "reads_left (clock s) e old" by blast
  show ?thesis
  proof (cases "pv_MaxSize m < n")
    case True
    with n d show ?thesis by (simp add: ProlongValue_def case_prod_beta)
  next
    case False
    obtain b where "fst (rExpire R (pv_Name m) (wrap64 (AsDuration L (pv_Ttl m) + old)) ?s2) = Inr b"
      using expire_not_err [OF s2(1)] by blast
    from ProlongValue_eq [OF d n _ old(1) this] False s2 old(2) show ?thesis by (intro disjI2) auto
  qed
qed

lemma ProlongValue_step:
  assumes u: "up s" and w: "values_strings (view s)" and n: "pv_Name m = value_key c" and i: "AsDuration L (pv_Ttl m) \<le> int64_max"
    and f: "\<And>v till. values_of (view s) c = Some (v, Some till) \<Longrightarrow> (till - clock s + 1000) * Millisecond \<le> int64_max"
  shows "value_step L (clock s) (MProlongValue m) (values_of (view s)) (fst (lift_resp RProlongValue (ProlongValue L R m s)))
    (values_of (view (snd (ProlongValue L R m s))))"
proof (cases "0 < AsDuration L (pv_Ttl m)")
  case False
  with value_step.prolong_no_ttl [where M = "values_of (view s)"] show ?thesis by (simp add: ProlongValue_def)
next
  case d: True
  let ?M = "values_of (view s)"
  show ?thesis
  proof (cases "?M c")
    case None
    then have "view s (pv_Name m) = None" using values_of_None [OF w] n by simp
    from mem_none [OF u this] d u value_step.prolong_missing [where M = ?M, OF d n None] show ?thesis
      by (simp add: ProlongValue_def case_prod_beta)
  next
    case (Some p)
    obtain v e where p: "p = (v, e)" by (cases p)
    have M: "?M c = Some (v, e)" using Some p by simp
    then have k: "view s (value_key c) = Some (RStr v, e)" by (simp add: values_of_Some)
    from ProlongValue_live [OF u d, unfolded n, OF k] show ?thesis
    proof (elim disjE exE conjE)
      assume "ProlongValue L R m s = (Err (Status PermissionDenied ''value size exceeded''), snd (rMemoryUsage R (value_key c) s))"
      with u value_step.prolong_too_big [where M = ?M, OF d n] M show ?thesis by simp
    next
      fix old s2 ttl
      assume s2: "up s2" "view s2 = view s" "clock s2 = clock s" and old: "reads_left (clock s) e old"
        and P: "ProlongValue L R m s = (Ok \<lparr>pvr_Name = value_key c, pvr_Ttl = ttl\<rparr>,
          snd (rExpire R (value_key c) (wrap64 (AsDuration L (pv_Ttl m) + old)) s2))"
      from expire_values [OF s2(1)] k s2
      have x: "values_of (view (snd (ProlongValue L R m s))) = expiring (clock s) c v (wrap64 (AsDuration L (pv_Ttl m) + old)) ?M"
        unfolding P by simp
      show ?thesis
      proof (cases e)
        case None
        with prolong_forever_step [where M = ?M, OF d i n] M old x P show ?thesis by simp
      next
        case (Some till)
        with prolong_till_step [where M = ?M, OF d i n _ _ f] M old x P show ?thesis by simp
      qed
    qed
  qed
qed

end

subsection \<open>Every handler\<close>

text \<open>The other handlers, and the charge, leave the value keys as they are.\<close>

definition values_same :: "('r \<Rightarrow> keyspace) \<Rightarrow> ('r \<Rightarrow> bool) \<Rightarrow> 'r \<Rightarrow> 'r \<Rightarrow> bool" where
  "values_same view up s s' \<longleftrightarrow> up s' \<and> (\<forall>c. view s' (value_key c) = view s (value_key c))"

lemma values_sameD:
  assumes "values_same view up s s'"
  shows "values_of (view s') = values_of (view s)" and "values_strings (view s) \<Longrightarrow> values_strings (view s')"
  using assms by (auto simp: values_same_def values_strings_def intro: values_of_same)

context redis_contract
begin

lemma RegisterInstance_values:
  assumes u: "up s"
  shows "values_same view up s (snd (RegisterInstance L R now m s))"
proof -
  note f = Register_frame [OF u, of L now "ri_Advertisement m"]
  have "values_same view up s (snd (Register L R now (ri_Advertisement m) s))"
    using f by (auto simp: values_same_def only_index_def)
  moreover have "values_same view up s s" using u by (simp add: values_same_def)
  ultimately show ?thesis
    by (auto simp: RegisterInstance_def NewServeAllFileServing_def case_prod_beta split: sum.split)
qed

lemma CreateStreamValue_values:
  assumes u: "up s" and n: "HasPrefix (csv_Parent m) ''accounts/''"
  shows "values_same view up s (snd (CreateStreamValue L R now m s))"
proof -
  have "value_key c \<noteq> csv_Parent m" for c using accounts_key(2) [OF n] by metis
  with CreateStreamValue_other [OF u, of L now m] show ?thesis by (simp add: values_same_def)
qed

lemma ProlongValue_strings:
  assumes "up s" and "values_strings (view s)"
  shows "values_strings (view (snd (ProlongValue L R m s)))"
  using ProlongValue_other [OF assms(1), of L m] assms(2) unfolding values_strings_def by blast

lemma CreateValue_strings:
  assumes "up s" and "values_strings (view s)"
  shows "values_strings (view (snd (CreateValue L R m s)))"
  unfolding values_strings_def
proof (intro allI impI)
  fix c x e assume x: "view (snd (CreateValue L R m s)) (value_key c) = Some (x, e)"
  from CreateValue_other [OF assms(1), of L m] consider "view (snd (CreateValue L R m s)) (value_key c) = view s (value_key c)"
    | e' where "view (snd (CreateValue L R m s)) (value_key c) = Some (RStr (cv_Value m), e')" by blast
  then show "\<exists>v. x = RStr v" using x assms(2) by cases (auto simp: values_strings_def)
qed

end

text \<open>Durations and expiries are within the 64 bits of nanoseconds they are reckoned in.\<close>

definition value_times_ok :: "libs \<Rightarrow> int \<Rightarrow> message \<Rightarrow> value_store \<Rightarrow> bool" where
  "value_times_ok L t msg M \<longleftrightarrow>
     (\<forall>m. msg = MCreateValue m \<longrightarrow> 0 \<le> AsDuration L (cv_Ttl m)) \<and>
     (\<forall>m. msg = MProlongValue m \<longrightarrow> AsDuration L (pv_Ttl m) \<le> int64_max) \<and>
     (\<forall>c v till. M c = Some (v, Some till) \<longrightarrow> (till - t + 1000) * Millisecond \<le> int64_max)"

text \<open>The requests that get to their handler: known, valid and, where there is a charge, admitted by the ledger.\<close>

definition handled :: "'r world \<Rightarrow> Server \<Rightarrow> int \<Rightarrow> AnyRequest \<Rightarrow> ledger \<Rightarrow> bool" where
  "handled W srv now req l \<longleftrightarrow>
     routed req \<and> wValidate W (AnyMsg req) = None \<and>
     (open_door srv req \<or> (\<exists>i p. plan W srv now req = Inr (i, p) \<and> fst (ledger_charge i p l)))"

context service_world
begin

lemma svc_values_same:
  assumes u: "up s" and n: "well_named (AnyMsg req)"
    and other: "\<nexists>m. AnyMsg req = MCreateValue m" "\<nexists>m. AnyMsg req = MGetValue m" "\<nexists>m. AnyMsg req = MProlongValue m"
  shows "values_same view up s (snd (svc W srv uuid now cs req s))"
proof -
  have l [simp]: "snd (lift_resp f p) = snd p" for f :: "'b \<Rightarrow> response" and p :: "'b result \<times> 'r" by (cases p; cases "fst p") auto
  have v: "values_same view up s s2" if "up s2" "view s2 = view s" for s2 using that by (simp add: values_same_def)
  show ?thesis
  proof (cases "AnyMsg req")
    case (MCreateSession m)
    have "values_same view up s (snd (sm_CreateSession (wL W) (wR W) mgr jti q ttl s))" for mgr jti q ttl
      using create_sessions_only [OF u, of "wL W" mgr jti q ttl] u
      by (auto simp: values_same_def sessions_only_def sm_CreateSession_def Let_def case_prod_beta split: sum.split redis_any.split)
    moreover have "values_same view up s s" using u by (rule v) simp
    ultimately show ?thesis using MCreateSession
      by (auto simp: svc_def CreateSession_state split: option.split)
  next
    case (MCreateStreamValue m)
    with n have "HasPrefix (csv_Parent m) ''accounts/''" by simp
    from CreateStreamValue_values [OF u this] MCreateStreamValue show ?thesis by (simp add: svc_def)
  next
    case (MDelegatedRouting m)
    with v reads_searches(3,4) [OF u] show ?thesis
      by (auto simp: svc_def DelegatedRouting_def case_prod_beta split: result.split)
  qed (use other u RegisterInstance_values [OF u] reads_streams [OF u] reads_searches [OF u] in \<open>auto intro: v simp: svc_def Ping_def SearchCid_def\<close>)
qed

lemma svc_value_step:
  assumes u: "up s" and w: "values_strings (view s)" and n: "well_named (AnyMsg req)"
    and ok: "value_times_ok (wL W) (clock s) (AnyMsg req) (values_of (view s))"
  shows "value_step (wL W) (clock s) (AnyMsg req) (values_of (view s)) (fst (svc W srv uuid now cs req s))
      (values_of (view (snd (svc W srv uuid now cs req s)))) \<and>
    values_strings (view (snd (svc W srv uuid now cs req s)))"
proof -
  have l [simp]: "snd (lift_resp f p) = snd p" for f :: "'b \<Rightarrow> response" and p :: "'b result \<times> 'r" by (cases p; cases "fst p") auto
  consider (create) m where "AnyMsg req = MCreateValue m" | (get) m where "AnyMsg req = MGetValue m" | (prolong) m where "AnyMsg req = MProlongValue m"
    | (other) "\<nexists>m. AnyMsg req = MCreateValue m" "\<nexists>m. AnyMsg req = MGetValue m" "\<nexists>m. AnyMsg req = MProlongValue m" by blast
  then show ?thesis
  proof cases
    case create
    with ok have "0 \<le> AsDuration (wL W) (cv_Ttl m)" by (simp add: value_times_ok_def)
    from CreateValue_step [OF u this] CreateValue_strings [OF u w] create show ?thesis by (simp add: svc_def)
  next
    case get
    with GetValue_step [OF u w] GetValue_reads [OF u] w show ?thesis by (simp add: svc_def)
  next
    case prolong
    with n obtain c where c: "pv_Name m = value_key c" by (auto simp: HasPrefix_iff value_key_def)
    from ok prolong have "AsDuration (wL W) (pv_Ttl m) \<le> int64_max" by (simp add: value_times_ok_def)
    from ProlongValue_step [OF u w c this] ProlongValue_strings [OF u w] prolong ok show ?thesis
      by (simp add: svc_def value_times_ok_def)
  next
    case other
    with values_sameD [OF svc_values_same [OF u n other]] value_step.other [OF other] w show ?thesis by metis
  qed
qed

lemma deduct_values:
  assumes i: "service_inv (wL W) view up s" and a: "in_int64 a"
  shows "values_same view up s (snd (sm_DeductSessionBalance (wR W) j a s)) \<and> clock (snd (sm_DeductSessionBalance (wR W) j a s)) = clock s"
proof -
  have w: "sessions_wf view up s" "sessions_permanent (view s)" "up s" using i by (simp_all add: service_inv_def sessions_wf_def)
  have "up (snd (sm_DeductSessionBalance (wR W) j a s))" using deduct_inv [OF i a, of j] by (simp add: service_inv_def sessions_wf_def)
  moreover have "clock (snd (sm_DeductSessionBalance (wR W) j a s)) = clock s"
    using w(3) by (auto simp: sm_DeductSessionBalance_def case_prod_beta split: sum.split)
  ultimately show ?thesis using deduct_sessions_only [OF w(1,2) a, of j] by (simp add: values_same_def sessions_only_def)
qed

text \<open>What the validation and the handler do with a request once the charge, if there is one, has gone through.\<close>

lemma validated_value_step:
  fixes srv :: Server and uuid :: string and now :: int and cs :: "Session option"
  assumes w: "values_strings (view s)" and n: "well_named (AnyMsg req)"
    and ok: "value_times_ok (wL W) (clock s) (AnyMsg req) (values_of (view s))"
    and s1: "values_same view up s s1" "clock s1 = clock s"
  defines "r \<equiv> NewConnectValidationInterceptor (wValidate W) (svc W srv uuid) now cs req s1"
  shows "(if wValidate W (AnyMsg req) = None
     then value_step (wL W) (clock s) (AnyMsg req) (values_of (view s)) (fst r) (values_of (view (snd r)))
     else \<not> is_Ok (fst r) \<and> values_of (view (snd r)) = values_of (view s)) \<and> values_strings (view (snd r))"
proof -
  have "up s1" using s1(1) by (simp add: values_same_def)
  from svc_value_step [OF this values_sameD(2) [OF s1(1) w] n, of srv uuid now cs] ok values_sameD [OF s1(1)] s1(2) w
  show ?thesis by (simp add: r_def validation_pass)
qed

lemma serve_value_step:
  fixes srv :: Server and uuid :: string and now :: int
  assumes i: "service_inv (wL W) view up s" and w: "values_strings (view s)" and n: "well_named (AnyMsg req)"
    and ok: "value_times_ok (wL W) (clock s) (AnyMsg req) (values_of (view s))"
  defines "r \<equiv> serve W srv uuid now req s"
  shows "(if handled W srv now req (session_led view s)
     then value_step (wL W) (clock s) (AnyMsg req) (values_of (view s)) (fst r) (values_of (view (snd r)))
     else \<not> is_Ok (fst r) \<and> values_of (view (snd r)) = values_of (view s)) \<and> values_strings (view (snd r))"
proof -
  note f = validated_value_step [OF w n ok]
  have same: "values_same view up s s" using i by (simp add: values_same_def service_inv_def sessions_wf_def)
  consider (unknown) "\<not> routed req" | (free) "routed req" "open_door srv req"
    | (refused) x where "routed req" "\<not> open_door srv req" "plan W srv now req = Inl x"
    | (charged) j a where "routed req" "\<not> open_door srv req" "plan W srv now req = Inr (j, a)"
    by (cases "plan W srv now req") auto
  then show ?thesis
  proof cases
    case unknown
    with w show ?thesis by (simp add: r_def serve_plan handled_def)
  next
    case free
    with f [OF same refl, of srv uuid now None] show ?thesis by (auto simp: r_def serve_plan handled_def)
  next
    case refused
    with w gate_plan_Inl show ?thesis by (auto simp: r_def serve_plan handled_def plan_def)
  next
    case charged
    have a: "in_int64 a" using plan_ok charged(3) by blast
    let ?d = "sm_DeductSessionBalance (wR W) j a s"
    note d = deduct_values [OF i a, of j]
    have "is_Ok (fst ?d) = fst (ledger_charge j a (session_led view s))"
      using deduct_session_refines [OF _ a, of s j] i by (simp add: service_inv_def)
    then have h: "handled W srv now req (session_led view s) \<longleftrightarrow> wValidate W (AnyMsg req) = None \<and> is_Ok (fst ?d)"
      using charged by (simp add: handled_def)
    show ?thesis
    proof (cases "is_Ok (fst ?d)")
      case True
      then obtain x where x: "fst ?d = Ok x" by (cases "fst ?d") auto
      with charged have "r = NewConnectValidationInterceptor (wValidate W) (svc W srv uuid) now (Some x) req (snd ?d)"
        by (cases ?d) (simp add: r_def serve_plan)
      with f [of "snd ?d" srv uuid now "Some x"] d h True show ?thesis by simp
    next
      case False
      with charged have "\<not> is_Ok (fst r) \<and> snd r = snd ?d" by (cases ?d; cases "fst ?d") (auto simp: r_def serve_plan)
      with d h False values_sameD w show ?thesis by auto
    qed
  qed
qed

end

subsection \<open>Properties\<close>

text \<open>
  C15. The value handlers refine an abstract store. Over any Redis that keeps its contract a request that is known, valid and, where
  there is a charge, admitted by the ledger ends in one of the ways of \<open>value_step\<close>, with the answer and the new contents and expiries that it says,
  errors included: a value is stored under its own identifier with the life asked for, whatever life it had before; it is
  read under any spelling of its identifier; a prolongation moves its expiry by the time asked for to within two seconds, or, past 64 bits of
  nanoseconds, removes it, and gives a value without an expiry one. Every other request leaves the store as it is, and if it does
  not get to its handler its answer is an error.
\<close>

theorem values_refine_store:
  assumes "service_world W view clock up decode verifies" and "service_inv (wL W) view up s" and "values_strings (view s)"
    and "well_named (AnyMsg req)" and "value_times_ok (wL W) (clock s) (AnyMsg req) (values_of (view s))"
    and "serve W srv uuid now req s = (r, s')"
  shows "(if handled W srv now req (session_led view s)
      then value_step (wL W) (clock s) (AnyMsg req) (values_of (view s)) r (values_of (view s'))
      else \<not> is_Ok r \<and> values_of (view s') = values_of (view s)) \<and> values_strings (view s')"
  using service_world.serve_value_step [OF assms(1-5), where srv = srv and uuid = uuid and now = now] unfolding assms(6) fst_conv snd_conv .

inductive_cases create_stepE: "value_step L t (MCreateValue m) M r M'"

definition demo_store_request :: AnyRequest where
  "demo_store_request = \<lparr>Procedure = CreateValueProcedure, AuthorizationHeader = [], AnyMsg = MCreateValue demo_create\<rparr>"

lemma demo_create_ttl: "AsDuration demo_libs (cv_Ttl demo_create) = 60 * Second"
  using demo_duration_exact by (simp add: demo_create_def duration_exact_def Second_def in_int64_def int64_min_def int64_max_def)

theorem values_refine_store_witness:
  "\<exists>r s' c. serve demo_world demo_open_server ''uuid'' 0 demo_store_request demo_mem = (r, s') \<and>
     r = Ok (RCreateValue \<lparr>cvr_Name = value_key c, cvr_Ttl = cv_Ttl demo_create\<rparr>) \<and> values_of (mkeys s') c = Some (''hello'', Some 61000)"
proof -
  obtain r s' where v: "serve demo_world demo_open_server ''uuid'' 0 demo_store_request demo_mem = (r, s')"
    by (cases "serve demo_world demo_open_server ''uuid'' 0 demo_store_request demo_mem")
  have m: "AnyMsg demo_store_request = MCreateValue demo_create" by (simp add: demo_store_request_def)
  have w: "values_strings (mkeys demo_mem)" "values_of (mkeys demo_mem) = Map.empty"
    by (auto simp: values_strings_def values_of_def demo_mem_def fun_eq_iff)
  have o: "value_times_ok (wL demo_world) (mclock demo_mem) (AnyMsg demo_store_request) (values_of (mkeys demo_mem))"
    by (simp add: value_times_ok_def w(2) m demo_create_ttl Second_def)
  have h: "handled demo_world demo_open_server 0 demo_store_request l" for l
    by (simp add: handled_def routed_def procedures_def demo_store_request_def open_door_def demo_open_server_def)
  have i: "service_inv (wL demo_world) mkeys mup demo_mem" using demo_mem_inv by simp
  have "well_named (AnyMsg demo_store_request)" by (simp add: m)
  from values_refine_store [OF demo.service_world_axioms i w(1) this o v] h
  have "value_step demo_libs (mclock demo_mem) (MCreateValue demo_create) Map.empty r (values_of (mkeys s'))" by (simp add: m w(2))
  then have "\<exists>c. r = Ok (RCreateValue \<lparr>cvr_Name = value_key c, cvr_Ttl = cv_Ttl demo_create\<rparr>) \<and>
      values_of (mkeys s') c = Some (cv_Value demo_create, set_expiry (mclock demo_mem) (60 * Second))"
    using demo_calculateCid by (elim create_stepE) (auto simp: demo_create_ttl)
  moreover have "cv_Value demo_create = ''hello''" "set_expiry (mclock demo_mem) (60 * Second) = Some 61000"
    by (simp_all add: demo_create_def set_expiry_def demo_mem_def Second_def Millisecond_def)
  ultimately show ?thesis using v by auto
qed

text \<open>
  Storing content that is there already replaces its expiry, so whoever can name the content can also end its life early: a value
  that others have paid to keep for longer expires with the life the last \<open>CreateValue\<close> asked for.
\<close>

theorem recreating_cuts_life:
  assumes "redis_contract R view clock up" and "up s" and "calculateCid L m = Ok c" and "Millisecond \<le> AsDuration L (cv_Ttl m)"
    and "values_of (view s) c = Some (cv_Value m, Some till)" and "clock s + AsDuration L (cv_Ttl m) div Millisecond < till"
  shows "\<exists>till'. values_of (view (snd (CreateValue L R m s))) c = Some (cv_Value m, Some till') \<and> till' < till"
proof -
  have d: "0 \<le> AsDuration L (cv_Ttl m)" "0 < AsDuration L (cv_Ttl m)" "1 \<le> AsDuration L (cv_Ttl m) div Millisecond"
    using assms(4) by (simp_all add: Millisecond_def)
  from redis_contract.CreateValue_effect [OF assms(1,2) d(1) assms(3)] d(2,3) assms(6) show ?thesis
    by (simp add: values_of_update set_expiry_def max_def)
qed

end
