(* ===== verification/Mail_Service.thy ===== *)
theory Mail_Service
  imports Mail Value_Store
begin

section \<open>The mail example over the whole service\<close>

text \<open>
  The connections of the example (\<open>examples/email\<close>) lead to the whole service, its router and its interceptors
  included (\<open>service_client\<close>). What one process seals can be opened by a later one, if it is stored; but the example
  never stores it, and the mailboxes it names are not those the service serves.
\<close>

subsection \<open>Connections to the service\<close>

text \<open>What a gRPC client makes of an answer; a handler that panics breaks the connection.\<close>

fun reply :: "(response \<Rightarrow> 'a option) \<Rightarrow> response result \<times> 'r \<Rightarrow> (go_error + 'a) \<times> 'r" where
  "reply f (Ok r, s) = ((case f r of Some x \<Rightarrow> Inr x | None \<Rightarrow> Inl (LibErr ''unexpected message'')), s)"
| "reply f (Err e, s) = (Inl e, s)"
| "reply f (Panic m, s) = (Inl (LibErr m), s)"

text \<open>The methods of the client the example calls, each of which sends its request to the service, at some time.\<close>

definition service_client :: "'r world \<Rightarrow> Server \<Rightarrow> string \<Rightarrow> int \<Rightarrow> 'r grpc_client" where
  "service_client W srv uuid now =
     (let call = (\<lambda>ctx m. serve W srv uuid now \<lparr>Procedure = request_procedure m, AuthorizationHeader = ctx, AnyMsg = m\<rparr>)
      in \<lparr>g_CreateValue = (\<lambda>ctx req s. reply (\<lambda>r. case r of RCreateValue x \<Rightarrow> Some x | _ \<Rightarrow> None) (call ctx (MCreateValue req) s)),
          g_GetValue = (\<lambda>ctx req s. reply (\<lambda>r. case r of RGetValue x \<Rightarrow> Some x | _ \<Rightarrow> None) (call ctx (MGetValue req) s)),
          g_CreateStreamValue = (\<lambda>ctx req s. reply (\<lambda>r. case r of RCreateStreamValue x \<Rightarrow> Some x | _ \<Rightarrow> None) (call ctx (MCreateStreamValue req) s)),
          g_ListStreamValues = (\<lambda>ctx req s. reply (\<lambda>r. case r of RListStreamValues x \<Rightarrow> Some x | _ \<Rightarrow> None) (call ctx (MListStreamValues req) s)),
          g_CreateSession = (\<lambda>ctx req s. reply (\<lambda>r. case r of RCreateSession x \<Rightarrow> Some x | _ \<Rightarrow> None) (call ctx (MCreateSession req) s))\<rparr>)"

definition over_service :: "'r mail_libs \<Rightarrow> 'r world \<Rightarrow> Server \<Rightarrow> bool" where
  "over_service E W srv \<longleftrightarrow> (\<forall>addr c. dial E addr = Inr c \<longrightarrow> (\<exists>uuid now. c = service_client W srv uuid now))"

text \<open>What is answered without an error has been valid and has been answered so by its handler.\<close>

lemma serve_Ok_method:
  assumes "serve W srv uuid now req s = (Ok r, s')"
  obtains cs t where "wValidate W (AnyMsg req) = None" and "svc W srv uuid now cs req t = (Ok r, s')"
proof -
  have v: "wValidate W (AnyMsg req) = None \<and> svc W srv uuid now cs req t = (Ok r, s')"
    if "NewConnectValidationInterceptor (wValidate W) (svc W srv uuid) now cs req t = (Ok r, s')" for cs t
    using that by (auto simp: validation_pass split: if_splits)
  have "routed req" using assms by (simp add: serve_plan split: if_splits)
  show thesis
  proof (cases "open_door srv req")
    case True
    with assms \<open>routed req\<close> v that show thesis by (auto simp: serve_plan)
  next
    case False
    with assms \<open>routed req\<close> v that gate_plan_Inl [of GetPrice "VerifyAndParseJwt (wJ W) (srv_authmanager srv)" now req "Ok r"]
    show thesis by (auto simp: serve_plan plan_def split: sum.splits prod.splits result.splits)
  qed
qed

subsection \<open>Content\<close>

lemma reply_Inr:
  assumes "reply f p = (Inr x, s')"
  obtains r where "p = (Ok r, s')" and "f r = Some x"
  using assms by (cases p; cases "fst p") (auto split: option.splits)

lemma service_CreateValue:
  assumes "g_CreateValue (service_client W srv uuid now) ctx req s = (Inr x, s1)"
  shows "serve W srv uuid now \<lparr>Procedure = CreateValueProcedure, AuthorizationHeader = ctx, AnyMsg = MCreateValue req\<rparr> s = (Ok (RCreateValue x), s1)"
  using assms by (auto simp: service_client_def Let_def elim!: reply_Inr split: response.splits)

text \<open>The service stores content with a codec only.\<close>

lemma service_needs_codec:
  "g_CreateValue (service_client W srv uuid now) ctx \<lparr>cv_Codec = CODEC_UNSPECIFIED, cv_Value = v, cv_Ttl = t\<rparr> s \<noteq> (Inr x, s1)"
proof
  assume "g_CreateValue (service_client W srv uuid now) ctx \<lparr>cv_Codec = CODEC_UNSPECIFIED, cv_Value = v, cv_Ttl = t\<rparr> s = (Inr x, s1)"
  from service_CreateValue [OF this] obtain cs u where
    "svc W srv uuid now cs \<lparr>Procedure = CreateValueProcedure, AuthorizationHeader = ctx,
        AnyMsg = MCreateValue \<lparr>cv_Codec = CODEC_UNSPECIFIED, cv_Value = v, cv_Ttl = t\<rparr>\<rparr> u = (Ok (RCreateValue x), s1)"
    by (rule serve_Ok_method)
  then show False by (simp add: svc_def unspecified_rejected)
qed

lemma SendContent_fails:
  assumes "over_service E W srv"
  shows "\<not> is_Ok (fst (SendContent E m ctx sender recipient message s))"
proof -
  have d: "\<not> is_Ok (fst (DoSendContent c ctx message s))" if g: "NewGrpcClient E host port = Ok c" for c host port message
  proof -
    from NewGrpcClient_Ok [OF g] assms obtain uuid now where "c = service_client W srv uuid now" unfolding over_service_def by blast
    then show ?thesis using service_needs_codec [of W srv uuid now ctx message None s]
      by (auto simp: DoSendContent_def split: prod.split sum.split)
  qed
  show ?thesis
    by (cases m) (auto simp: Traditional_SendContent_def PGP_SendContent_sealed d split: result.split sum.split)
qed

inductive_cases get_stepE: "value_step L t (MGetValue m) M r M'"

text \<open>What the service has stored it serves, as long as it has not expired.\<close>

context service_world
begin

lemma stored_is_served:
  assumes cid: "cid_roundtrip (wL W)" and i: "service_inv (wL W) view up s" and w: "values_strings (view s)"
    and ok: "value_times_ok (wL W) (clock s) (MCreateValue creq) (values_of (view s))"
    and c: "serve W srv uuid now \<lparr>Procedure = CreateValueProcedure, AuthorizationHeader = header, AnyMsg = MCreateValue creq\<rparr> s =
      (Ok (RCreateValue resp), s1)"
    and e: "elapse view clock up s1 s2" and t: "unexpired (clock s2) (set_expiry (clock s) (AsDuration (wL W) (cv_Ttl creq)))"
    and ok2: "value_times_ok (wL W) (clock s2) (MGetValue \<lparr>gv_Name = cvr_Name resp\<rparr>) (values_of (view s2))"
    and h: "handled W srv now' \<lparr>Procedure = GetValueProcedure, AuthorizationHeader = ctx, AnyMsg = MGetValue \<lparr>gv_Name = cvr_Name resp\<rparr>\<rparr>
      (session_led view s2)"
  shows "fst (serve W srv uuid' now' \<lparr>Procedure = GetValueProcedure, AuthorizationHeader = ctx, AnyMsg = MGetValue \<lparr>gv_Name = cvr_Name resp\<rparr>\<rparr> s2) =
    Ok (RGetValue \<lparr>gvr_Value = cv_Value creq\<rparr>)"
proof -
  let ?create = "\<lparr>Procedure = CreateValueProcedure, AuthorizationHeader = header, AnyMsg = MCreateValue creq\<rparr>"
  let ?get = "\<lparr>Procedure = GetValueProcedure, AuthorizationHeader = ctx, AnyMsg = MGetValue \<lparr>gv_Name = cvr_Name resp\<rparr>\<rparr>"
  have n: "well_named (AnyMsg ?create)" "well_named (AnyMsg ?get)" by simp_all
  note v = serve_value_step [OF i w n(1), where srv = srv and uuid = uuid and now = now, unfolded c]
  have "value_step (wL W) (clock s) (MCreateValue creq) (values_of (view s)) (Ok (RCreateValue resp)) (values_of (view s1))"
    and w1: "values_strings (view s1)"
    using v ok by (auto split: if_splits)
  then obtain k where k: "calculateCid (wL W) creq = Ok k" "cvr_Name resp = value_key k"
      "values_of (view s1) k = Some (cv_Value creq, set_expiry (clock s) (AsDuration (wL W) (cv_Ttl creq)))"
    by (elim create_stepE) auto
  have i1: "service_inv (wL W) view up s1" using serve_effect [OF i n(1) c] by blast
  have p: "view s2 = purge (clock s2) (view s1)" using e by (simp add: elapse_def)
  have live: "\<exists>v. x = RStr v" if "live_val t (RStr u) = Some x" for t u x using that by auto
  have w2: "values_strings (view s2)"
    using w1 live by (fastforce simp: values_strings_def p purge_def split: option.splits if_splits)
  have k2: "values_of (view s2) k = Some (cv_Value creq, set_expiry (clock s) (AsDuration (wL W) (cv_Ttl creq)))"
    using k(3) t by (simp add: values_of_Some p purge_str)
  have "value_step (wL W) (clock s2) (MGetValue \<lparr>gv_Name = cvr_Name resp\<rparr>) (values_of (view s2))
      (fst (serve W srv uuid' now' ?get s2)) (values_of (view (snd (serve W srv uuid' now' ?get s2))))"
    using serve_value_step [OF elapse_inv(1) [OF e i1] w2 n(2), where srv = srv and uuid = uuid' and now = now'] ok2 h by simp
  moreover have "HasPrefix (value_key k) ''values/''" by (simp add: value_key_def HasPrefix_def)
  ultimately show ?thesis
    using k2 normalize_of_value [OF cid k(1)] by (elim get_stepE) (auto simp: k(2))
qed

end

subsection \<open>Mailboxes\<close>

text \<open>
  The patterns of the message definitions, which the validator enforces: a stream's name contains
  \<open>accounts/did:\<close> and, after it, \<open>/streams/\<close>.
\<close>

definition has_infix :: "string \<Rightarrow> string \<Rightarrow> bool" where
  "has_infix s p \<longleftrightarrow> list_ex (\<lambda>k. HasPrefix (drop k s) p) [0..<Suc (length s)]"

definition did_stream :: "string \<Rightarrow> bool" where
  "did_stream s \<longleftrightarrow>
     list_ex (\<lambda>k. HasPrefix (drop k s) ''accounts/did:'' \<and> has_infix (drop (k + 13) s) ''/streams/'') [0..<Suc (length s)]"

definition enforces_patterns :: "(message \<Rightarrow> go_error option) \<Rightarrow> bool" where
  "enforces_patterns validate \<longleftrightarrow>
     (\<forall>m. validate (MCreateStreamValue m) = None \<longrightarrow> did_stream (csv_Parent m)) \<and>
     (\<forall>m. validate (MListStreamValues m) = None \<longrightarrow> did_stream (ls_Parent m))"

lemma has_infixD:
  assumes "has_infix s p"
  obtains pre post where "s = pre @ p @ post"
proof -
  obtain k where "HasPrefix (drop k s) p" using assms unfolding has_infix_def list_ex_iff by blast
  then obtain post where "drop k s = p @ post" by (auto simp: HasPrefix_iff)
  then have "s = take k s @ p @ post" by (metis append_take_drop_id)
  then show thesis by (rule that)
qed

lemma did_streamD:
  assumes "did_stream s"
  obtains pre a b where "s = pre @ ''accounts/did:'' @ a @ ''/streams/'' @ b"
proof -
  obtain k where k: "HasPrefix (drop k s) ''accounts/did:''" "has_infix (drop (k + 13) s) ''/streams/''"
    using assms unfolding did_stream_def list_ex_iff by blast
  obtain t where t: "drop k s = ''accounts/did:'' @ t" using k(1) by (auto simp: HasPrefix_iff)
  have "drop (k + 13) s = drop 13 (drop k s)" by (simp add: add.commute)
  also have "\<dots> = t" unfolding t by simp
  finally obtain a b where "t = a @ ''/streams/'' @ b" using k(2) by (auto elim: has_infixD)
  with t have "s = take k s @ ''accounts/did:'' @ a @ ''/streams/'' @ b" by (metis append_take_drop_id)
  then show thesis by (rule that)
qed

lemma before_slash:
  assumes "CHR ''/'' \<notin> set a"
  shows "takeWhile (\<lambda>c. c \<noteq> CHR ''/'') (a @ CHR ''/'' # x) = a"
  using assms by (induction a) auto

text \<open>A canonical name has three slashes, so it has the pattern only if its account is a DID.\<close>

lemma did_stream_owner:
  assumes "did_stream (''accounts/'' @ a @ ''/streams/'' @ b)" and "CHR ''/'' \<notin> set a" and "CHR ''/'' \<notin> set b"
  shows "HasPrefix a ''did:''"
proof -
  obtain pre x y where e: "''accounts/'' @ a @ ''/streams/'' @ b = pre @ ''accounts/did:'' @ x @ ''/streams/'' @ y"
    using did_streamD [OF assms(1)] .
  define n where "n s = length (filter (\<lambda>c. c = CHR ''/'') s)" for s :: string
  have n0: "n s = 0 \<longleftrightarrow> CHR ''/'' \<notin> set s" for s by (auto simp: n_def filter_empty_conv)
  have "n (''accounts/'' @ a @ ''/streams/'' @ b) = 3" using assms(2,3) n0 by (simp add: n_def)
  then have "n pre = 0" unfolding e by (simp add: n_def)
  then have p: "CHR ''/'' \<notin> set (pre @ ''accounts'')" by (simp add: n0)
  have "''accounts'' @ CHR ''/'' # (a @ ''/streams/'' @ b) = (pre @ ''accounts'') @ CHR ''/'' # (''did:'' @ x @ ''/streams/'' @ y)"
    using e by simp
  moreover have "CHR ''/'' \<notin> set ''accounts''" by simp
  ultimately have "''accounts'' = pre @ ''accounts''" using before_slash [OF p] before_slash [of "''accounts''"] by metis
  then have "pre = []" by simp
  with e have "a @ CHR ''/'' # (''streams/'' @ b) = ''did:'' @ x @ ''/streams/'' @ y" by simp
  then have "takeWhile (\<lambda>c. c \<noteq> CHR ''/'') (a @ CHR ''/'' # (''streams/'' @ b)) = ''did:'' @ takeWhile (\<lambda>c. c \<noteq> CHR ''/'') (x @ ''/streams/'' @ y)"
    by simp
  then have "a = ''did:'' @ takeWhile (\<lambda>c. c \<noteq> CHR ''/'') (x @ ''/streams/'' @ y)" unfolding before_slash [OF assms(2)] .
  then show ?thesis unfolding HasPrefix_iff by blast
qed

lemma stream_id_plain: "CHR ''/'' \<notin> set (stream_id k)"
  by (cases k) (simp_all add: stream_id_def)

lemma mailbox_owner:
  "did_stream (formatResourceParent k recipient) \<Longrightarrow> CHR ''/'' \<notin> set recipient \<Longrightarrow> HasPrefix recipient ''did:''"
  unfolding mailbox_name(1) by (rule did_stream_owner [OF _ _ stream_id_plain])

lemma ListMessages_fails:
  assumes "over_service E W srv" and "enforces_patterns (wValidate W)" and "CHR ''/'' \<notin> set email"
  shows "\<not> is_Ok (fst (ListMessages E m ctx email pageSize pageToken authToken s))"
proof -
  let ?req = "\<lparr>ls_Parent = formatResourceParent (tm_self m) email, ls_AuthToken = authToken, ls_PageSize = pageSize, ls_PageToken = pageToken\<rparr>"
  have "g_ListStreamValues c ctx ?req s \<noteq> (Inr x, s1)"
    if d: "NewGrpcClient E (tm_metadataServiceHost m) (tm_metadataServicePort m) = Ok c" for c x s1
  proof
    assume g: "g_ListStreamValues c ctx ?req s = (Inr x, s1)"
    obtain uuid now where "c = service_client W srv uuid now"
      using NewGrpcClient_Ok [OF d] assms(1) unfolding over_service_def by blast
    with g have "serve W srv uuid now \<lparr>Procedure = ListStreamValuesProcedure, AuthorizationHeader = ctx, AnyMsg = MListStreamValues ?req\<rparr> s =
        (Ok (RListStreamValues x), s1)"
      by (auto simp: service_client_def Let_def elim!: reply_Inr split: response.splits)
    then obtain cs t where v: "wValidate W (MListStreamValues ?req) = None"
      and l: "svc W srv uuid now cs \<lparr>Procedure = ListStreamValuesProcedure, AuthorizationHeader = ctx, AnyMsg = MListStreamValues ?req\<rparr> t =
        (Ok (RListStreamValues x), s1)"
      by (rule serve_Ok_method) simp
    from v assms(2) have "did_stream (ls_Parent ?req)" unfolding enforces_patterns_def by blast
    then have "HasPrefix email ''did:''" using mailbox_owner assms(3) by simp
    then have "CHR '':'' \<in> set email" by (auto simp: HasPrefix_iff)
    have "ListStreamValues (wR W) verify now ?req t = (Err (Status InvalidArgument ''failed to parse resource name: %v''), t)" for verify
      by (rule did_owner_rejected [OF _ assms(3) stream_id_plain \<open>CHR '':'' \<in> set email\<close>]) (simp only: mailbox_name(1) ListStreamValuesRequest.simps)
    with l show False by (simp add: svc_def)
  qed
  then show ?thesis
    by (auto simp: ListMessages_def Let_def split: result.split prod.split sum.split)
qed

lemma SendMetadata_needs_did:
  assumes "over_service E W srv" and "enforces_patterns (wValidate W)" and "CHR ''/'' \<notin> set recipient"
    and "SendMetadata E m ctx sender recipient (name # names) s = (Ok (), s')"
  shows "HasPrefix recipient ''did:''"
proof -
  obtain c where c: "NewGrpcClient E (tm_metadataServiceHost m) (tm_metadataServicePort m) = Ok c"
    using assms(4) by (auto simp: SendMetadata_def Let_def split: result.splits)
  with assms(4) obtain b x s1 where
    g: "g_CreateStreamValue c ctx \<lparr>csv_Parent = formatResourceParent (tm_self m) recipient, csv_Value = b\<rparr> s = (Inr x, s1)"
    by (auto simp: SendMetadata_def Let_def split: sum.splits prod.splits)
  obtain uuid now where "c = service_client W srv uuid now"
    using NewGrpcClient_Ok [OF c] assms(1) unfolding over_service_def by blast
  with g obtain r where "serve W srv uuid now \<lparr>Procedure = CreateStreamValueProcedure, AuthorizationHeader = ctx,
      AnyMsg = MCreateStreamValue \<lparr>csv_Parent = formatResourceParent (tm_self m) recipient, csv_Value = b\<rparr>\<rparr> s = (Ok r, s1)"
    by (auto simp: service_client_def Let_def elim!: reply_Inr)
  then have "wValidate W (MCreateStreamValue \<lparr>csv_Parent = formatResourceParent (tm_self m) recipient, csv_Value = b\<rparr>) = None"
    by (rule serve_Ok_method) simp
  with assms(2) have "did_stream (csv_Parent \<lparr>csv_Parent = formatResourceParent (tm_self m) recipient, csv_Value = b\<rparr>)"
    unfolding enforces_patterns_def by blast
  then show ?thesis using mailbox_owner assms(3) by simp
qed

subsection \<open>Properties\<close>

text \<open>
  C30. What is sealed can be opened by a later process, if the service stores it. Let the end-to-end messager of one process
  seal a message: its \<open>SendContent\<close> hands over bytes \<open>b\<close>, and nothing of the message besides. If a \<open>CreateValue\<close> request with the
  value \<open>b\<close> is answered by the service without an error, then, as long as its time to live has not passed, \<open>FetchMessage\<close> in a
  later process on the same machine, which finds the keys that the first one generated in its files, returns the message byte
  for byte and with a verified signature for the name in the answer, over a connection to the whole service, if the
  request it sends is known, valid and can be paid. The request has to name a codec; the one that \<open>SendContent\<close> makes does not.
\<close>

theorem sealed_mail_readable:
  assumes "service_world W view clock up decode verifies" and "cid_roundtrip (wL W)" and "pgp_laws E K" and "armor_reads K"
    and "NewPGPE2EEMessager K mh mp ch cp fs = (Ok m, fs1)" and "NewPGPE2EEMessager K mh' mp' ch' cp' fs1 = (Ok m', fs2)"
    and "sealed E (pm_keyBroker m) (em_Sender info) (em_Recipient info) message = Inr b"
    and "service_inv (wL W) view up s" and "values_strings (view s)"
    and "value_times_ok (wL W) (clock s) (MCreateValue creq) (values_of (view s))" and "cv_Value creq = b"
    and "serve W srv uuid now \<lparr>Procedure = CreateValueProcedure, AuthorizationHeader = header, AnyMsg = MCreateValue creq\<rparr> s =
      (Ok (RCreateValue resp), s1)"
    and "elapse view clock up s1 s2" and "unexpired (clock s2) (set_expiry (clock s) (AsDuration (wL W) (cv_Ttl creq)))"
    and "em_ContentResourceName info = cvr_Name resp"
    and "dial E (address mh' mp') = Inr (service_client W srv uuid' now')"
    and "value_times_ok (wL W) (clock s2) (MGetValue \<lparr>gv_Name = cvr_Name resp\<rparr>) (values_of (view s2))"
    and "handled W srv now' \<lparr>Procedure = GetValueProcedure, AuthorizationHeader = ctx, AnyMsg = MGetValue \<lparr>gv_Name = cvr_Name resp\<rparr>\<rparr>
      (session_led view s2)"
  shows "(\<forall>c t. NewGrpcClient E ch cp = Ok c \<longrightarrow>
      PGP_SendContent E m ctx (em_Sender info) (em_Recipient info) message t = DoSendContent c ctx b t) \<and>
    fst (PGP_FetchMessage E m' ctx info s2) = Ok (message, None)"
proof
  have m: "pm_contentServiceHost m = ch" "pm_contentServicePort m = cp" "pm_TraditionalMessager m' =
      \<lparr>tm_metadataServiceHost = mh', tm_metadataServicePort = mp', tm_self = KPGPE2EE\<rparr>"
    using assms(5,6) by (auto simp: NewPGPE2EEMessager_Ok)
  show "\<forall>c t. NewGrpcClient E ch cp = Ok c \<longrightarrow>
      PGP_SendContent E m ctx (em_Sender info) (em_Recipient info) message t = DoSendContent c ctx b t"
    by (simp add: PGP_SendContent_sealed m(1,2) assms(7))
  let ?get = "\<lparr>Procedure = GetValueProcedure, AuthorizationHeader = ctx, AnyMsg = MGetValue \<lparr>gv_Name = cvr_Name resp\<rparr>\<rparr>"
  have get: "fst (serve W srv uuid' now' ?get s2) = Ok (RGetValue \<lparr>gvr_Value = b\<rparr>)"
    using service_world.stored_is_served [OF assms(1,2,8,9,10,12-14,17,18)] assms(11) by simp
  then obtain s3 where s3: "serve W srv uuid' now' ?get s2 = (Ok (RGetValue \<lparr>gvr_Value = b\<rparr>), s3)"
    by (cases "serve W srv uuid' now' ?get s2") simp
  have "NewGrpcClient E mh' mp' = Ok (service_client W srv uuid' now')"
    using assms(16) by (simp add: NewGrpcClient_def address_def)
  with s3 have f: "DoFetchMessage E (pm_TraditionalMessager m') ctx info s2 = (Ok b, s3)"
    by (simp add: DoFetchMessage_def m(3) assms(15) service_client_def Let_def)
  note k = later_messager [OF assms(4-6)]
  from sealed_opens [OF assms(3) _ _ f] k assms(7) show "fst (PGP_FetchMessage E m' ctx info s2) = Ok (message, None)" by simp
qed

definition demo_kept :: "int \<Rightarrow> mem" where
  "demo_kept t = \<lparr>mclock = t, mkeys = [value_key demo_cid \<mapsto> (RStr ''hello'', Some 60000)]\<rparr>"

lemma demo_kept_inv: "t < 60000 \<Longrightarrow> service_inv demo_libs mkeys mup (demo_kept t)"
proof -
  assume t: "t < 60000"
  have "values_intact demo_libs (mkeys (demo_kept t))"
    using demo_calculateCid
    by (auto simp: values_intact_def demo_create_def demo_kept_def intro!: exI [of _ demo_create] split: if_splits)
  moreover have "index_wf (mkeys (demo_kept t))"
    by (auto simp: index_wf_def demo_kept_def value_key_def index_key_def intro: key_typed_other split: if_splits)
  ultimately show ?thesis
    using t by (auto simp: service_inv_def sessions_wf_def sessions_permanent_def mup_def demo_kept_def split: if_splits)
qed

definition demo_nothing :: mem where
  "demo_nothing = \<lparr>mclock = 0, mkeys = Map.empty\<rparr>"

lemma demo_nothing_ok:
  "service_inv demo_libs mkeys mup demo_nothing" "values_strings (mkeys demo_nothing)" "values_of (mkeys demo_nothing) = Map.empty"
proof -
  have "index_wf (mkeys demo_nothing)" by (simp add: index_wf_def demo_nothing_def)
  then show "service_inv demo_libs mkeys mup demo_nothing"
    by (auto simp: service_inv_def sessions_wf_def sessions_permanent_def values_intact_def mup_def demo_nothing_def)
qed (auto simp: values_strings_def values_of_def demo_nothing_def fun_eq_iff)

lemma demo_kept_served:
  "serve demo_world demo_open_server ''uuid'' 0 demo_store_request demo_nothing =
     (Ok (RCreateValue \<lparr>cvr_Name = value_key demo_cid, cvr_Ttl = cv_Ttl demo_create\<rparr>), demo_kept 0)"
proof -
  have "routed demo_store_request" "open_door demo_open_server demo_store_request"
    by (simp_all add: routed_def open_door_def procedures_def demo_store_request_def demo_open_server_def)
  then show ?thesis
    using demo_created [of 0] by (simp add: serve_plan validation_pass svc_def demo_store_request_def demo_nothing_def demo_kept_def)
qed

theorem sealed_mail_readable_witness:
  "\<exists>m' fs. NewPGPE2EEMessager demo_keys ''h'' 1 ''h'' 2 fs = (Ok m', fs) \<and>
     fst (PGP_FetchMessage (demo_mail (service_client demo_world demo_open_server ''uuid'' 0)) m' []
       (demo_letter\<lparr>em_ContentResourceName := value_key demo_cid\<rparr>) (demo_kept 59999)) = Ok (''hello'', None)"
proof -
  let ?fs = "[savePath ''alice'' \<mapsto> ''alice'', savePath ''bob'' \<mapsto> ''bob''] :: files"
  let ?E = "demo_mail (service_client demo_world demo_open_server ''uuid'' 0)"
  let ?info = "demo_letter\<lparr>em_ContentResourceName := value_key demo_cid\<rparr>"
  let ?get = "\<lparr>Procedure = GetValueProcedure, AuthorizationHeader = [], AnyMsg = MGetValue \<lparr>gv_Name = value_key demo_cid\<rparr>\<rparr>"
  have l: "pgp_laws ?E demo_keys" "armor_reads demo_keys"
    by (auto simp: pgp_laws_def armor_reads_def demo_mail_def demo_keys_def)
  obtain m where m: "NewPGPE2EEMessager demo_keys ''h'' 1 ''h'' 2 Map.empty = (Ok m, ?fs)"
    "NewPGPE2EEMessager demo_keys ''h'' 1 ''h'' 2 ?fs = (Ok m, ?fs)"
    "privateKeyStorate (pm_keyBroker m) ''alice@op1.com'' = Some ''alice''" "publicKeyStorate (pm_keyBroker m) ''bob@op2.com'' = Some ''pubbob''"
    by (simp add: NewPGPE2EEMessager_def Broker_Init_def newUser_def storedKey_def addKeys_def demo_keys_def)
  have b: "sealed ?E (pm_keyBroker m) (em_Sender ?info) (em_Recipient ?info) ''hello'' = Inr ''hello''"
    using m(3,4) by (simp add: sealed_def LookupPrivateKey_def LookupPublicKey_def demo_mail_def demo_letter_def)
  have v: "value_times_ok (wL demo_world) (mclock demo_nothing) (MCreateValue demo_create) (values_of (mkeys demo_nothing))"
    by (simp add: value_times_ok_def demo_nothing_ok(3) demo_create_ttl Second_def)
  have c: "serve demo_world demo_open_server ''uuid'' 0 \<lparr>Procedure = CreateValueProcedure, AuthorizationHeader = [], AnyMsg = MCreateValue demo_create\<rparr>
      demo_nothing = (Ok (RCreateValue \<lparr>cvr_Name = value_key demo_cid, cvr_Ttl = cv_Ttl demo_create\<rparr>), demo_kept 0)"
    using demo_kept_served by (simp add: demo_store_request_def)
  have e: "elapse mkeys mclock mup (demo_kept 0) (demo_kept 59999)"
    by (auto simp: elapse_def mup_def demo_kept_def fun_eq_iff purge_def unexpired_def)
  have u: "unexpired (mclock (demo_kept 59999)) (set_expiry (mclock demo_nothing) (AsDuration (wL demo_world) (cv_Ttl demo_create)))"
    by (simp add: unexpired_def set_expiry_def demo_kept_def demo_nothing_def demo_create_ttl Second_def Millisecond_def)
  have d: "dial ?E (address ''h'' 1) = Inr (service_client demo_world demo_open_server ''uuid'' 0)" by (simp add: demo_mail_def)
  have g: "value_times_ok (wL demo_world) (mclock (demo_kept 59999)) (MGetValue n) (values_of (mkeys (demo_kept 59999)))" for n
    by (auto simp: value_times_ok_def values_of_def demo_kept_def Millisecond_def int64_max_def split: if_splits)
  have h: "handled demo_world demo_open_server 0 ?get l" for l
    by (simp add: handled_def routed_def procedures_def open_door_def demo_open_server_def)
  have x: "cv_Value demo_create = ''hello''" "cid_roundtrip (wL demo_world)" "service_inv (wL demo_world) mkeys mup demo_nothing"
    using demo_cid_roundtrip demo_nothing_ok(1) by (simp_all add: demo_create_def)
  have "fst (PGP_FetchMessage ?E m [] ?info (demo_kept 59999)) = Ok (''hello'', None)"
    using sealed_mail_readable [OF demo.service_world_axioms x(2) l m(1,2) b x(3) demo_nothing_ok(2) v x(1) c e u _ d, of "[]"] g h by simp
  with m(2) show ?thesis by blast
qed

text \<open>
  C31. The mail example cannot be used with the service it is made for. Over connections to the whole service, whose
  validator enforces the patterns of the message definitions, \<open>SendContent\<close> of either messager always fails; \<open>SendMetadata\<close> fails
  unless the recipient is named by a DID, as the mail addresses that the example uses are not; and \<open>ListMessages\<close> fails for every
  recipient without a slash in its name: the validator refuses the mailbox of one that is no DID, and the handler
  that of one that is, as it does not read names with a colon.
\<close>

theorem mail_example_fails:
  assumes "over_service E W srv" and "enforces_patterns (wValidate W)" and "CHR ''/'' \<notin> set recipient"
  shows "\<not> is_Ok (fst (SendContent E m ctx sender recipient message s)) \<and>
    (is_Ok (fst (SendMetadata E (embedded m) ctx sender recipient (name # names) s)) \<longrightarrow> HasPrefix recipient ''did:'') \<and>
    \<not> is_Ok (fst (ListMessages E (embedded m) ctx recipient pageSize pageToken authToken s))"
proof (intro conjI impI)
  assume ok: "is_Ok (fst (SendMetadata E (embedded m) ctx sender recipient (name # names) s))"
  then obtain s' where "SendMetadata E (embedded m) ctx sender recipient (name # names) s = (Ok (), s')"
    by (cases "SendMetadata E (embedded m) ctx sender recipient (name # names) s";
        cases "fst (SendMetadata E (embedded m) ctx sender recipient (name # names) s)") auto
  from SendMetadata_needs_did [OF assms this] show "HasPrefix recipient ''did:''" .
qed (rule SendContent_fails [OF assms(1)], rule ListMessages_fails [OF assms])

definition demo_patterns :: "message \<Rightarrow> go_error option" where
  "demo_patterns m =
     (case m of
        MCreateStreamValue x \<Rightarrow> if did_stream (csv_Parent x) then None else Some (LibErr ''pattern'')
      | MListStreamValues x \<Rightarrow> if did_stream (ls_Parent x) then None else Some (LibErr ''pattern'')
      | _ \<Rightarrow> None)"

definition demo_pattern_world :: "mem world" where
  "demo_pattern_world = demo_world\<lparr>wValidate := demo_patterns\<rparr>"

lemma demo_pattern_client: "over_service (demo_mail (service_client demo_pattern_world srv uuid now)) demo_pattern_world srv"
  by (auto simp: over_service_def demo_mail_def)

theorem mail_example_fails_witness:
  "demo_patterns (MListStreamValues \<lparr>ls_Parent = formatResourceParent KTraditional ''did:key:zbob'', ls_AuthToken = ''ident'', ls_PageSize = 9999, ls_PageToken = ''0-0''\<rparr>) = None \<and>
   \<not> is_Ok (fst (ListMessages (demo_mail (service_client demo_pattern_world demo_open_server ''uuid'' (1000000 * Second)))
     (embedded (MTraditional (NewTraditionalMessager ''h'' 1))) [] ''did:key:zbob'' 9999 ''0-0'' ''ident'' demo_stream_mem)) \<and>
   \<not> is_Ok (fst (SendMetadata (demo_mail (service_client demo_pattern_world demo_open_server ''uuid'' (1000000 * Second)))
     (embedded (MTraditional (NewTraditionalMessager ''h'' 1))) [] ''al'' ''bob@op2.com'' [''values/r''] demo_stream_mem))"
proof -
  have p: "enforces_patterns (wValidate demo_pattern_world)"
    by (auto simp: enforces_patterns_def demo_pattern_world_def demo_patterns_def split: if_splits)
  note f = mail_example_fails [OF demo_pattern_client p]
  have "did_stream (formatResourceParent KTraditional ''did:key:zbob'')" by code_simp
  then have "demo_patterns (MListStreamValues \<lparr>ls_Parent = formatResourceParent KTraditional ''did:key:zbob'', ls_AuthToken = ''ident'',
      ls_PageSize = 9999, ls_PageToken = ''0-0''\<rparr>) = None" by (simp add: demo_patterns_def)
  moreover have "\<not> HasPrefix ''bob@op2.com'' ''did:''" by code_simp
  moreover have "CHR ''/'' \<notin> set ''did:key:zbob''" "CHR ''/'' \<notin> set ''bob@op2.com''" by code_simp+
  ultimately show ?thesis using f by blast
qed

end
