(* ===== verification/Response_Types.thy ===== *)
theory Response_Types
  imports Service
begin

section \<open>What type of answer a request has\<close>

text \<open>
  The answer of a procedure is a message of its own response type. \<open>response_of\<close> says so, together with
  what a client of the generated code can rely on in it: the optional messages that are never absent,
  and the names that are those of the request.
\<close>

definition response_of :: "message \<Rightarrow> response \<Rightarrow> bool" where
  "response_of msg r =
     (case msg of
        MCreateValue m \<Rightarrow> (case r of RCreateValue x \<Rightarrow> HasPrefix (cvr_Name x) ''values/'' \<and> cvr_Ttl x = cv_Ttl m | _ \<Rightarrow> False)
      | MCreateStreamValue m \<Rightarrow> (case r of RCreateStreamValue x \<Rightarrow> HasPrefix (csvr_Name x) (csv_Parent m @ ''/values/'') \<and> csvr_Ttl x \<noteq> None | _ \<Rightarrow> False)
      | MGetValue m \<Rightarrow> (case r of RGetValue x \<Rightarrow> HasPrefix (gv_Name m) ''values/'' | _ \<Rightarrow> False)
      | MGetStreamValue m \<Rightarrow> (case r of RGetStreamValue x \<Rightarrow> gsr_StreamValueInfo x \<noteq> None | _ \<Rightarrow> False)
      | MListStreamValues m \<Rightarrow> (case r of RListStreamValues x \<Rightarrow> lsr_StreamValueInfo x = [] \<longrightarrow> lsr_PageToken x = ''0-0'' | _ \<Rightarrow> False)
      | MProlongValue m \<Rightarrow> (case r of RProlongValue x \<Rightarrow> pvr_Name x = pv_Name m \<and> pvr_Ttl x \<noteq> None | _ \<Rightarrow> False)
      | MSearchCid m \<Rightarrow> (case r of RSearchCid x \<Rightarrow> scr_VirtualServices x \<noteq> [] | _ \<Rightarrow> False)
      | MSearchInstance m \<Rightarrow> (case r of RSearchInstance x \<Rightarrow> sir_VirtualService x = si_VirtualService m | _ \<Rightarrow> False)
      | MCreateSession m \<Rightarrow> (case r of RCreateSession x \<Rightarrow> csr_Session x \<noteq> None | _ \<Rightarrow> False)
      | MRegisterInstance m \<Rightarrow> (case r of RRegisterInstance \<Rightarrow> True | _ \<Rightarrow> False)
      | MPing m \<Rightarrow> (case r of RPing x \<Rightarrow> pir_Pong x = ''pong'' | _ \<Rightarrow> False)
      | MDelegatedRouting m \<Rightarrow> (case r of RDelegatedRouting x \<Rightarrow> True | _ \<Rightarrow> False))"

lemma lift_Ok: "lift_resp f p = (Ok r, s) \<longleftrightarrow> (\<exists>x. p = (Ok x, s) \<and> r = f x)"
  by (cases p; cases "fst p") auto

lemma listLoop_length: "listLoop ms acc t = Inr (ret, t') \<Longrightarrow> length ret = length acc + length ms"
proof (induction ms acc t arbitrary: ret rule: listLoop.induct)
  case 1
  then show ?case by simp
next
  case 2
  then show ?case by (auto split: sum.splits)
qed

lemma CreateValue_typed: "CreateValue L R m s = (Ok x, s') \<Longrightarrow> response_of (MCreateValue m) (RCreateValue x)"
  by (auto simp: response_of_def CreateValue_def Let_def value_key_def HasPrefix_append split: result.splits prod.splits sum.splits)

lemma CreateStreamValue_typed:
  "CreateStreamValue L R now m s = (Ok x, s') \<Longrightarrow> response_of (MCreateStreamValue m) (RCreateStreamValue x)"
  by (auto simp: response_of_def CreateStreamValue_def Let_def HasPrefix_iff split: prod.splits sum.splits)

lemma GetStreamValue_typed:
  "GetStreamValue R verify now m s = (Ok x, s') \<Longrightarrow> response_of (MGetStreamValue m) (RGetStreamValue x)"
  by (auto simp: response_of_def GetStreamValue_def Let_def split: prod.splits sum.splits result.splits if_splits)

lemma ListStreamValues_typed:
  "ListStreamValues R verify now m s = (Ok x, s') \<Longrightarrow> response_of (MListStreamValues m) (RListStreamValues x)"
  by (auto simp: response_of_def ListStreamValues_def Let_def dest: listLoop_length split: prod.splits sum.splits result.splits if_splits)

lemma ProlongValue_typed: "ProlongValue L R m s = (Ok x, s') \<Longrightarrow> response_of (MProlongValue m) (RProlongValue x)"
  by (auto simp: response_of_def ProlongValue_def Let_def split: prod.splits sum.splits if_splits)

lemma GetValue_typed: "GetValue L R m s = (Ok x, s') \<Longrightarrow> response_of (MGetValue m) (RGetValue x)"
  by (auto simp: response_of_def GetValue_def CutPrefix_def Let_def split: prod.splits sum.splits if_splits)

lemma SearchCid_typed: "SearchCid L R f m s = (Ok x, s') \<Longrightarrow> response_of (MSearchCid m) (RSearchCid x)"
  by (auto simp: response_of_def SearchCid_def doSearchCid_def split: prod.splits sum.splits result.splits if_splits)

lemma SearchInstance_typed: "SearchInstance L R m s = (Ok x, s') \<Longrightarrow> response_of (MSearchInstance m) (RSearchInstance x)"
  by (auto simp: response_of_def SearchInstance_def split: prod.splits result.splits)

lemma CreateSession_typed:
  "CreateSession J conf verify create uuid now m s = (Ok x, s') \<Longrightarrow> response_of (MCreateSession m) (RCreateSession x)"
  by (auto simp: response_of_def CreateSession_def split: result.splits jwt_claims.splits option.splits prod.splits sum.splits if_splits)

lemmas handlers_typed =
  CreateValue_typed CreateStreamValue_typed GetValue_typed GetStreamValue_typed ListStreamValues_typed ProlongValue_typed
  SearchCid_typed SearchInstance_typed CreateSession_typed

lemma svc_typed:
  assumes "svc W srv uuid now cs req s = (Ok r, s')"
  shows "response_of (AnyMsg req) r"
  using assms
  by (cases "AnyMsg req")
     (simp_all only: svc_def message.case lift_Ok, (elim exE conjE, simp only: handlers_typed)+,
      auto simp: response_of_def Ping_def)

end
