(* ===== verification/Binary.thy ===== *)
theory Binary
  imports Virtual_Service
begin

section \<open>Binary marshalling (\<open>kvstore.pb.binary.go\<close>)\<close>

text \<open>
  Every message type has the methods \<open>MarshalBinary\<close> and \<open>UnmarshalBinary\<close>, through which a Redis client
  writes and reads a message as a value. Both call the protobuf package, whose two functions take any message
  (the interface \<open>proto.Message\<close>): here a sum over the message types of the file, each holding the pointer. The
  package is a parameter. The methods of the two messages the service stores are in \<open>Virtual_Service\<close>, where
  they take the record of packages; \<open>with_runtime\<close> is that record over one protobuf package, and what the index
  relies on for its two types follows from one law of the package.
\<close>

subsection \<open>The messages no handler uses\<close>

record ProviderResult =
  pr_ContextId :: string
  pr_Metadata :: string
  pr_Provider :: "Instance option"

record MultihashResult =
  mr_Multihash :: string
  mr_ProviderResults :: "ProviderResult option list"

text \<open>\<open>RegisterInstanceResponse\<close> has no field and is \<open>unit\<close>, as in the handlers.\<close>

subsection \<open>The protobuf package\<close>

datatype proto_message =
    PM_ProviderResult "ProviderResult option"
  | PM_MultihashResult "MultihashResult option"
  | PM_DelegatedRoutingResponse "DelegatedRoutingResponse option"
  | PM_DelegatedRoutingRequest "DelegatedRoutingRequest option"
  | PM_PingRequest "PingRequest option"
  | PM_PingResponse "PingResponse option"
  | PM_GlobalLink "GlobalLink option"
  | PM_VirtualService "VirtualService option"
  | PM_ProviderAdvertise "ProviderAdvertise option"
  | PM_SearchCidRequest "SearchCidRequest option"
  | PM_SearchCidResponse "SearchCidResponse option"
  | PM_SearchInstanceRequest "SearchInstanceRequest option"
  | PM_SearchInstanceResponse "SearchInstanceResponse option"
  | PM_RegisterInstanceRequest "RegisterInstanceRequest option"
  | PM_RegisterInstanceResponse "unit option"
  | PM_Instance "Instance option"
  | PM_CreateValueRequest "CreateValueRequest option"
  | PM_CreateValueResponse "CreateValueResponse option"
  | PM_CreateStreamValueRequest "CreateStreamValueRequest option"
  | PM_CreateStreamValueResponse "CreateStreamValueResponse option"
  | PM_GetStreamValueRequest "GetStreamValueRequest option"
  | PM_StreamValueInfo "StreamValueInfo option"
  | PM_GetStreamValueResponse "GetStreamValueResponse option"
  | PM_ListStreamValuesRequest "ListStreamValuesRequest option"
  | PM_ListStreamValuesResponse "ListStreamValuesResponse option"
  | PM_GetValueRequest "GetValueRequest option"
  | PM_GetValueResponse "GetValueResponse option"
  | PM_ProlongValueRequest "ProlongValueRequest option"
  | PM_ProlongValueResponse "ProlongValueResponse option"
  | PM_Session "Messages.Session option"
  | PM_CreateSessionRequest "CreateSessionRequest option"
  | PM_CreateSessionResponse "CreateSessionResponse option"

text \<open>
  \<open>proto.Marshal\<close>, and \<open>proto.Unmarshal\<close>, which resets the message it is given and reads the bytes into it: the
  result is the message afterwards, which after an error may be filled in part.
\<close>

record proto_runtime =
  proto_Marshal :: "proto_message \<Rightarrow> go_error + bytes"
  proto_Unmarshal :: "bytes \<Rightarrow> proto_message \<Rightarrow> proto_message \<times> go_error option"

subsection \<open>The methods\<close>

definition MarshalBinary_ProviderResult :: "proto_runtime \<Rightarrow> ProviderResult option \<Rightarrow> go_error + bytes" where
  "MarshalBinary_ProviderResult P msg = proto_Marshal P (PM_ProviderResult msg)"
definition UnmarshalBinary_ProviderResult :: "proto_runtime \<Rightarrow> ProviderResult option \<Rightarrow> bytes \<Rightarrow> proto_message \<times> go_error option" where
  "UnmarshalBinary_ProviderResult P msg b = proto_Unmarshal P b (PM_ProviderResult msg)"

definition MarshalBinary_MultihashResult :: "proto_runtime \<Rightarrow> MultihashResult option \<Rightarrow> go_error + bytes" where
  "MarshalBinary_MultihashResult P msg = proto_Marshal P (PM_MultihashResult msg)"
definition UnmarshalBinary_MultihashResult :: "proto_runtime \<Rightarrow> MultihashResult option \<Rightarrow> bytes \<Rightarrow> proto_message \<times> go_error option" where
  "UnmarshalBinary_MultihashResult P msg b = proto_Unmarshal P b (PM_MultihashResult msg)"

definition MarshalBinary_DelegatedRoutingResponse :: "proto_runtime \<Rightarrow> DelegatedRoutingResponse option \<Rightarrow> go_error + bytes" where
  "MarshalBinary_DelegatedRoutingResponse P msg = proto_Marshal P (PM_DelegatedRoutingResponse msg)"
definition UnmarshalBinary_DelegatedRoutingResponse :: "proto_runtime \<Rightarrow> DelegatedRoutingResponse option \<Rightarrow> bytes \<Rightarrow> proto_message \<times> go_error option" where
  "UnmarshalBinary_DelegatedRoutingResponse P msg b = proto_Unmarshal P b (PM_DelegatedRoutingResponse msg)"

definition MarshalBinary_DelegatedRoutingRequest :: "proto_runtime \<Rightarrow> DelegatedRoutingRequest option \<Rightarrow> go_error + bytes" where
  "MarshalBinary_DelegatedRoutingRequest P msg = proto_Marshal P (PM_DelegatedRoutingRequest msg)"
definition UnmarshalBinary_DelegatedRoutingRequest :: "proto_runtime \<Rightarrow> DelegatedRoutingRequest option \<Rightarrow> bytes \<Rightarrow> proto_message \<times> go_error option" where
  "UnmarshalBinary_DelegatedRoutingRequest P msg b = proto_Unmarshal P b (PM_DelegatedRoutingRequest msg)"

definition MarshalBinary_PingRequest :: "proto_runtime \<Rightarrow> PingRequest option \<Rightarrow> go_error + bytes" where
  "MarshalBinary_PingRequest P msg = proto_Marshal P (PM_PingRequest msg)"
definition UnmarshalBinary_PingRequest :: "proto_runtime \<Rightarrow> PingRequest option \<Rightarrow> bytes \<Rightarrow> proto_message \<times> go_error option" where
  "UnmarshalBinary_PingRequest P msg b = proto_Unmarshal P b (PM_PingRequest msg)"

definition MarshalBinary_PingResponse :: "proto_runtime \<Rightarrow> PingResponse option \<Rightarrow> go_error + bytes" where
  "MarshalBinary_PingResponse P msg = proto_Marshal P (PM_PingResponse msg)"
definition UnmarshalBinary_PingResponse :: "proto_runtime \<Rightarrow> PingResponse option \<Rightarrow> bytes \<Rightarrow> proto_message \<times> go_error option" where
  "UnmarshalBinary_PingResponse P msg b = proto_Unmarshal P b (PM_PingResponse msg)"

definition MarshalBinary_GlobalLink :: "proto_runtime \<Rightarrow> GlobalLink option \<Rightarrow> go_error + bytes" where
  "MarshalBinary_GlobalLink P msg = proto_Marshal P (PM_GlobalLink msg)"
definition UnmarshalBinary_GlobalLink :: "proto_runtime \<Rightarrow> GlobalLink option \<Rightarrow> bytes \<Rightarrow> proto_message \<times> go_error option" where
  "UnmarshalBinary_GlobalLink P msg b = proto_Unmarshal P b (PM_GlobalLink msg)"

definition MarshalBinary_SearchCidRequest :: "proto_runtime \<Rightarrow> SearchCidRequest option \<Rightarrow> go_error + bytes" where
  "MarshalBinary_SearchCidRequest P msg = proto_Marshal P (PM_SearchCidRequest msg)"
definition UnmarshalBinary_SearchCidRequest :: "proto_runtime \<Rightarrow> SearchCidRequest option \<Rightarrow> bytes \<Rightarrow> proto_message \<times> go_error option" where
  "UnmarshalBinary_SearchCidRequest P msg b = proto_Unmarshal P b (PM_SearchCidRequest msg)"

definition MarshalBinary_SearchCidResponse :: "proto_runtime \<Rightarrow> SearchCidResponse option \<Rightarrow> go_error + bytes" where
  "MarshalBinary_SearchCidResponse P msg = proto_Marshal P (PM_SearchCidResponse msg)"
definition UnmarshalBinary_SearchCidResponse :: "proto_runtime \<Rightarrow> SearchCidResponse option \<Rightarrow> bytes \<Rightarrow> proto_message \<times> go_error option" where
  "UnmarshalBinary_SearchCidResponse P msg b = proto_Unmarshal P b (PM_SearchCidResponse msg)"

definition MarshalBinary_SearchInstanceRequest :: "proto_runtime \<Rightarrow> SearchInstanceRequest option \<Rightarrow> go_error + bytes" where
  "MarshalBinary_SearchInstanceRequest P msg = proto_Marshal P (PM_SearchInstanceRequest msg)"
definition UnmarshalBinary_SearchInstanceRequest :: "proto_runtime \<Rightarrow> SearchInstanceRequest option \<Rightarrow> bytes \<Rightarrow> proto_message \<times> go_error option" where
  "UnmarshalBinary_SearchInstanceRequest P msg b = proto_Unmarshal P b (PM_SearchInstanceRequest msg)"

definition MarshalBinary_SearchInstanceResponse :: "proto_runtime \<Rightarrow> SearchInstanceResponse option \<Rightarrow> go_error + bytes" where
  "MarshalBinary_SearchInstanceResponse P msg = proto_Marshal P (PM_SearchInstanceResponse msg)"
definition UnmarshalBinary_SearchInstanceResponse :: "proto_runtime \<Rightarrow> SearchInstanceResponse option \<Rightarrow> bytes \<Rightarrow> proto_message \<times> go_error option" where
  "UnmarshalBinary_SearchInstanceResponse P msg b = proto_Unmarshal P b (PM_SearchInstanceResponse msg)"

definition MarshalBinary_RegisterInstanceRequest :: "proto_runtime \<Rightarrow> RegisterInstanceRequest option \<Rightarrow> go_error + bytes" where
  "MarshalBinary_RegisterInstanceRequest P msg = proto_Marshal P (PM_RegisterInstanceRequest msg)"
definition UnmarshalBinary_RegisterInstanceRequest :: "proto_runtime \<Rightarrow> RegisterInstanceRequest option \<Rightarrow> bytes \<Rightarrow> proto_message \<times> go_error option" where
  "UnmarshalBinary_RegisterInstanceRequest P msg b = proto_Unmarshal P b (PM_RegisterInstanceRequest msg)"

definition MarshalBinary_RegisterInstanceResponse :: "proto_runtime \<Rightarrow> unit option \<Rightarrow> go_error + bytes" where
  "MarshalBinary_RegisterInstanceResponse P msg = proto_Marshal P (PM_RegisterInstanceResponse msg)"
definition UnmarshalBinary_RegisterInstanceResponse :: "proto_runtime \<Rightarrow> unit option \<Rightarrow> bytes \<Rightarrow> proto_message \<times> go_error option" where
  "UnmarshalBinary_RegisterInstanceResponse P msg b = proto_Unmarshal P b (PM_RegisterInstanceResponse msg)"

definition MarshalBinary_Instance :: "proto_runtime \<Rightarrow> Instance option \<Rightarrow> go_error + bytes" where
  "MarshalBinary_Instance P msg = proto_Marshal P (PM_Instance msg)"
definition UnmarshalBinary_Instance :: "proto_runtime \<Rightarrow> Instance option \<Rightarrow> bytes \<Rightarrow> proto_message \<times> go_error option" where
  "UnmarshalBinary_Instance P msg b = proto_Unmarshal P b (PM_Instance msg)"

definition MarshalBinary_CreateValueRequest :: "proto_runtime \<Rightarrow> CreateValueRequest option \<Rightarrow> go_error + bytes" where
  "MarshalBinary_CreateValueRequest P msg = proto_Marshal P (PM_CreateValueRequest msg)"
definition UnmarshalBinary_CreateValueRequest :: "proto_runtime \<Rightarrow> CreateValueRequest option \<Rightarrow> bytes \<Rightarrow> proto_message \<times> go_error option" where
  "UnmarshalBinary_CreateValueRequest P msg b = proto_Unmarshal P b (PM_CreateValueRequest msg)"

definition MarshalBinary_CreateValueResponse :: "proto_runtime \<Rightarrow> CreateValueResponse option \<Rightarrow> go_error + bytes" where
  "MarshalBinary_CreateValueResponse P msg = proto_Marshal P (PM_CreateValueResponse msg)"
definition UnmarshalBinary_CreateValueResponse :: "proto_runtime \<Rightarrow> CreateValueResponse option \<Rightarrow> bytes \<Rightarrow> proto_message \<times> go_error option" where
  "UnmarshalBinary_CreateValueResponse P msg b = proto_Unmarshal P b (PM_CreateValueResponse msg)"

definition MarshalBinary_CreateStreamValueRequest :: "proto_runtime \<Rightarrow> CreateStreamValueRequest option \<Rightarrow> go_error + bytes" where
  "MarshalBinary_CreateStreamValueRequest P msg = proto_Marshal P (PM_CreateStreamValueRequest msg)"
definition UnmarshalBinary_CreateStreamValueRequest :: "proto_runtime \<Rightarrow> CreateStreamValueRequest option \<Rightarrow> bytes \<Rightarrow> proto_message \<times> go_error option" where
  "UnmarshalBinary_CreateStreamValueRequest P msg b = proto_Unmarshal P b (PM_CreateStreamValueRequest msg)"

definition MarshalBinary_CreateStreamValueResponse :: "proto_runtime \<Rightarrow> CreateStreamValueResponse option \<Rightarrow> go_error + bytes" where
  "MarshalBinary_CreateStreamValueResponse P msg = proto_Marshal P (PM_CreateStreamValueResponse msg)"
definition UnmarshalBinary_CreateStreamValueResponse :: "proto_runtime \<Rightarrow> CreateStreamValueResponse option \<Rightarrow> bytes \<Rightarrow> proto_message \<times> go_error option" where
  "UnmarshalBinary_CreateStreamValueResponse P msg b = proto_Unmarshal P b (PM_CreateStreamValueResponse msg)"

definition MarshalBinary_GetStreamValueRequest :: "proto_runtime \<Rightarrow> GetStreamValueRequest option \<Rightarrow> go_error + bytes" where
  "MarshalBinary_GetStreamValueRequest P msg = proto_Marshal P (PM_GetStreamValueRequest msg)"
definition UnmarshalBinary_GetStreamValueRequest :: "proto_runtime \<Rightarrow> GetStreamValueRequest option \<Rightarrow> bytes \<Rightarrow> proto_message \<times> go_error option" where
  "UnmarshalBinary_GetStreamValueRequest P msg b = proto_Unmarshal P b (PM_GetStreamValueRequest msg)"

definition MarshalBinary_StreamValueInfo :: "proto_runtime \<Rightarrow> StreamValueInfo option \<Rightarrow> go_error + bytes" where
  "MarshalBinary_StreamValueInfo P msg = proto_Marshal P (PM_StreamValueInfo msg)"
definition UnmarshalBinary_StreamValueInfo :: "proto_runtime \<Rightarrow> StreamValueInfo option \<Rightarrow> bytes \<Rightarrow> proto_message \<times> go_error option" where
  "UnmarshalBinary_StreamValueInfo P msg b = proto_Unmarshal P b (PM_StreamValueInfo msg)"

definition MarshalBinary_GetStreamValueResponse :: "proto_runtime \<Rightarrow> GetStreamValueResponse option \<Rightarrow> go_error + bytes" where
  "MarshalBinary_GetStreamValueResponse P msg = proto_Marshal P (PM_GetStreamValueResponse msg)"
definition UnmarshalBinary_GetStreamValueResponse :: "proto_runtime \<Rightarrow> GetStreamValueResponse option \<Rightarrow> bytes \<Rightarrow> proto_message \<times> go_error option" where
  "UnmarshalBinary_GetStreamValueResponse P msg b = proto_Unmarshal P b (PM_GetStreamValueResponse msg)"

definition MarshalBinary_ListStreamValuesRequest :: "proto_runtime \<Rightarrow> ListStreamValuesRequest option \<Rightarrow> go_error + bytes" where
  "MarshalBinary_ListStreamValuesRequest P msg = proto_Marshal P (PM_ListStreamValuesRequest msg)"
definition UnmarshalBinary_ListStreamValuesRequest :: "proto_runtime \<Rightarrow> ListStreamValuesRequest option \<Rightarrow> bytes \<Rightarrow> proto_message \<times> go_error option" where
  "UnmarshalBinary_ListStreamValuesRequest P msg b = proto_Unmarshal P b (PM_ListStreamValuesRequest msg)"

definition MarshalBinary_ListStreamValuesResponse :: "proto_runtime \<Rightarrow> ListStreamValuesResponse option \<Rightarrow> go_error + bytes" where
  "MarshalBinary_ListStreamValuesResponse P msg = proto_Marshal P (PM_ListStreamValuesResponse msg)"
definition UnmarshalBinary_ListStreamValuesResponse :: "proto_runtime \<Rightarrow> ListStreamValuesResponse option \<Rightarrow> bytes \<Rightarrow> proto_message \<times> go_error option" where
  "UnmarshalBinary_ListStreamValuesResponse P msg b = proto_Unmarshal P b (PM_ListStreamValuesResponse msg)"

definition MarshalBinary_GetValueRequest :: "proto_runtime \<Rightarrow> GetValueRequest option \<Rightarrow> go_error + bytes" where
  "MarshalBinary_GetValueRequest P msg = proto_Marshal P (PM_GetValueRequest msg)"
definition UnmarshalBinary_GetValueRequest :: "proto_runtime \<Rightarrow> GetValueRequest option \<Rightarrow> bytes \<Rightarrow> proto_message \<times> go_error option" where
  "UnmarshalBinary_GetValueRequest P msg b = proto_Unmarshal P b (PM_GetValueRequest msg)"

definition MarshalBinary_GetValueResponse :: "proto_runtime \<Rightarrow> GetValueResponse option \<Rightarrow> go_error + bytes" where
  "MarshalBinary_GetValueResponse P msg = proto_Marshal P (PM_GetValueResponse msg)"
definition UnmarshalBinary_GetValueResponse :: "proto_runtime \<Rightarrow> GetValueResponse option \<Rightarrow> bytes \<Rightarrow> proto_message \<times> go_error option" where
  "UnmarshalBinary_GetValueResponse P msg b = proto_Unmarshal P b (PM_GetValueResponse msg)"

definition MarshalBinary_ProlongValueRequest :: "proto_runtime \<Rightarrow> ProlongValueRequest option \<Rightarrow> go_error + bytes" where
  "MarshalBinary_ProlongValueRequest P msg = proto_Marshal P (PM_ProlongValueRequest msg)"
definition UnmarshalBinary_ProlongValueRequest :: "proto_runtime \<Rightarrow> ProlongValueRequest option \<Rightarrow> bytes \<Rightarrow> proto_message \<times> go_error option" where
  "UnmarshalBinary_ProlongValueRequest P msg b = proto_Unmarshal P b (PM_ProlongValueRequest msg)"

definition MarshalBinary_ProlongValueResponse :: "proto_runtime \<Rightarrow> ProlongValueResponse option \<Rightarrow> go_error + bytes" where
  "MarshalBinary_ProlongValueResponse P msg = proto_Marshal P (PM_ProlongValueResponse msg)"
definition UnmarshalBinary_ProlongValueResponse :: "proto_runtime \<Rightarrow> ProlongValueResponse option \<Rightarrow> bytes \<Rightarrow> proto_message \<times> go_error option" where
  "UnmarshalBinary_ProlongValueResponse P msg b = proto_Unmarshal P b (PM_ProlongValueResponse msg)"

definition MarshalBinary_Session :: "proto_runtime \<Rightarrow> Session option \<Rightarrow> go_error + bytes" where
  "MarshalBinary_Session P msg = proto_Marshal P (PM_Session msg)"
definition UnmarshalBinary_Session :: "proto_runtime \<Rightarrow> Session option \<Rightarrow> bytes \<Rightarrow> proto_message \<times> go_error option" where
  "UnmarshalBinary_Session P msg b = proto_Unmarshal P b (PM_Session msg)"

definition MarshalBinary_CreateSessionRequest :: "proto_runtime \<Rightarrow> CreateSessionRequest option \<Rightarrow> go_error + bytes" where
  "MarshalBinary_CreateSessionRequest P msg = proto_Marshal P (PM_CreateSessionRequest msg)"
definition UnmarshalBinary_CreateSessionRequest :: "proto_runtime \<Rightarrow> CreateSessionRequest option \<Rightarrow> bytes \<Rightarrow> proto_message \<times> go_error option" where
  "UnmarshalBinary_CreateSessionRequest P msg b = proto_Unmarshal P b (PM_CreateSessionRequest msg)"

definition MarshalBinary_CreateSessionResponse :: "proto_runtime \<Rightarrow> CreateSessionResponse option \<Rightarrow> go_error + bytes" where
  "MarshalBinary_CreateSessionResponse P msg = proto_Marshal P (PM_CreateSessionResponse msg)"
definition UnmarshalBinary_CreateSessionResponse :: "proto_runtime \<Rightarrow> CreateSessionResponse option \<Rightarrow> bytes \<Rightarrow> proto_message \<times> go_error option" where
  "UnmarshalBinary_CreateSessionResponse P msg b = proto_Unmarshal P b (PM_CreateSessionResponse msg)"

subsection \<open>What a reader of the methods relies on\<close>

text \<open>The full name of a message's type, as its descriptor has it.\<close>

definition message_type :: "proto_message \<Rightarrow> string" where
  "message_type m =
     (case m of
        PM_ProviderResult _ \<Rightarrow> ''kvstore.v1.ProviderResult''
      | PM_MultihashResult _ \<Rightarrow> ''kvstore.v1.MultihashResult''
      | PM_DelegatedRoutingResponse _ \<Rightarrow> ''kvstore.v1.DelegatedRoutingResponse''
      | PM_DelegatedRoutingRequest _ \<Rightarrow> ''kvstore.v1.DelegatedRoutingRequest''
      | PM_PingRequest _ \<Rightarrow> ''kvstore.v1.PingRequest''
      | PM_PingResponse _ \<Rightarrow> ''kvstore.v1.PingResponse''
      | PM_GlobalLink _ \<Rightarrow> ''kvstore.v1.GlobalLink''
      | PM_VirtualService _ \<Rightarrow> ''kvstore.v1.VirtualService''
      | PM_ProviderAdvertise _ \<Rightarrow> ''kvstore.v1.ProviderAdvertise''
      | PM_SearchCidRequest _ \<Rightarrow> ''kvstore.v1.SearchCidRequest''
      | PM_SearchCidResponse _ \<Rightarrow> ''kvstore.v1.SearchCidResponse''
      | PM_SearchInstanceRequest _ \<Rightarrow> ''kvstore.v1.SearchInstanceRequest''
      | PM_SearchInstanceResponse _ \<Rightarrow> ''kvstore.v1.SearchInstanceResponse''
      | PM_RegisterInstanceRequest _ \<Rightarrow> ''kvstore.v1.RegisterInstanceRequest''
      | PM_RegisterInstanceResponse _ \<Rightarrow> ''kvstore.v1.RegisterInstanceResponse''
      | PM_Instance _ \<Rightarrow> ''kvstore.v1.Instance''
      | PM_CreateValueRequest _ \<Rightarrow> ''kvstore.v1.CreateValueRequest''
      | PM_CreateValueResponse _ \<Rightarrow> ''kvstore.v1.CreateValueResponse''
      | PM_CreateStreamValueRequest _ \<Rightarrow> ''kvstore.v1.CreateStreamValueRequest''
      | PM_CreateStreamValueResponse _ \<Rightarrow> ''kvstore.v1.CreateStreamValueResponse''
      | PM_GetStreamValueRequest _ \<Rightarrow> ''kvstore.v1.GetStreamValueRequest''
      | PM_StreamValueInfo _ \<Rightarrow> ''kvstore.v1.StreamValueInfo''
      | PM_GetStreamValueResponse _ \<Rightarrow> ''kvstore.v1.GetStreamValueResponse''
      | PM_ListStreamValuesRequest _ \<Rightarrow> ''kvstore.v1.ListStreamValuesRequest''
      | PM_ListStreamValuesResponse _ \<Rightarrow> ''kvstore.v1.ListStreamValuesResponse''
      | PM_GetValueRequest _ \<Rightarrow> ''kvstore.v1.GetValueRequest''
      | PM_GetValueResponse _ \<Rightarrow> ''kvstore.v1.GetValueResponse''
      | PM_ProlongValueRequest _ \<Rightarrow> ''kvstore.v1.ProlongValueRequest''
      | PM_ProlongValueResponse _ \<Rightarrow> ''kvstore.v1.ProlongValueResponse''
      | PM_Session _ \<Rightarrow> ''kvstore.v1.Session''
      | PM_CreateSessionRequest _ \<Rightarrow> ''kvstore.v1.CreateSessionRequest''
      | PM_CreateSessionResponse _ \<Rightarrow> ''kvstore.v1.CreateSessionResponse'')"

text \<open>
  A message that is not \<open>nil\<close> and has no \<open>nil\<close> in a repeated field. Messages that were read from bytes are such.
\<close>

definition no_nil_exchange :: "ProviderAdvertise \<Rightarrow> bool" where
  "no_nil_exchange a \<longleftrightarrow> None \<notin> set (pa_Exchanges a)"

definition no_nil :: "proto_message \<Rightarrow> bool" where
  "no_nil m \<longleftrightarrow>
     (case m of
        PM_ProviderResult x \<Rightarrow> x \<noteq> None
      | PM_MultihashResult x \<Rightarrow> x \<noteq> None \<and> None \<notin> set (mr_ProviderResults (the x))
      | PM_DelegatedRoutingResponse x \<Rightarrow> x \<noteq> None \<and> None \<notin> set (drr_Providers (the x))
      | PM_DelegatedRoutingRequest x \<Rightarrow> x \<noteq> None
      | PM_PingRequest x \<Rightarrow> x \<noteq> None
      | PM_PingResponse x \<Rightarrow> x \<noteq> None
      | PM_GlobalLink x \<Rightarrow> x \<noteq> None
      | PM_VirtualService x \<Rightarrow> x \<noteq> None
      | PM_ProviderAdvertise x \<Rightarrow> x \<noteq> None \<and> no_nil_exchange (the x)
      | PM_SearchCidRequest x \<Rightarrow> x \<noteq> None
      | PM_SearchCidResponse x \<Rightarrow> x \<noteq> None \<and> list_all no_nil_exchange (scr_StorageInstances (the x))
      | PM_SearchInstanceRequest x \<Rightarrow> x \<noteq> None
      | PM_SearchInstanceResponse x \<Rightarrow> x \<noteq> None \<and> list_all no_nil_exchange (sir_InstancePriceInfo (the x))
      | PM_RegisterInstanceRequest x \<Rightarrow> x \<noteq> None \<and> pred_option no_nil_exchange (ri_Advertisement (the x))
      | PM_RegisterInstanceResponse x \<Rightarrow> x \<noteq> None
      | PM_Instance x \<Rightarrow> x \<noteq> None
      | PM_CreateValueRequest x \<Rightarrow> x \<noteq> None
      | PM_CreateValueResponse x \<Rightarrow> x \<noteq> None
      | PM_CreateStreamValueRequest x \<Rightarrow> x \<noteq> None
      | PM_CreateStreamValueResponse x \<Rightarrow> x \<noteq> None
      | PM_GetStreamValueRequest x \<Rightarrow> x \<noteq> None
      | PM_StreamValueInfo x \<Rightarrow> x \<noteq> None
      | PM_GetStreamValueResponse x \<Rightarrow> x \<noteq> None
      | PM_ListStreamValuesRequest x \<Rightarrow> x \<noteq> None
      | PM_ListStreamValuesResponse x \<Rightarrow> x \<noteq> None
      | PM_GetValueRequest x \<Rightarrow> x \<noteq> None
      | PM_GetValueResponse x \<Rightarrow> x \<noteq> None
      | PM_ProlongValueRequest x \<Rightarrow> x \<noteq> None
      | PM_ProlongValueResponse x \<Rightarrow> x \<noteq> None
      | PM_Session x \<Rightarrow> x \<noteq> None
      | PM_CreateSessionRequest x \<Rightarrow> x \<noteq> None
      | PM_CreateSessionResponse x \<Rightarrow> x \<noteq> None)"

text \<open>The law of the package: what it writes it reads back into any message of the type, whatever it held.\<close>

definition reads_back :: "proto_runtime \<Rightarrow> bool" where
  "reads_back P \<longleftrightarrow>
     (\<forall>m m0 b. no_nil m \<longrightarrow> proto_Marshal P m = Inr b \<longrightarrow> no_nil m0 \<longrightarrow> message_type m0 = message_type m \<longrightarrow>
        proto_Unmarshal P b m0 = (m, None))"

text \<open>\<open>new(VirtualService)\<close> and \<open>new(ProviderAdvertise)\<close>, what the index hands to \<open>Scan\<close>.\<close>

definition zero_VirtualService :: VirtualService where
  "zero_VirtualService = \<lparr>vs_BehaviorLink = None, vs_VariantLink = None\<rparr>"

definition zero_ProviderAdvertise :: ProviderAdvertise where
  "zero_ProviderAdvertise = \<lparr>pa_ProviderInstance = None, pa_VirtualService = None, pa_Cids = [], pa_Price = 0, pa_CoinType = 0,
     pa_CoinEnvironment = 0, pa_Exchanges = [], pa_ExpireTime = None, pa_UpdateTime = None, pa_Signature = '''', pa_PricingDetails = ''''\<rparr>"

definition scanned_VirtualService :: "proto_message \<times> go_error option \<Rightarrow> go_error + VirtualService" where
  "scanned_VirtualService r =
     (case snd r of
        Some e \<Rightarrow> Inl e
      | None \<Rightarrow> Inr (case fst r of PM_VirtualService (Some v) \<Rightarrow> v | _ \<Rightarrow> zero_VirtualService))"

definition scanned_ProviderAdvertise :: "proto_message \<times> go_error option \<Rightarrow> go_error + ProviderAdvertise" where
  "scanned_ProviderAdvertise r =
     (case snd r of
        Some e \<Rightarrow> Inl e
      | None \<Rightarrow> Inr (case fst r of PM_ProviderAdvertise (Some a) \<Rightarrow> a | _ \<Rightarrow> zero_ProviderAdvertise))"

definition with_runtime :: "proto_runtime \<Rightarrow> libs \<Rightarrow> libs" where
  "with_runtime P L = L\<lparr>
     Marshal_GlobalLink := MarshalBinary_GlobalLink P,
     Marshal_VirtualService := \<lambda>msg. proto_Marshal P (PM_VirtualService msg),
     Marshal_ProviderAdvertise := \<lambda>msg. proto_Marshal P (PM_ProviderAdvertise msg),
     Unmarshal_VirtualService := \<lambda>b. scanned_VirtualService (proto_Unmarshal P b (PM_VirtualService (Some zero_VirtualService))),
     Unmarshal_ProviderAdvertise :=
       \<lambda>b. scanned_ProviderAdvertise (proto_Unmarshal P b (PM_ProviderAdvertise (Some zero_ProviderAdvertise)))\<rparr>"

lemma stored_messages_read_back:
  assumes "reads_back P"
  shows "proto_roundtrip (with_runtime P L)"
proof -
  have v: "proto_Unmarshal P b (PM_VirtualService (Some zero_VirtualService)) = (PM_VirtualService (Some v), None)"
    if "proto_Marshal P (PM_VirtualService (Some v)) = Inr b" for v b
    using assms that by (simp add: reads_back_def no_nil_def message_type_def)
  have a: "proto_Unmarshal P b (PM_ProviderAdvertise (Some zero_ProviderAdvertise)) = (PM_ProviderAdvertise (Some a), None)"
    if "None \<notin> set (pa_Exchanges a)" and "proto_Marshal P (PM_ProviderAdvertise (Some a)) = Inr b" for a b
    using assms that by (simp add: reads_back_def no_nil_def message_type_def no_nil_exchange_def zero_ProviderAdvertise_def)
  show ?thesis
    by (simp add: proto_roundtrip_def with_runtime_def v a scanned_VirtualService_def scanned_ProviderAdvertise_def)
qed

end
