(* ===== verification/Spec2Isabelle.thy ===== *)
theory Spec2Isabelle
  imports Connect_Client Programs Prolong_Race Stream_Writers Waiting Panics Mail_Service Response_Types Paging Binary
begin

text \<open>
  Verification of \<^bold>\<open>pkv\<close>, a key-value server in Go that sells storage against prepaid sessions, with the
  programs around it. Clients speak to the server in connect or gRPC, or in REST through a gateway; it keeps
  everything in Redis.

  \<^bold>\<open>The program and its model.\<close> A request is routed by its procedure, passes the session interceptor, which
  takes the price of the request from the session its bearer token names, then the validation
  interceptor, and reaches a handler. The theories, in the order of their imports, with the sources
  under \<open>src/\<close>:

  \<^item> \<open>Prelude\<close>, \<open>Go_Std\<close>, \<open>Net_Url\<close>, \<open>Sha256\<close>: results and errors as values, the named collections of rules, and what the
    sources use of the language's library. \<open>Libs\<close>, \<open>Redis_Client\<close>: the third-party packages and the Redis
    client as records of functions, with what is relied on of them: named predicates, and
    \<open>locale redis_contract\<close> for Redis. \<open>Redis_Memory\<close>, \<open>Demo_Libs\<close>, \<open>Demo_Jwt\<close>: concrete functions that meet
    these hypotheses, at which the witnesses evaluate.
  \<^item> \<open>Messages\<close> (\<open>kvstore.pb.go\<close>, the procedure names of \<open>kvstore.connect.go\<close>): the messages as records. \<open>Binary\<close>
    (\<open>kvstore.pb.binary.go\<close>): their marshalling methods over one protobuf package.
  \<^item> \<open>Resource_Name\<close>, \<open>Auth\<close>, \<open>Pricing\<close>, \<open>Session\<close>, \<open>Interceptor\<close> (\<open>pkg/middleware\<close>): resource names with their
    regular expression, tokens, prices, sessions and the two interceptors. A session is a balance in
    Redis; \<open>Session\<close> states what the store promises as an abstract ledger and shows the refinement.
  \<^item> \<open>Values\<close>, \<open>Streams\<close>, \<open>Virtual_Service\<close>, \<open>Index\<close>, \<open>Configuration\<close>, \<open>Login\<close> (\<open>internal/api\<close>): the handlers, one
    definition per handler with all its error branches.
  \<^item> \<open>Server\<close> (\<open>internal/api/server.go\<close>, \<open>cmd/pkv\<close>, the router of \<open>kvstore.connect.go\<close>) puts them together in
    \<open>serve\<close>; \<open>Service\<close> makes runs of the server a step relation, relates them to the ledger and shows the
    invariant of the keyspace. \<open>Response_Types\<close> says what type of answer a request has, \<open>Panics\<close> which requests crash their
    handler, \<open>Value_Store\<close> what the value handlers promise, as an abstract store that they refine, \<open>Paging\<close> what a reader
    gets who follows the page tokens of a stream. \<open>Connect_Client\<close> is the generated client of \<open>kvstore.connect.go\<close>, \<open>Gateway\<close> the REST
    gateway (\<open>kvstore.pb.gw.go\<close>, the client of \<open>kvstore_grpc.pb.go\<close>, \<open>cmd/gateway\<close>): the handler of every route,
    for a client and for a server in the process, and the two registrations, route by route.
  \<^item> \<open>Redis_Commands\<close>, \<open>Command_Policy\<close>, \<open>Concurrency\<close>: the same handlers, command by command, with
    requests served at the same time (below). \<open>Prolong_Race\<close>: two prolongations of one value. \<open>Stream_Log\<close>: the streams as a
    log that many writers share, which every step of the interleaved service is a step of. \<open>Stream_Writers\<close>: what becomes
    of appends that were acknowledged, and what their readers see. \<open>Waiting\<close>: which requests come to their answer and which wait.
  \<^item> \<open>Email\<close>, \<open>Mail\<close> (\<open>examples/email\<close>): the mail client, its messagers, key broker and commands; \<open>Mail_Service\<close>: what
    becomes of them over the whole service. \<open>Genjwt\<close>
    (\<open>cmd/genjwt\<close>, \<open>cmd/mock_op\<close>): the login service. \<open>Mock_Prex\<close> (\<open>cmd/mock_prex\<close>): the quota authority.
    \<open>Programs\<close>: every \<open>main\<close>, with its failures, address and routes, the CORS options (\<open>internal/api/utils.go\<close>) and
    the commands of the mail example with their flags.

  State is passed explicitly: \<open>'r\<close> is the state of Redis, and a handler returns its result and the new
  state. A result is \<open>Ok\<close>, \<open>Err\<close> with the status code and format string of the return statement, or
  \<open>Panic\<close>; \<open>log.Fatal\<close> is a \<open>Panic\<close> too. Times are nanoseconds; the time of a call, random values and
  identifiers are arguments. 64-bit arithmetic wraps where the source's does (\<open>wrap64\<close>).

  \<^bold>\<open>Requests at the same time.\<close> The server handles each request in a goroutine of its own; the handlers write no
  memory they share, so they meet in Redis alone. A handler is written over any Redis client. Run over the
  client \<open>replay_client\<close>, which answers from a list of recorded answers, it stops at the first command that has none:
  so the one definition of a handler also says which command it runs next, and a \<open>system\<close> (\<open>Concurrency\<close>) is the store with
  the requests in flight and their recorded answers. A step is an arrival, one command of one
  request, or time passing. One method of the client is one command; the cursor of \<open>HSCAN\<close>, which the client
  library turns into several commands, counts as one. A command is answered at once, but for the \<open>XREAD\<close> of \<open>GetStreamValue\<close>: the
  handler sets no \<open>Block\<close>, the client sends \<open>BLOCK 0\<close>, and where there is no later entry the command waits without a limit. Such a
  command is no step of the system until its stream has an entry for it, and the handler called alone gives
  \<open>Err Unanswered\<close>, which stands for not having returned. The time a request arrives and its identifier
  are those of the whole request. \<open>follows\<close> ties the two readings of a handler to one resumption, a tree that is
  well-founded, which gives termination; \<open>sequential_runs_interleave\<close> says that runs of \<open>serve\<close> in which nothing waits are interleavings.

  \<^bold>\<open>What the theorems show.\<close> Of the whole service, in this theory, under every interleaving: the invariant of the
  keyspace holds in every reachable state, the balances follow the ledger, no session is overspent, content that is
  served hashes to the name it was asked for, streams are append-only logs whose acknowledged entries are kept and read, and
  every request can come to its answer but those that ask for an entry that has not been appended. Two prolongations of a value at the same
  time, though, can lose one, and an append can be lost with the stream when it is the old life of the stream that ends between its two
  commands (\<open>acknowledged_append_lost\<close>). Of single requests: the value handlers refine an abstract store, with every error, and
  exactly two kinds of requests crash their handler. An answer has the type of its procedure, a request without a valid token has no effect, a
  REST request is nothing but one request of the service. Of the components: round trips (store and read a
  value, append and list, register and search, sealed content, \<open>did:key\<close>), the agreement of the gateway's two
  sets of handlers, the functional behaviour of pagination and prolongation, that paging ends, who may
  read a stream and open a session, that valid tokens are accepted, and bounds of the answers. Some theorems
  record where the code does something else than it means to: panics on tokens without claims or
  expiry, session tokens that carry the signing key, an overflow that deletes a value, a REST route that
  reaches no value, a mail example that its own service refuses, and others.

  \<^bold>\<open>Interfaces.\<close> \<open>redis_contract\<close> is interpreted by \<open>Redis_Memory\<close>; \<open>Session\<close> states the ledger interface that the
  spending bound is proved from and interprets it by the code over any Redis that meets the contract; \<open>Command_Policy\<close>
  states which families of commands a handler may run, with two policies as instances: every command, and the commands that
  keep the invariant;
  \<open>Interceptor\<close> states what the session interceptor needs of its three managers; \<open>Service\<close> collects the
  assumptions on the outside world.

  \<^bold>\<open>Bounds and termination.\<close> No definition has fuel: every loop of the modelled code runs over a list that
  is there when the loop starts, and is a structural recursion. The handlers are therefore total, and whether a request is answered
  depends on its commands being answered: \<open>requests_answered_or_wait\<close> says which are not. The reader who asks for page after page
  of a stream (\<open>read_pages\<close>) is not bounded by anything and is a \<open>partial_function\<close>; that it ends is \<open>paging_ends\<close>.

  \<^bold>\<open>Hypotheses.\<close> The outside world is assumed to keep its contracts (\<open>service_world\<close>). The theorems on whole runs assume, as a premise of their statements, that all requests create streams under names that start with
  \<open>accounts/\<close> and prolong values under names that start with \<open>values/\<close> (\<open>well_named\<close>, \<open>all_named\<close>). The patterns of
  the message definitions do not enforce this, as they are not anchored: a valid request can prolong a stream, for instance. They
  also ask for accounts named by a DID, which the handlers do not read from a name; the only names that are both
  valid and read contain a second name, as \<open>demo_nested\<close> does. The searches of the index read base58 strings back out of keys, which have no
  slash or colon (\<open>base58_plain\<close>). The theorems on streams take the time of every request to be small enough for
  the arithmetic on it not to wrap (\<open>on_time\<close>), and those on acknowledged appends speak of the time before \<open>d\<close>, which no stream that is
  there at the start ends before and which is within seven days, the life that every append gives its stream. The store of values
  is refined for lives that are not negative and times of expiry that fit 64 bits (\<open>value_times_ok\<close>). Which requests crash depends on the token library, which
  panics when the key function does or the claims are \<open>nil\<close> (\<open>jwt_calm\<close>), on the encoding of digests not failing (\<open>sha2_encodes\<close>),
  and on the secret having signed tokens with registered claims only (\<open>own_tokens_registered\<close>). Connections to Redis are up in these theorems; the error branches of
  the handlers are in the definitions.

  \<^bold>\<open>Not modelled.\<close> The reflection code of \<open>kvstore.pb.go\<close> and the server registration of \<open>kvstore_grpc.pb.go\<close>, which
  protoc writes for its runtime. Listening, logging, the parsing of arguments by \<open>cobra\<close>, the answers of gRPC reflection and
  the headers of CORS, which are the work of third-party packages; what the programs hand to them is in
  \<open>Programs\<close>. The context of a request, its cancellation and deadline.
\<close>

section \<open>Properties of the whole service\<close>

text \<open>
  The invariant holds in every reachable state. From a state in which every session key holds a
  64-bit balance without an expiry, every value is stored under its own content identifier and every
  index key holds a value of its type, each run of requests, with time passing between them, ends in
  such a state, whatever the requests carry and however they fail, as long as streams are created
  under names that start with \<open>accounts/\<close> and values are prolonged under names that start with \<open>values/\<close>.
\<close>

theorem reachable_states_intact:
  assumes "service_world W view clock up decode verifies" and "service_run W srv view clock up s es s'"
    and "service_inv (wL W) view up s" and "list_all event_named es"
  shows "service_inv (wL W) view up s'"
  using service_world.run_effect [OF assms] by blast

definition demo_login_request :: AnyRequest where
  "demo_login_request = \<lparr>Procedure = CreateSessionProcedure, AuthorizationHeader = [], AnyMsg = MCreateSession \<lparr>cs_Jwt = ''quota''\<rparr>\<rparr>"

definition demo_events :: "event list" where
  "demo_events =
     (let (r1, s1) = serve demo_world demo_server ''uuid'' (1000 * Second) demo_login_request demo_mem;
          (r2, s2) = serve demo_world demo_server ''uuid'' (1000 * Second) demo_request s1
      in [Request ''uuid'' (1000 * Second) demo_login_request r1, Request ''uuid'' (1000 * Second) demo_request r2])"

lemma demo_events_run: "\<exists>s'. service_run demo_world demo_server mkeys mclock mup demo_mem demo_events s'"
  by (cases "serve demo_world demo_server ''uuid'' (1000 * Second) demo_login_request demo_mem";
      cases "serve demo_world demo_server ''uuid'' (1000 * Second) demo_request
        (snd (serve demo_world demo_server ''uuid'' (1000 * Second) demo_login_request demo_mem))")
     (auto simp: demo_events_def intro!: exI run_nil run_request)

lemma demo_events_named: "list_all event_named demo_events"
  by (simp add: demo_events_def demo_login_request_def demo_request_def case_prod_beta)

lemma demo_events_calls: "calls_of demo_world demo_server demo_events =
    [CCreate ''jti'' 10 (1999000 * Second), CDeduct demo_sid 1]"
proof -
  have "routed demo_login_request" "open_door demo_server demo_login_request" "routed demo_request" "\<not> open_door demo_server demo_request"
    using demo_not_free
    by (simp_all add: routed_def open_door_def procedures_def demo_login_request_def demo_request_def free_of_charge_def skipAuth_def
        demo_login_config_def demo_config_def)
  moreover have "plan demo_world demo_server (1000 * Second) demo_request = Inr (demo_sid, 1)"
    using demo_plan by (simp add: plan_def)
  moreover have "quota_grant (VerifyAndParseJwt demo_jwt demo_auth) (1000 * Second) \<lparr>cs_Jwt = ''quota''\<rparr> = Some (''jti'', 10, 1999000 * Second)"
    using demo_quota by (simp add: quota_grant_def demo_quota_claims_def empty_registered_def Second_def)
  ultimately show ?thesis
    by (simp add: demo_events_def case_prod_beta Let_def request_calls_def login_calls_def)
       (simp add: demo_login_request_def)
qed

theorem reachable_states_intact_witness:
  "\<exists>s'. service_run demo_world demo_server mkeys mclock mup demo_mem demo_events s' \<and> service_inv demo_libs mkeys mup s'"
proof -
  obtain s' where "service_run demo_world demo_server mkeys mclock mup demo_mem demo_events s'" using demo_events_run ..
  with reachable_states_intact [OF demo.service_world_axioms this _ demo_events_named] demo_mem_inv show ?thesis by auto
qed

text \<open>
  The service refines the ledger. After any run, the balances in Redis are those the abstract ledger
  has after the creations of the accepted quota tokens and the charges of the requests that passed
  authentication, in their order, and nothing else a request does moves a balance.
\<close>

theorem service_refines_ledger:
  assumes "service_world W view clock up decode verifies" and "service_run W srv view clock up s es s'"
    and "service_inv (wL W) view up s" and "list_all event_named es"
  shows "session_led view s' = foldl (\<lambda>l e. ledger_step e l) (session_led view s)
    (map (call_event (hashToSessionId (wL W) (srv_sessionManager srv))) (calls_of W srv es))"
  using service_world.run_effect [OF assms] by blast

theorem service_refines_ledger_witness:
  "\<exists>s'. service_run demo_world demo_server mkeys mclock mup demo_mem demo_events s' \<and> session_led mkeys s' = [demo_sid \<mapsto> 9]"
proof -
  obtain s' where r: "service_run demo_world demo_server mkeys mclock mup demo_mem demo_events s'" using demo_events_run ..
  have l: "session_led mkeys demo_mem = Map.empty" by (rule ext) simp
  from service_refines_ledger [OF demo.service_world_axioms r _ demo_events_named] demo_mem_inv r show ?thesis
    by (auto simp: demo_events_calls l demo_sid_def ledger_create_def ledger_charge_def ledger_left_def
        in_int64_def int64_min_def int64_max_def)
qed

text \<open>
  No client gets more than its quota. In any run from a state without a session, the prices of all
  requests that were charged to the session and answered without an error sum to at most the quantity
  of the first accepted quota token that opened it, however often that token is presented again and
  whatever other requests are interleaved.
\<close>

theorem service_never_overspent:
  assumes "service_world W view clock up decode verifies" and "service_run W srv view clock up s es s'"
    and "service_inv (wL W) view up s" and "list_all event_named es" and "session_led view s i = None"
  shows "answered_cost W srv i es \<le> first_quantity (hashToSessionId (wL W) (srv_sessionManager srv)) i (calls_of W srv es)"
  using service_world.run_spending [OF assms] .

theorem service_never_overspent_witness:
  "answered_cost demo_world demo_server demo_sid demo_events \<le> 10"
proof -
  obtain s' where r: "service_run demo_world demo_server mkeys mclock mup demo_mem demo_events s'" using demo_events_run ..
  from service_never_overspent [OF demo.service_world_axioms r _ demo_events_named, of demo_sid] demo_mem_inv show ?thesis
    by (simp add: demo_events_calls demo_sid_def)
qed

text \<open>
  Content that the service serves is authentic. In any run from a state whose values are intact, what
  a \<open>GetValue\<close> request is answered with hashes, under one of the two codecs, to the version 1 form of
  the identifier it asked for, whatever the other requests of the run stored.
\<close>

theorem served_content_authentic:
  assumes "service_world W view clock up decode verifies" and "service_run W srv view clock up s es s'"
    and "service_inv (wL W) view up s" and "list_all event_named es" and "cid_plain (wL W)"
    and "Request uuid now req (Ok (RGetValue resp)) \<in> set es" and "AnyMsg req = MGetValue m"
  shows "\<exists>c c' creq. gv_Name m = value_key c \<and> NormalizeCidToV1 (wL W) c = Inr c' \<and>
    cv_Value creq = gvr_Value resp \<and> calculateCid (wL W) creq = Ok c'"
  using service_world.run_content [OF assms] .

definition demo_get_request :: AnyRequest where
  "demo_get_request = \<lparr>Procedure = GetValueProcedure, AuthorizationHeader = [], AnyMsg = MGetValue \<lparr>gv_Name = value_key demo_cid\<rparr>\<rparr>"

definition demo_stored :: mem where
  "demo_stored = \<lparr>mclock = 0, mkeys = [value_key demo_cid \<mapsto> (RStr ''hello'', Some 60000)]\<rparr>"

lemma demo_stored_inv: "service_inv demo_libs mkeys mup demo_stored"
  using demo_kept_inv [of 0] by (simp add: demo_stored_def demo_kept_def)

lemma demo_get_served:
  "serve demo_world demo_open_server ''uuid'' 0 demo_get_request demo_stored = (Ok (RGetValue \<lparr>gvr_Value = ''hello''\<rparr>), demo_stored)"
proof -
  have u: "mup demo_stored" by (simp add: mup_def demo_stored_def)
  have o: "routed demo_get_request" "open_door demo_open_server demo_get_request"
    by (simp_all add: routed_def open_door_def procedures_def demo_get_request_def demo_open_server_def)
  have g: "GetValue demo_libs mem_redis \<lparr>gv_Name = value_key demo_cid\<rparr> demo_stored = (Ok \<lparr>gvr_Value = ''hello''\<rparr>, demo_stored)"
    using mem.GetValue_found [OF u normalize_of_value [OF demo_cid_roundtrip demo_calculateCid], of "''hello''" "Some 60000"]
    by (simp add: demo_stored_def GetValue_key normalize_of_value [OF demo_cid_roundtrip demo_calculateCid] mem_Get_def)
  with o show ?thesis
    by (simp add: serve_plan NewConnectValidationInterceptor_def protoValidation_def svc_def) (simp add: demo_get_request_def)
qed

theorem served_content_authentic_witness:
  "\<exists>c c' creq. value_key demo_cid = value_key c \<and> NormalizeCidToV1 demo_libs c = Inr c' \<and>
     cv_Value creq = ''hello'' \<and> calculateCid demo_libs creq = Ok c'"
proof -
  have r: "service_run demo_world demo_open_server mkeys mclock mup demo_stored
      [Request ''uuid'' 0 demo_get_request (Ok (RGetValue \<lparr>gvr_Value = ''hello''\<rparr>))] demo_stored"
    by (simp add: run_simps demo_get_served)
  from served_content_authentic [OF demo.service_world_axioms r, of "''uuid''" 0 demo_get_request "\<lparr>gvr_Value = ''hello''\<rparr>" "\<lparr>gv_Name = value_key demo_cid\<rparr>"]
    demo_stored_inv demo_cid_plain show ?thesis by (simp add: demo_get_request_def)
qed

subsection \<open>Requests at the same time\<close>

text \<open>
  C1. No client gets more than its quota, however its requests are interleaved. In every state that
  any number of requests can reach when their Redis commands are run in any order, with time passing between them, the
  prices of all requests that were charged to a session and answered without an error sum to at most what the
  session held at the start and, for a session that did not exist, the quantity of the first accepted quota
  token whose command opened it. This holds as long as all requests that have arrived create streams under names that start
  with \<open>accounts/\<close> and prolong values under names that start with \<open>values/\<close> (\<open>all_named\<close>).
\<close>

theorem concurrent_never_overspent:
  assumes "service_world W view clock up decode verifies" and "(system_step W srv view clock up)\<^sup>*\<^sup>* (idle s) sy"
    and "service_inv (wL W) view up s" and "all_named sy"
  shows "sum_list (map (process_cost W srv i) (sy_procs sy)) \<le> max 0 (bal (session_led view s) i) +
    (if session_led view s i = None
     then first_quantity (hashToSessionId (wL W) (srv_sessionManager srv)) i (sy_calls sy) else 0)"
proof -
  have "list_all call_ok (sy_calls sy)"
    using service_world.system_inv_reachable [OF assms, of i] by (simp add: system_inv_def)
  from service_world.admitted_of_calls [OF assms(1) this, where srv = srv and i = i and l = "session_led view s"] service_world.system_spending [OF assms, of i]
  show ?thesis by linarith
qed

lemma demo_race_reached:
  obtains s' ps where "(system_step demo_world demo_server mkeys mclock mup)\<^sup>*\<^sup>* (idle demo_race_mem) s'"
    and "sy_procs s' = ps" and "length ps = 2" and "\<And>p. p \<in> set ps \<Longrightarrow> p_req p = demo_race_request"
    and "\<And>p. p \<in> set ps \<Longrightarrow> \<exists>r. answer demo_world demo_server p = Some (Ok r)"
    and "session_led mkeys (sy_store s') = [demo_sid \<mapsto> 0]" and "all_named s'"
proof -
  have f: "2 * 1000 \<le> bal (session_led mkeys demo_race_mem) demo_sid" by (simp add: demo_race_mem_inv(2) bal_def)
  have v: "mkeys demo_race_mem (pv_Name demo_race_prolong) = Some (RStr ''hello'', Some 5000)"
    by (simp add: demo_race_facts demo_race_mem_def)
  have i: "in_int64 (AsDuration demo_libs (pv_Ttl demo_race_prolong) + (5000 - mclock demo_race_mem + 1000) * Millisecond)"
    by (simp add: demo_race_facts demo_race_mem_def in_int64_def int64_min_def int64_max_def duration_defs)
  have n: "well_named (AnyMsg demo_race_request)" using demo_race.named by (simp add: demo_race_request_def)
  from demo_race.prolongations_interleaved [OF _ f v] demo_race_mem_inv i obtain s' ps cs where
    "(system_step demo_world demo_server mkeys mclock mup)\<^sup>*\<^sup>* (idle demo_race_mem) \<lparr>sy_store = s', sy_procs = ps, sy_calls = cs\<rparr>"
    "length ps = 2" "\<forall>p \<in> set ps. p_req p = demo_race_request \<and> (\<exists>r. answer demo_world demo_server p = Some (Ok r))"
    "session_led mkeys s' = [demo_sid \<mapsto> 0]" by (auto simp: reaches_def bal_def)
  with n show thesis
    by (intro that [of "\<lparr>sy_store = s', sy_procs = ps, sy_calls = cs\<rparr>" ps]) (auto simp: all_named_def list_all_iff)
qed

theorem concurrent_never_overspent_witness:
  "\<exists>sy. (system_step demo_world demo_server mkeys mclock mup)\<^sup>*\<^sup>* (idle demo_race_mem) sy \<and> length (sy_procs sy) = 2 \<and>
     sum_list (map (process_cost demo_world demo_server demo_sid) (sy_procs sy)) \<le> 2000"
proof -
  obtain sy ps where r: "(system_step demo_world demo_server mkeys mclock mup)\<^sup>*\<^sup>* (idle demo_race_mem) sy"
    "sy_procs sy = ps" "length ps = 2" "all_named sy" using demo_race_reached by metis
  from concurrent_never_overspent [OF demo.service_world_axioms r(1) _ r(4), of demo_sid] demo_race_mem_inv
  have "sum_list (map (process_cost demo_world demo_server demo_sid) (sy_procs sy)) \<le> 2000" by (simp add: bal_def)
  with r show ?thesis by (intro exI [of _ sy]) auto
qed

text \<open>
  C2. The interleaved service refines the ledger. Whatever requests are in flight, and whichever of their
  commands have run, the balances in Redis are those of the abstract ledger after the session calls whose
  commands have run, in that order, and the requests answered without an error are within what the ledger admits.
  The requests name streams and values as in C1 (\<open>all_named\<close>).
\<close>

theorem concurrent_refines_ledger:
  assumes "service_world W view clock up decode verifies" and "(system_step W srv view clock up)\<^sup>*\<^sup>* (idle s) sy"
    and "service_inv (wL W) view up s" and "all_named sy"
  shows "session_led view (sy_store sy) =
      foldl (\<lambda>l e. ledger_step e l) (session_led view s) (calls_events W srv (sy_calls sy)) \<and>
    sum_list (map (process_cost W srv i) (sy_procs sy)) \<le> admitted i (calls_events W srv (sy_calls sy)) (session_led view s)"
  using service_world.system_inv_reachable [OF assms, of i] service_world.system_spending [OF assms, of i]
  by (simp add: system_inv_def)

theorem concurrent_refines_ledger_witness:
  "\<exists>sy :: mem system. session_led mkeys (sy_store sy) = [demo_sid \<mapsto> 0] \<and>
     foldl (\<lambda>l e. ledger_step e l) [demo_sid \<mapsto> 2000] (calls_events demo_world demo_server (sy_calls sy)) = [demo_sid \<mapsto> 0]"
proof -
  obtain sy where r: "(system_step demo_world demo_server mkeys mclock mup)\<^sup>*\<^sup>* (idle demo_race_mem) sy"
    "session_led mkeys (sy_store sy) = [demo_sid \<mapsto> 0]" "all_named sy" using demo_race_reached by metis
  from concurrent_refines_ledger [OF demo.service_world_axioms r(1) _ r(3), of demo_sid] demo_race_mem_inv r(2) show ?thesis
    by (intro exI [of _ sy]) simp
qed

text \<open>
  C3. The invariant holds in every reachable state of an interleaving. From a state in which every session
  key holds a 64-bit balance without an expiry, every value is stored under its own content identifier and every
  index key holds a value of its type, every single command of the requests in flight leads to such a state,
  whatever the requests carry and in whatever order their commands run, as long as streams are created
  under names that start with \<open>accounts/\<close> and values are prolonged under names that start with \<open>values/\<close>.
\<close>

theorem concurrent_states_intact:
  assumes "service_world W view clock up decode verifies" and "(system_step W srv view clock up)\<^sup>*\<^sup>* (idle s) sy"
    and "service_inv (wL W) view up s" and "all_named sy"
  shows "service_inv (wL W) view up (sy_store sy)"
  using service_world.system_inv_reachable [OF assms, of "''''"] by (simp add: system_inv_def)

theorem concurrent_states_intact_witness:
  "\<exists>sy :: mem system. length (sy_procs sy) = 2 \<and> service_inv demo_libs mkeys mup (sy_store sy)"
proof -
  obtain sy ps where r: "(system_step demo_world demo_server mkeys mclock mup)\<^sup>*\<^sup>* (idle demo_race_mem) sy"
    "sy_procs sy = ps" "length ps = 2" "all_named sy" using demo_race_reached by metis
  with concurrent_states_intact [OF demo.service_world_axioms r(1) _ r(4)] demo_race_mem_inv show ?thesis
    by (intro exI [of _ sy]) simp
qed

text \<open>
  C4. Content that the service serves is authentic, also when other requests write at the same time. What a
  \<open>GetValue\<close> request of an interleaving is answered with hashes, under one of the two codecs, to the
  version 1 form of the identifier it asked for. The requests name streams and values as in C1 (\<open>all_named\<close>).
\<close>

theorem concurrent_content_authentic:
  assumes "service_world W view clock up decode verifies" and "(system_step W srv view clock up)\<^sup>*\<^sup>* (idle s) sy"
    and "service_inv (wL W) view up s" and "all_named sy" and "cid_plain (wL W)"
    and "p \<in> set (sy_procs sy)" and "answer W srv p = Some (Ok (RGetValue resp))" and "AnyMsg (p_req p) = MGetValue m"
  shows "\<exists>c c' creq. gv_Name m = value_key c \<and> NormalizeCidToV1 (wL W) c = Inr c' \<and>
    cv_Value creq = gvr_Value resp \<and> calculateCid (wL W) creq = Ok c'"
proof -
  have "genuine_answers W srv view up p"
    using service_world.genuine_reachable [OF assms(1-4)] assms(6) by (simp add: list_all_iff)
  from service_world.served_GetValue [OF assms(1) this assms(8,7)] obtain t
    where t: "service_inv (wL W) view up t" "fst (GetValue (wL W) (wR W) m t) = Ok resp" by blast
  have "redis_contract (wR W) view clock up"
    using assms(1) by (simp add: service_world_def token_redis_def)
  from redis_contract.GetValue_authentic [OF this _ _ assms(5) t(2)] t(1) show ?thesis
    by (simp add: service_inv_def sessions_wf_def)
qed

theorem concurrent_content_authentic_witness:
  "\<exists>c c' creq. value_key demo_cid = value_key c \<and> NormalizeCidToV1 demo_libs c = Inr c' \<and>
     cv_Value creq = ''hello'' \<and> calculateCid demo_libs creq = Ok c'"
proof -
  have n: "\<And>m. AnyMsg demo_get_request \<noteq> MGetStreamValue m" by (simp add: demo_get_request_def)
  obtain sy as where r: "(system_step demo_world demo_open_server mkeys mclock mup)\<^sup>*\<^sup>* (idle demo_stored) sy"
    "sy_procs sy = [\<lparr>p_uuid = ''uuid'', p_now = 0, p_req = demo_get_request, p_answers = as\<rparr>]"
    "answer demo_world demo_open_server \<lparr>p_uuid = ''uuid'', p_now = 0, p_req = demo_get_request, p_answers = as\<rparr> =
       Some (Ok (RGetValue \<lparr>gvr_Value = ''hello''\<rparr>))"
    using serve_alone [OF n, of demo_world demo_open_server "''uuid''" 0 "idle demo_stored" _ _ mkeys mclock mup] demo_get_served
    by (auto simp: idle_def)
  have "all_named sy" using r(2) by (simp add: all_named_def demo_get_request_def)
  from concurrent_content_authentic [OF demo.service_world_axioms r(1) _ this _ _ r(3), of "\<lparr>gv_Name = value_key demo_cid\<rparr>"]
    demo_stored_inv demo_cid_plain r(2) show ?thesis by (simp add: demo_get_request_def)
qed

text \<open>
  Requests one after the other are an interleaving. Every run of \<open>serve\<close> without \<open>GetStreamValue\<close> requests, which may have to wait,
  a request being served to its end before the next one starts, is reached by the steps of a system: the same store, and each request
  with the answer \<open>serve\<close> gave it. So what holds of all interleavings holds of \<open>serve\<close>, and the commands of a
  request run alone do what \<open>serve\<close> does.
\<close>

theorem sequential_runs_interleave:
  assumes "service_run W srv view clock up s es s'" and "list_all event_prompt es"
  shows "\<exists>sy. (system_step W srv view clock up)\<^sup>*\<^sup>* (idle s) sy \<and> sy_store sy = s' \<and>
    map (outcome W srv) (sy_procs sy) = concat (map event_process es)"
  using service_run_system [of W srv view clock up "idle s" es s'] assms by (simp add: idle_def)

theorem sequential_runs_interleave_witness:
  "\<exists>sy. (system_step demo_world demo_server mkeys mclock mup)\<^sup>*\<^sup>* (idle demo_mem) sy \<and>
     map (outcome demo_world demo_server) (sy_procs sy) = concat (map event_process demo_events)"
proof -
  obtain s' where r: "service_run demo_world demo_server mkeys mclock mup demo_mem demo_events s'" using demo_events_run ..
  have "list_all event_prompt demo_events"
    by (simp add: demo_events_def demo_login_request_def demo_request_def case_prod_beta)
  from sequential_runs_interleave [OF r this] show ?thesis by blast
qed

text \<open>
  C11. Two prolongations at the same time prolong once. \<open>ProlongValue\<close> reads the time left and writes the new time in
  two commands, so a second request can read between them: there is an interleaving of two equal paid requests for a
  value with an expiry in which both are answered without an error and both are charged, and the life of the
  value is extended by what one of them asked for.
\<close>

theorem prolongations_lose_update:
  assumes "service_world W view clock up decode verifies" and "prolong_request W srv now req m i price"
    and "HasPrefix (pv_Name m) ''values/''" and "service_inv (wL W) view up s"
    and "2 * price \<le> bal (session_led view s) i" and "view s (pv_Name m) = Some (val, Some till)"
    and "\<forall>t e. up t \<longrightarrow> view t (pv_Name m) = Some (val, e) \<longrightarrow>
      (\<exists>n \<le> pv_MaxSize m. fst (rMemoryUsage (wR W) (pv_Name m) t) = Inr n)"
    and "in_int64 (AsDuration (wL W) (pv_Ttl m) + (till - clock s + 1000) * Millisecond)"
  shows "\<exists>sy till'. (system_step W srv view clock up)\<^sup>*\<^sup>* (idle s) sy \<and> length (sy_procs sy) = 2 \<and>
    (\<forall>p \<in> set (sy_procs sy). p_req p = req \<and> (\<exists>r. answer W srv p = Some (Ok r))) \<and>
    session_led view (sy_store sy) = (session_led view s)(i \<mapsto> bal (session_led view s) i - 2 * price) \<and>
    view (sy_store sy) (pv_Name m) = Some (val, Some till') \<and>
    \<bar>till' * Millisecond - (till * Millisecond + AsDuration (wL W) (pv_Ttl m))\<bar> < 2 * Second"
proof -
  have "prolong_service W view clock up decode verifies srv now req m i price val"
    using assms(1-3,7) by (auto simp: prolong_service_def prolong_service_axioms_def)
  from prolong_service.prolongations_interleaved [OF this assms(4-6,8)] obtain s' ps till' where
    "reaches W srv view clock up s s' ps" "length ps = 2" "\<forall>p \<in> set ps. p_req p = req \<and> (\<exists>r. answer W srv p = Some (Ok r))"
    "session_led view s' = (session_led view s)(i \<mapsto> bal (session_led view s) i - 2 * price)" "view s' (pv_Name m) = Some (val, Some till')"
    "\<bar>till' * Millisecond - (till * Millisecond + AsDuration (wL W) (pv_Ttl m))\<bar> < 2 * Second" by metis
  moreover from this(1) obtain cs where
    "(system_step W srv view clock up)\<^sup>*\<^sup>* (idle s) \<lparr>sy_store = s', sy_procs = ps, sy_calls = cs\<rparr>" by (auto simp: reaches_def)
  ultimately show ?thesis
    by (intro exI [of _ "\<lparr>sy_store = s', sy_procs = ps, sy_calls = cs\<rparr>"] exI [of _ till']) simp
qed

theorem prolongations_lose_update_witness:
  "\<exists>(sy :: mem system) till'. length (sy_procs sy) = 2 \<and> session_led mkeys (sy_store sy) = [demo_sid \<mapsto> 0] \<and>
     mkeys (sy_store sy) (value_key demo_cid) = Some (RStr ''hello'', Some till') \<and> \<bar>till' - 65000\<bar> < 2000"
proof -
  have v: "mkeys demo_race_mem (pv_Name demo_race_prolong) = Some (RStr ''hello'', Some 5000)"
    by (simp add: demo_race_facts demo_race_mem_def)
  have i: "in_int64 (AsDuration (wL demo_world) (pv_Ttl demo_race_prolong) + (5000 - mclock demo_race_mem + 1000) * Millisecond)"
    by (simp add: demo_race_facts demo_race_mem_def in_int64_def int64_min_def int64_max_def duration_defs)
  have z: "\<forall>t e. mup t \<longrightarrow> mkeys t (pv_Name demo_race_prolong) = Some (RStr ''hello'', e) \<longrightarrow>
      (\<exists>n \<le> pv_MaxSize demo_race_prolong. fst (rMemoryUsage (wR demo_world) (pv_Name demo_race_prolong) t) = Inr n)"
    using demo_race.size by blast
  from prolongations_lose_update [OF demo.service_world_axioms demo_race.prolong_request_axioms demo_race.named _ _ v z i]
    demo_race_mem_inv obtain sy :: "mem system" and till' where
    "length (sy_procs sy) = 2" "session_led mkeys (sy_store sy) = [demo_sid \<mapsto> 0]"
    "mkeys (sy_store sy) (value_key demo_cid) = Some (RStr ''hello'', Some till')"
    "\<bar>till' * Millisecond - (5000 * Millisecond + 60 * Second)\<bar> < 2 * Second"
    by (auto simp: bal_def demo_race_facts)
  then show ?thesis by (intro exI [of _ sy] exI [of _ till']) (simp add: duration_defs)
qed

text \<open>
  C10. An answer has the type of its procedure. What \<open>serve\<close> answers without an error, over any Redis and in any
  state, is the response message of the procedure the request names, which is also the procedure of the
  message it carries; the messages inside it that a client reads without a check are present, and the names
  in it are those of the request or of their family.
\<close>

theorem answers_typed:
  assumes "serve W srv uuid now req s = (Ok r, s')"
  shows "Procedure req = request_procedure (AnyMsg req) \<and> response_of (AnyMsg req) r"
proof -
  have v: "response_of (AnyMsg req) r"
    if "NewConnectValidationInterceptor (wValidate W) (svc W srv uuid) now cs req t = (Ok r, s')" for cs t
    using that svc_typed by (auto simp: NewConnectValidationInterceptor_def split: option.splits)
  have "routed req" using assms by (simp add: serve_plan split: if_splits)
  moreover have "response_of (AnyMsg req) r"
  proof (cases "open_door srv req")
    case True
    with assms v \<open>routed req\<close> show ?thesis by (simp add: serve_plan)
  next
    case False
    with assms v \<open>routed req\<close> gate_plan_Inl [of GetPrice "VerifyAndParseJwt (wJ W) (srv_authmanager srv)" now req "Ok r"]
    show ?thesis by (auto simp: serve_plan plan_def split: sum.splits prod.splits result.splits)
  qed
  ultimately show ?thesis by (simp add: routed_def)
qed

theorem answers_typed_witness:
  "Procedure demo_get_request = request_procedure (AnyMsg demo_get_request) \<and>
   response_of (AnyMsg demo_get_request) (RGetValue \<lparr>gvr_Value = ''hello''\<rparr>)"
  by (rule answers_typed [OF demo_get_served])

text \<open>
  C13. No token, no effect. With authentication enabled, a request to a procedure that is not free, whose
  bearer token is not an unexpired HS256 token under the service's own secret, or that has none, is
  answered with an error and changes nothing in the store.
\<close>

theorem no_token_no_effect:
  assumes "service_world W view clock up decode verifies" and "\<not> open_door srv req"
    and "\<forall>tok c. bearer req = Some tok \<longrightarrow> \<not> own_token decode verifies (srv_authmanager srv) tok c now"
  shows "\<exists>r. serve W srv uuid now req s = (r, s) \<and> \<not> is_Ok r"
  using service_world.no_own_token_stops [OF assms(1,2)] assms(3) by blast

definition demo_forged :: AnyRequest where
  "demo_forged = demo_request\<lparr>AuthorizationHeader := [''Bearer quota'']\<rparr>"

theorem no_token_no_effect_witness:
  "\<exists>r. serve demo_world demo_server ''uuid'' (1000 * Second) demo_forged demo_funded = (r, demo_funded) \<and> \<not> is_Ok r"
proof -
  have o: "\<not> open_door demo_server demo_forged"
    using demo_not_free by (simp add: open_door_def demo_forged_def free_of_charge_def demo_login_config_def demo_config_def)
  have b: "bearer demo_forged = Some ''quota''"
    by (simp add: bearer_def demo_forged_def HeaderGet_def demo_bearer)
  have "\<not> own_token (table_decode demo_tokens) demo_verifies (srv_authmanager demo_server) ''quota'' c (1000 * Second)" for c
    by (auto simp: own_token_def table_decode_def demo_tokens_def split: if_splits)
  with no_token_no_effect [OF demo.service_world_axioms o] b show ?thesis by simp
qed

text \<open>
  C34. An invalid request is paid for. A request that passes authentication and can be paid, but whose
  message the validator rejects, is answered with \<open>InvalidArgument\<close> after its price has been taken
  from the session; no other key changes.
\<close>

theorem invalid_request_charged:
  assumes "service_world W view clock up decode verifies" and "service_inv (wL W) view up s"
    and "routed req" and "\<not> open_door srv req" and "plan W srv now req = Inr (i, p)" and "0 < p"
    and "p \<le> bal (session_led view s) i" and "wValidate W (AnyMsg req) = Some e"
  shows "\<exists>s'. serve W srv uuid now req s = (Err (Status InvalidArgument ''failed to parse proto: %s''), s') \<and>
    session_led view s' = (session_led view s)(i \<mapsto> bal (session_led view s) i - p) \<and> sessions_only view s s'"
  using service_world.invalid_is_charged [OF assms] .

definition demo_strict_world :: "mem world" where
  "demo_strict_world = demo_world\<lparr>wValidate := (\<lambda>_. Some (LibErr ''invalid''))\<rparr>"

interpretation strict: service_world demo_strict_world mkeys mclock mup "table_decode demo_tokens" demo_verifies
  using mem_tokens.token_redis_axioms demo_jwt_int64
  by (simp add: demo_strict_world_def service_world_def service_world_axioms_def)

lemma demo_funded_inv: "service_inv demo_libs mkeys mup demo_funded"
  using demo_funded_wf(1)
  by (auto simp: service_inv_def sessions_permanent_def demo_funded_def values_intact_def index_wf_def intro: key_typed_other split: if_splits)

theorem invalid_request_charged_witness:
  "\<exists>s'. serve demo_strict_world demo_server ''uuid'' (1000 * Second) demo_request demo_funded =
      (Err (Status InvalidArgument ''failed to parse proto: %s''), s') \<and> session_led mkeys s' = [demo_sid \<mapsto> 9]"
proof -
  have W: "wL demo_strict_world = demo_libs" "wJ demo_strict_world = demo_jwt"
    "wValidate demo_strict_world (AnyMsg demo_request) = Some (LibErr ''invalid'')"
    by (simp_all add: demo_strict_world_def)
  have o: "routed demo_request" "\<not> open_door demo_server demo_request"
    using demo_not_free by (simp_all add: routed_def open_door_def procedures_def demo_request_def demo_login_config_def demo_config_def)
  have p: "plan demo_strict_world demo_server (1000 * Second) demo_request = Inr (demo_sid, 1)"
    using demo_plan by (simp add: plan_def W)
  from invalid_request_charged [OF strict.service_world_axioms _ o p _ _ W(3), of demo_funded "''uuid''"] demo_funded_inv
  show ?thesis by (auto simp: W demo_funded_wf(2) bal_def)
qed

text \<open>
  C24. Sessions come from the configured authority only. If a server made by \<open>NewServer\<close> answers a
  \<open>CreateSession\<close> request, then the token in it, as the token library decodes it, is an EdDSA token whose claims
  name the configured quota authority as the issuer, ask for the creation of a session with a positive quantity,
  and have dates that hold, and it verifies under that authority's public key.
\<close>

theorem only_quota_authority_opens:
  assumes "service_world W view clock up decode verifies" and "NewServer conf randRead = Ok srv"
    and "service_inv (wL W) view up s" and "serve W srv uuid now req s = (Ok (RCreateSession resp), s')"
    and "AnyMsg req = MCreateSession m"
  shows "\<exists>t r q expireAt. decode (cs_Jwt m) (CreateSessionClaims empty_create_claims) = Some t \<and> tk_Method t = SigningMethodEd25519 \<and>
    quota_claims (tk_Claims t) now r q expireAt \<and> rc_Issuer r = cf_QuotaAuthorityDid conf \<and> dates_valid r now \<and>
    verifies SigningMethodEd25519 (PublicKey (cf_QuotaAuthorityPublicKey conf)) (cs_Jwt m)"
proof -
  have "am_trustedIssuers (srv_authmanager srv) = [cf_QuotaAuthorityDid conf \<mapsto> cf_QuotaAuthorityPublicKey conf]"
    using assms(2) by (auto simp: NewServer_def NewStaticAuthManager_def split: result.splits)
  with service_world.session_answer_trusted [OF assms(1,3-5)] show ?thesis by (auto split: if_splits)
qed

definition demo_server_config :: Config where
  "demo_server_config = demo_login_config\<lparr>cf_QuotaAuthorityDid := ''did:example:prex'', cf_QuotaAuthorityPublicKey := ''pk''\<rparr>"

theorem only_quota_authority_opens_witness:
  "\<exists>srv resp s'. NewServer demo_server_config (Inr ''salt'') = Ok srv \<and>
     serve demo_world srv ''uuid'' (1000 * Second) demo_login_request demo_mem = (Ok (RCreateSession resp), s') \<and>
     demo_verifies SigningMethodEd25519 (PublicKey (cf_QuotaAuthorityPublicKey demo_server_config)) ''quota''"
proof -
  let ?srv = "\<lparr>srv_config = demo_server_config, srv_sessionManager = demo_salt, srv_authmanager = demo_auth, srv_unitPrice = 1\<rparr>"
  have n: "NewServer demo_server_config (Inr ''salt'') = Ok ?srv"
    by (simp add: NewServer_def NewRedisSessionManager_def NewStaticAuthManager_def demo_salt_def demo_auth_def
        demo_server_config_def demo_login_config_def)
  have m: "AnyMsg demo_login_request = MCreateSession \<lparr>cs_Jwt = ''quota''\<rparr>" by (simp add: demo_login_request_def)
  have o: "routed demo_login_request" "open_door ?srv demo_login_request"
    by (simp_all add: routed_def open_door_def procedures_def demo_login_request_def free_of_charge_def skipAuth_def)
  have "generateJwt demo_jwt demo_server_config ''uuid'' demo_sid (2000000 * Second) = Inr ''sess''"
    using demo_generate by (simp add: demo_server_config_def generateJwt_def session_token_def)
  then obtain resp s' where "CreateSession demo_jwt demo_server_config (VerifyAndParseJwt demo_jwt demo_auth)
      (sm_CreateSession demo_libs mem_redis demo_salt) ''uuid'' (1000 * Second) \<lparr>cs_Jwt = ''quota''\<rparr> demo_mem = (Ok resp, s')"
    using demo_login demo_quota unfolding CreateSession_Ok
    by (auto simp: quota_claims_def demo_quota_claims_def empty_registered_def)
  with o m have v: "serve demo_world ?srv ''uuid'' (1000 * Second) demo_login_request demo_mem = (Ok (RCreateSession resp), s')"
    by (simp add: serve_plan NewConnectValidationInterceptor_def protoValidation_def svc_def)
  from only_quota_authority_opens [OF demo.service_world_axioms n _ v m] demo_mem_inv n v show ?thesis by auto
qed

text \<open>
  C26. A REST request is one request of the service. What the gateway does with an HTTP request is to refuse it
  without an effect, or exactly what the service does with one request: that of the procedure of the
  message the gateway built, under the authorization it took over from the HTTP request for that
  procedure. So nothing can be had through the gateway that the session interceptor would refuse.
\<close>

theorem gateway_is_one_request:
  assumes "NewClient endpoint = Inr conn" and "delivers conn '''' (serve W srv uuid now)"
    and "gateway_run G NewClient endpoint = Inr gateway"
  shows "(\<exists>e. gateway req s = (Err e, s)) \<or>
    (\<exists>header m template. AnnotateContext G req (request_procedure m) template = Inr header \<and>
       gateway req s = serve W srv uuid now \<lparr>Procedure = request_procedure m, AuthorizationHeader = header, AnyMsg = m\<rparr> s)"
proof -
  have "gateway = gateway_serve G (RegisterKvStoreServiceHandler G conn)"
    using assms(1,3) by (simp add: gateway_run_def RegisterKvStoreServiceHandlerFromEndpoint_def)
  moreover have "conn path header m = serve W srv uuid now \<lparr>Procedure = path, AuthorizationHeader = header, AnyMsg = m\<rparr>" for path header m
    using assms(2) by (simp add: delivers_def fun_eq_iff)
  ultimately show ?thesis using gateway_serve_one_call [of G conn req s] by auto
qed

lemma demo_conn_delivers: "delivers demo_conn '''' (serve demo_world demo_server ''uuid'' 0)"
  by (simp add: delivers_def demo_conn_def)

theorem gateway_is_one_request_witness:
  "\<exists>gateway. gateway_run demo_runtime (\<lambda>_. Inr demo_conn) echoEndpoint = Inr gateway \<and>
     ((\<exists>e. gateway demo_rest_ping demo_mem = (Err e, demo_mem)) \<or>
      (\<exists>header m. hq_Authorization demo_rest_ping = header \<and> gateway demo_rest_ping demo_mem =
         serve demo_world demo_server ''uuid'' 0 \<lparr>Procedure = request_procedure m, AuthorizationHeader = header, AnyMsg = m\<rparr> demo_mem))"
proof -
  let ?g = "gateway_serve demo_runtime (RegisterKvStoreServiceHandler demo_runtime demo_conn)"
  have g: "gateway_run demo_runtime (\<lambda>_. Inr demo_conn) echoEndpoint = Inr ?g"
    by (simp add: gateway_run_def RegisterKvStoreServiceHandlerFromEndpoint_def)
  have "AnnotateContext demo_runtime demo_rest_ping p t = Inr (hq_Authorization demo_rest_ping)" for p t
    by (simp add: demo_runtime_def)
  with gateway_is_one_request [of "\<lambda>_. Inr demo_conn", OF refl demo_conn_delivers g, of demo_rest_ping demo_mem] g
  show ?thesis by auto
qed

text \<open>
  C37. The REST route for prolonging reaches no value. Its template binds names of the form
  \<open>accounts/<a>/values/<b>\<close>, while values are stored under \<open>values/<cid>\<close> and the handler takes the name as the
  key: whatever the request and its outcome, every stored value and its expiry stay as they were.
\<close>

theorem gateway_prolongs_no_value:
  assumes "service_world W view clock up decode verifies" and "service_inv (wL W) view up s"
    and "delivers conn '''' (serve W srv uuid now)"
    and "rt_Match G (map (\<lambda>(m, p, h). (m, p)) (RegisterKvStoreServiceHandler G conn)) req = Some (i, params)"
    and "i < length (RegisterKvStoreServiceHandler G conn)"
    and "fst (snd (RegisterKvStoreServiceHandler G conn ! i)) = pattern_KvStoreService_ProlongValue_0"
    and "params ''name'' = Some (''accounts/'' @ a @ ''/values/'' @ b)" and "\<forall>v. runtime_String G v = Inr v"
  shows "view (snd (gateway_serve G (RegisterKvStoreServiceHandler G conn) req s)) (value_key c) = view s (value_key c)"
proof -
  define h where "h = gateway_handler (AnnotateContext G) ProlongValueProcedure ''/v1/{name=accounts/*/values/*}:prolong''
    (request_KvStoreService_ProlongValue_0 G (grpc_NewKvStoreServiceClient conn)) req params s"
  define name where "name = ''accounts/'' @ a @ ''/values/'' @ b"
  have g: "gateway_serve G (RegisterKvStoreServiceHandler G conn) req s = h"
    using assms(4,5) prolong_route [OF assms(5,6)] by (simp add: gateway_serve_def h_def)
  have d: "conn path header m s = serve W srv uuid now \<lparr>Procedure = path, AuthorizationHeader = header, AnyMsg = m\<rparr> s" for path header m
    using assms(3) by (simp add: delivers_def)
  have n: "value_key c \<noteq> name" by (simp add: value_key_def name_def)
  have "(\<exists>e. h = (Err e, s)) \<or> (\<exists>ctx m. pv_Name m = name \<and> h = conn ProlongValueProcedure ctx (MProlongValue m) s)"
    unfolding h_def using assms(7,8) by (intro prolong_call) (simp_all add: name_def)
  then consider e where "h = (Err e, s)" | ctx m where "pv_Name m = name" "h = conn ProlongValueProcedure ctx (MProlongValue m) s"
    by blast
  then show ?thesis
  proof cases
    case 1
    with g show ?thesis by simp
  next
    case (2 ctx m)
    from n 2(1) have "value_key c \<noteq> pv_Name m" by metis
    from service_world.serve_prolong_other [OF assms(1,2) _ this] show ?thesis unfolding g 2(2) d by simp
  qed
qed

definition demo_rest_prolong :: http_Request where
  "demo_rest_prolong = demo_rest_ping\<lparr>hq_Method := ''POST'', hq_Path := ''/v1/accounts/bob/values/x:prolong''\<rparr>"

theorem gateway_prolongs_no_value_witness:
  "mkeys (snd (gateway_serve demo_runtime (RegisterKvStoreServiceHandler demo_runtime demo_conn) demo_rest_prolong demo_stored))
     (value_key demo_cid) = Some (RStr ''hello'', Some 60000)"
proof -
  have m: "rt_Match demo_runtime (map (\<lambda>(m, p, h). (m, p)) (RegisterKvStoreServiceHandler demo_runtime demo_conn)) demo_rest_prolong =
      Some (5, [''name'' \<mapsto> ''accounts/'' @ ''bob'' @ ''/values/'' @ ''x''])"
    by (simp add: demo_runtime_def demo_rest_prolong_def demo_rest_ping_def)
  have r: "5 < length (RegisterKvStoreServiceHandler demo_runtime demo_conn)"
    "fst (snd (RegisterKvStoreServiceHandler demo_runtime demo_conn ! 5)) = pattern_KvStoreService_ProlongValue_0"
    by (simp_all add: RegisterKvStoreServiceHandler_def client_routes)
  have "\<forall>v. runtime_String demo_runtime v = Inr v" by (simp add: demo_runtime_def)
  from gateway_prolongs_no_value [OF demo.service_world_axioms _ demo_conn_delivers m r _ this, of demo_stored "''bob''" "''x''" demo_cid]
  show ?thesis using demo_stored_inv by (simp add: demo_stored_def)
qed

end
